(* ===== verification/Prelude.thy ===== *)
theory Prelude
  imports Main
begin

text \<open>
  Shared vocabulary of the development: the collection of model definitions that the
  component proofs unfold, the JavaScript string primitives the sources call
  (\<open>String.prototype.trim\<close>, \<open>startsWith\<close>, the regular-expression class \<open>\s\<close>),
  the decimal rendering of natural numbers used for generated identifiers and
  timestamps, and generic lemmas on lists filtered by a key, which every component that
  removes an item by its id shares.
\<close>

named_theorems model_defs "definitions of the model unfolded by component proofs"
named_theorems frame_simps "what an operation leaves unchanged"

type_synonym item_id = string

section \<open>JavaScript string primitives\<close>

text \<open>
  JavaScript strings are modelled as \<open>string\<close> (lists of 8-bit characters). The
  white-space class of \<open>trim\<close> and of \<open>\s\<close> in regular expressions is the same set
  (ECMAScript WhiteSpace and LineTerminator); of it, the characters representable in one
  byte are tab, line feed, vertical tab, form feed, carriage return, space and no-break
  space (0xA0).
\<close>

definition js_space :: "char \<Rightarrow> bool" where
  "js_space c \<longleftrightarrow> c \<in> set [CHR 0x09, CHR 0x0A, CHR 0x0B, CHR 0x0C, CHR 0x0D, CHR 0x20, CHR 0xA0]"

definition js_trim :: "string \<Rightarrow> string" where
  "js_trim s = rev (dropWhile js_space (rev (dropWhile js_space s)))"

definition starts_with :: "string \<Rightarrow> string \<Rightarrow> bool" where
  "starts_with s p \<longleftrightarrow> take (length p) s = p"

text \<open>
  \<open>Array.prototype.filter\<close> with a callback that may throw: callbacks run left to
  right and the first exception propagates.
\<close>

fun js_filter :: "('a \<Rightarrow> 'e + bool) \<Rightarrow> 'a list \<Rightarrow> 'e + 'a list" where
  "js_filter p [] = Inr []"
| "js_filter p (x # xs) =
     (case p x of
        Inl e \<Rightarrow> Inl e
      | Inr b \<Rightarrow> (case js_filter p xs of Inl e \<Rightarrow> Inl e | Inr ys \<Rightarrow> Inr (if b then x # ys else ys)))"

declare js_trim_def [model_defs] starts_with_def [model_defs]

section \<open>Decimal rendering of natural numbers\<close>

definition digit_char :: "nat \<Rightarrow> char" where
  "digit_char d = char_of (48 + d)"

fun nat_str :: "nat \<Rightarrow> string" where
  "nat_str n = (if n < 10 then [digit_char n] else nat_str (n div 10) @ [digit_char (n mod 10)])"

definition str_nat :: "string \<Rightarrow> nat" where
  "str_nat s = foldl (\<lambda>acc c. 10 * acc + (of_char c - 48)) 0 s"

declare nat_str.simps [simp del]

section \<open>Lemmas\<close>

subsection \<open>Trimming\<close>

lemma js_trim_empty_iff: "js_trim s = [] \<longleftrightarrow> (\<forall>c \<in> set s. js_space c)"
proof -
  have "rev (dropWhile js_space (rev (dropWhile js_space s))) = [] \<longleftrightarrow>
        dropWhile js_space s = []"
    by (induction s rule: rev_induct) (auto simp: dropWhile_append)
  then show ?thesis by (simp add: js_trim_def dropWhile_eq_Nil_conv)
qed

subsection \<open>Decimal rendering\<close>

lemma digit_char_value: "d < 10 \<Longrightarrow> of_char (digit_char d) - 48 = d"
  by (simp add: digit_char_def)

lemma str_nat_snoc: "str_nat (s @ [c]) = 10 * str_nat s + (of_char c - 48)"
  by (simp add: str_nat_def)

text \<open>Reading back a rendered number gives the number: the round trip of the rendering.\<close>

lemma str_nat_nat_str [simp]: "str_nat (nat_str n) = n"
proof (induction n rule: nat_str.induct)
  case (1 n)
  show ?case
  proof (cases "n < 10")
    case True
    then show ?thesis
      by (simp add: nat_str.simps [of n] str_nat_def digit_char_value)
  next
    case False
    with "1.IH" show ?thesis
      by (simp add: nat_str.simps [of n] str_nat_snoc digit_char_value)
  qed
qed

lemma nat_str_inj: "nat_str m = nat_str n \<longleftrightarrow> m = n"
  by (metis str_nat_nat_str)

lemma nat_str_not_Nil [simp]: "nat_str n \<noteq> []"
  by (subst nat_str.simps) simp

subsection \<open>Filtering with a throwing callback\<close>

lemma js_filter_total: "(\<And>x. x \<in> set xs \<Longrightarrow> p x = Inr (q x)) \<Longrightarrow> js_filter p xs = Inr (filter q xs)"
  by (induction xs) auto

lemma js_filter_Inl: "js_filter p xs = Inl e \<Longrightarrow> \<exists>x \<in> set xs. p x = Inl e"
  by (induction xs) (auto split: sum.splits)

subsection \<open>Options of lists\<close>

lemma map_option_append_Nil [simp]: "map_option ((@) []) x = x"
  by (cases x) simp_all

lemma map_option_append_single [simp]: "map_option ((@) [a]) x = map_option ((#) a) x"
  by (cases x) simp_all

lemma map_option_Cons_append [simp]:
  "map_option ((#) a) (map_option ((@) b) x) = map_option ((@) (a # b)) x"
  by (cases x) simp_all

lemma map_option_append_append [simp]:
  "map_option ((@) a) (map_option ((@) b) x) = map_option ((@) (a @ b)) x"
  by (cases x) simp_all

subsection \<open>Lists filtered by a key\<close>

text \<open>
  Removing the items whose key is \<open>k\<close> (the source's \<open>filter(item => item.id !== k)\<close>)
  removes every such item, keeps every other one in its order, and keeps the relative
  order of the rest.
\<close>

lemma filter_key_gone [simp]: "k \<notin> f ` set (filter (\<lambda>x. f x \<noteq> k) xs)"
  by auto

lemma filter_key_kept: "x \<in> set xs \<Longrightarrow> f x \<noteq> k \<Longrightarrow> x \<in> set (filter (\<lambda>x. f x \<noteq> k) xs)"
  by simp

lemma filter_key_absent: "k \<notin> f ` set xs \<Longrightarrow> filter (\<lambda>x. f x \<noteq> k) xs = xs"
  by (induction xs) auto

lemma filter_key_idem [simp]:
  "filter (\<lambda>x. f x \<noteq> k) (filter (\<lambda>x. f x \<noteq> k) xs) = filter (\<lambda>x. f x \<noteq> k) xs"
  by simp

lemma filter_key_commute:
  "filter (\<lambda>x. f x \<noteq> k) (filter (\<lambda>x. f x \<noteq> j) xs) = filter (\<lambda>x. f x \<noteq> j) (filter (\<lambda>x. f x \<noteq> k) xs)"
  by (simp add: conj_commute)

lemma filter_key_distinct: "distinct (map f xs) \<Longrightarrow> distinct (map f (filter (\<lambda>x. f x \<noteq> k) xs))"
  by (induction xs) auto

lemma filter_eq_distinct:
  "distinct xs \<Longrightarrow> filter (\<lambda>y. y = x) xs = (if x \<in> set xs then [x] else [])"
  by (induction xs) (auto simp: filter_empty_conv)

lemma filter_key_length_distinct:
  "distinct (map f xs) \<Longrightarrow> k \<in> f ` set xs \<Longrightarrow> length (filter (\<lambda>x. f x \<noteq> k) xs) = length xs - 1"
proof (induction xs)
  case Nil
  then show ?case by simp
next
  case (Cons y ys)
  show ?case
  proof (cases "f y = k")
    case True
    with Cons.prems have "k \<notin> f ` set ys" by auto
    with True show ?thesis by (simp add: filter_key_absent)
  next
    case False
    with Cons.prems have "k \<in> f ` set ys" and "distinct (map f ys)" by auto
    with Cons.IH False show ?thesis
      by (cases ys) auto
  qed
qed

end
