(* ===== verification/Database.thy ===== *)
theory Database
  imports Prelude
begin

text \<open>
  The database layer (\<open>src/src/lib/database.ts\<close>) and the hosted table it talks to.
  The table \<open>donated_items\<close> and its change feed are not code of this repository: they
  are modelled from the spec (a relational table with select, insert, delete and a
  notification channel for insert and delete events). The table keeps its rows in
  insertion order, each with the numeric value of its \<open>created_at\<close> timestamp; the
  backend assigns fresh ids (\<open>row_key\<close>) and timestamps from counters. Every request
  may fail on the network, which the model receives as a \<open>net\<close> value.
\<close>

section \<open>Rows\<close>

text \<open>\<open>DatabaseDonatedItem\<close>: the nullable columns are options.\<close>

record db_row =
  row_id :: item_id
  row_name :: string
  row_description :: "string option"
  row_category :: string
  row_condition :: string
  row_location :: string
  row_contact_email :: string
  row_image_url :: "string option"
  row_created_at :: string

text \<open>The argument of \<open>saveDonatedItemToDB\<close>: the columns the client writes.\<close>

record row_insert =
  ins_name :: string
  ins_description :: string
  ins_category :: string
  ins_condition :: string
  ins_location :: string
  ins_contact_email :: string
  ins_image_url :: string

section \<open>The hosted table (modelled from the spec)\<close>

record db_state =
  tbl :: "(nat \<times> db_row) list"
  clock :: nat
  next_id :: nat

datatype net = NetOk | NetErr string

text \<open>A row-change notification of the channel \<open>donated-items-changes\<close>.\<close>

datatype change = ChInsert db_row | ChDelete item_id

definition row_key :: "nat \<Rightarrow> item_id" where
  "row_key k = ''row-'' @ nat_str k"

definition db_empty :: db_state where
  "db_empty = \<lparr>tbl = [], clock = 0, next_id = 0\<rparr>"

text \<open>\<open>select('*').order('created_at', {ascending: false})\<close>.\<close>

definition sb_select_desc :: "db_state \<Rightarrow> db_row list" where
  "sb_select_desc db = rev (map snd (sort_key fst (tbl db)))"

text \<open>\<open>insert([item]).select().single()\<close>: the new row with its generated columns.\<close>

definition new_row :: "row_insert \<Rightarrow> db_state \<Rightarrow> db_row" where
  "new_row i db = \<lparr>row_id = row_key (next_id db), row_name = ins_name i,
     row_description = Some (ins_description i), row_category = ins_category i,
     row_condition = ins_condition i, row_location = ins_location i,
     row_contact_email = ins_contact_email i, row_image_url = Some (ins_image_url i),
     row_created_at = nat_str (clock db)\<rparr>"

definition sb_insert :: "row_insert \<Rightarrow> db_state \<Rightarrow> db_row \<times> db_state" where
  "sb_insert i db =
     (new_row i db,
      db\<lparr>tbl := tbl db @ [(clock db, new_row i db)], clock := Suc (clock db),
         next_id := Suc (next_id db)\<rparr>)"

text \<open>\<open>delete().eq('id', itemId)\<close>: the deleted rows and the new table.\<close>

definition sb_delete_eq :: "item_id \<Rightarrow> db_state \<Rightarrow> db_row list \<times> db_state" where
  "sb_delete_eq x db =
     (map snd (filter (\<lambda>(t, r). row_id r = x) (tbl db)),
      db\<lparr>tbl := filter (\<lambda>(t, r). row_id r \<noteq> x) (tbl db)\<rparr>)"

text \<open>The notifications a committed delete publishes: one per deleted row.\<close>

definition delete_changes :: "db_row list \<Rightarrow> change list" where
  "delete_changes rs = map (ChDelete \<circ> row_id) rs"

section \<open>The client library\<close>

definition getDonatedItemsFromDB :: "net \<Rightarrow> db_state \<Rightarrow> db_row list" where
  "getDonatedItemsFromDB n db = (case n of NetErr e \<Rightarrow> [] | NetOk \<Rightarrow> sb_select_desc db)"

text \<open>
  \<open>{data, error}\<close> of the source is a sum: \<open>Inl\<close> the error message, \<open>Inr\<close> the saved
  row. The notifications the commit publishes are returned with the new table.
\<close>

definition saveDonatedItemToDB ::
  "net \<Rightarrow> row_insert \<Rightarrow> db_state \<Rightarrow> (string + db_row) \<times> db_state \<times> change list" where
  "saveDonatedItemToDB n i db =
     (case n of
       NetErr e \<Rightarrow> (Inl e, db, [])
     | NetOk \<Rightarrow> (case sb_insert i db of (r, db') \<Rightarrow> (Inr r, db', [ChInsert r])))"

definition deleteDonatedItemFromDB ::
  "net \<Rightarrow> item_id \<Rightarrow> db_state \<Rightarrow> bool \<times> db_state \<times> change list" where
  "deleteDonatedItemFromDB n x db =
     (case n of
       NetErr e \<Rightarrow> (False, db, [])
     | NetOk \<Rightarrow> (case sb_delete_eq x db of (rs, db') \<Rightarrow> (True, db', delete_changes rs)))"

text \<open>
  \<open>subscribeToItemChanges(onInsert, onDelete)\<close>: the channel hands each notification
  to the callback for its event. The callbacks act on the subscriber's state \<open>'s\<close>;
  this is the interface between the database layer and the item grid.
\<close>

fun dispatch_change :: "(db_row \<Rightarrow> 's \<Rightarrow> 's) \<Rightarrow> (item_id \<Rightarrow> 's \<Rightarrow> 's) \<Rightarrow> change \<Rightarrow> 's \<Rightarrow> 's" where
  "dispatch_change onInsert onDelete (ChInsert r) = onInsert r"
| "dispatch_change onInsert onDelete (ChDelete x) = onDelete x"

section \<open>Well-formed tables\<close>

text \<open>
  The backend keeps timestamps strictly increasing in insertion order and below its
  clock, renders each timestamp into \<open>created_at\<close>, and draws ids from its counter, so
  ids are distinct.
\<close>

definition db_wf :: "db_state \<Rightarrow> bool" where
  "db_wf db \<longleftrightarrow>
     sorted_wrt (<) (map fst (tbl db)) \<and>
     (\<forall>(t, r) \<in> set (tbl db). t < clock db \<and> row_created_at r = nat_str t \<and>
        (\<exists>k < next_id db. row_id r = row_key k)) \<and>
     distinct (map (row_id \<circ> snd) (tbl db))"

section \<open>Examples\<close>

definition example_insert :: row_insert where
  "example_insert = \<lparr>ins_name = ''Desk'', ins_description = ''Oak desk'', ins_category = ''Furniture'',
     ins_condition = ''Good'', ins_location = ''Downtown'', ins_contact_email = ''ann@example.com'',
     ins_image_url = ''data:image/png;base64,AAAA''\<rparr>"

text \<open>A table holding two rows inserted by the backend.\<close>

definition example_db :: db_state where
  "example_db = snd (sb_insert example_insert (snd (sb_insert example_insert db_empty)))"

lemmas db_ops_defs = sb_insert_def sb_delete_eq_def new_row_def sb_select_desc_def
  saveDonatedItemToDB_def deleteDonatedItemFromDB_def getDonatedItemsFromDB_def

section \<open>Lemmas\<close>

lemma row_key_inj [simp]: "row_key a = row_key b \<longleftrightarrow> a = b"
  by (simp add: row_key_def nat_str_inj)

lemma db_wf_empty: "db_wf db_empty"
  by (simp add: db_wf_def db_empty_def)

lemma sorted_wrt_map_filter:
  "sorted_wrt R (map f xs) \<Longrightarrow> sorted_wrt R (map f (filter P xs))"
  by (induction xs) auto

lemma sb_select_desc_wf: "db_wf db \<Longrightarrow> sb_select_desc db = rev (map snd (tbl db))"
  by (simp add: db_wf_def sb_select_desc_def sort_key_id_if_sorted strict_sorted_imp_sorted)

lemma new_row_fresh:
  "db_wf db \<Longrightarrow> row_id (new_row i db) \<notin> (row_id \<circ> snd) ` set (tbl db)"
  by (auto simp: db_wf_def new_row_def)

lemma sb_insert_wf: "db_wf db \<Longrightarrow> db_wf (snd (sb_insert i db))"
proof -
  assume wf: "db_wf db"
  then have fresh: "row_id (new_row i db) \<notin> (row_id \<circ> snd) ` set (tbl db)"
    by (rule new_row_fresh)
  from wf have "sorted_wrt (<) (map fst (tbl db) @ [clock db])"
    by (auto simp: db_wf_def sorted_wrt_append)
  with wf fresh show ?thesis
    by (auto simp: db_wf_def sb_insert_def new_row_def less_Suc_eq)
qed

lemma sb_delete_eq_wf: "db_wf db \<Longrightarrow> db_wf (snd (sb_delete_eq x db))"
  by (auto simp: db_wf_def sb_delete_eq_def sorted_wrt_map_filter distinct_map_filter)

lemma sb_select_desc_insert:
  "db_wf db \<Longrightarrow> sb_select_desc (snd (sb_insert i db)) = fst (sb_insert i db) # sb_select_desc db"
proof -
  assume wf: "db_wf db"
  then have "db_wf (snd (sb_insert i db))" by (rule sb_insert_wf)
  then have "sb_select_desc (snd (sb_insert i db)) = rev (map snd (tbl (snd (sb_insert i db))))"
    by (rule sb_select_desc_wf)
  with wf show ?thesis by (simp add: sb_select_desc_wf sb_insert_def)
qed

lemma sb_select_desc_delete:
  "sb_select_desc (snd (sb_delete_eq x db)) = filter (\<lambda>r. row_id r \<noteq> x) (sb_select_desc db)"
proof -
  have "filter (\<lambda>r. row_id r \<noteq> x) (map snd (sort_key fst (tbl db))) =
        map snd (filter (\<lambda>(t, r). row_id r \<noteq> x) (sort_key fst (tbl db)))"
    by (simp add: filter_map comp_def case_prod_unfold)
  then show ?thesis
    by (simp add: sb_select_desc_def sb_delete_eq_def filter_sort flip: rev_filter)
qed

lemma sb_select_desc_distinct: "db_wf db \<Longrightarrow> distinct (map row_id (sb_select_desc db))"
  by (simp add: sb_select_desc_wf db_wf_def rev_map [symmetric] distinct_rev comp_def)
  

lemma delete_changes_wf:
  "db_wf db \<Longrightarrow> delete_changes (fst (sb_delete_eq x db)) =
     (if x \<in> (row_id \<circ> snd) ` set (tbl db) then [ChDelete x] else [])"
proof -
  let ?F = "filter (\<lambda>(t, r). row_id r = x) (tbl db)"
  assume "db_wf db"
  then have d: "distinct (map (row_id \<circ> snd) (tbl db))" by (simp add: db_wf_def)
  have "map (row_id \<circ> snd) ?F = filter (\<lambda>y. y = x) (map (row_id \<circ> snd) (tbl db))"
    by (simp add: filter_map comp_def case_prod_unfold)
  also have "\<dots> = (if x \<in> (row_id \<circ> snd) ` set (tbl db) then [x] else [])"
    using d by (simp add: filter_eq_distinct)
  finally have e: "map (row_id \<circ> snd) ?F = (if x \<in> (row_id \<circ> snd) ` set (tbl db) then [x] else [])" .
  have "delete_changes (fst (sb_delete_eq x db)) = map ChDelete (map (row_id \<circ> snd) ?F)"
    by (simp add: delete_changes_def sb_delete_eq_def)
  then show ?thesis unfolding e by simp
qed


lemma example_db_wf: "db_wf example_db"
  by (simp add: example_db_def sb_insert_wf db_wf_empty)

lemma saveDonatedItemToDB_NetOk:
  "saveDonatedItemToDB NetOk i d = (Inr (new_row i d), snd (sb_insert i d), [ChInsert (new_row i d)])"
  by (simp add: saveDonatedItemToDB_def sb_insert_def)

lemma deleteDonatedItemFromDB_NetOk:
  "deleteDonatedItemFromDB NetOk x d = (True, snd (sb_delete_eq x d), delete_changes (fst (sb_delete_eq x d)))"
  by (simp add: deleteDonatedItemFromDB_def split: prod.splits)

lemma deleteDonatedItemFromDB_NetErr: "deleteDonatedItemFromDB (NetErr e) x d = (False, d, [])"
  by (simp add: deleteDonatedItemFromDB_def)

subsection \<open>The client operations, branch by branch\<close>

text \<open>
  Claim C23: \<open>saveDonatedItemToDB\<close> on a failed request returns the error and changes
  nothing; on success it returns the new row, which has an id no other row has, which the
  ordered select now lists first in front of all previous rows, and whose insert is the
  one notification published; the table stays well-formed.
\<close>

theorem saveDonatedItemToDB_result:
  assumes wf: "db_wf db" and save: "saveDonatedItemToDB n i db = (res, db', cs)"
  shows "(case n of
            NetErr e \<Rightarrow> res = Inl e \<and> db' = db \<and> cs = []
          | NetOk \<Rightarrow> (\<exists>r. res = Inr r \<and> cs = [ChInsert r] \<and>
                 sb_select_desc db' = r # sb_select_desc db \<and>
                 row_id r \<notin> row_id ` set (sb_select_desc db) \<and> db_wf db'))"
proof (cases n)
  case (NetErr e)
  with save show ?thesis by (simp add: saveDonatedItemToDB_def)
next
  case NetOk
  let ?r = "fst (sb_insert i db)"
  from save NetOk have res: "res = Inr ?r" "db' = snd (sb_insert i db)" "cs = [ChInsert ?r]"
    by (auto simp: saveDonatedItemToDB_def sb_insert_def)
  have "row_id ?r \<notin> row_id ` set (sb_select_desc db)"
    using new_row_fresh [OF wf] by (simp add: sb_select_desc_wf [OF wf] sb_insert_def image_comp)
  with res NetOk wf show ?thesis
    by (simp add: sb_select_desc_insert sb_insert_wf)
qed

theorem saveDonatedItemToDB_result_witness:
  "db_wf example_db \<and> fst (saveDonatedItemToDB NetOk example_insert example_db) = Inr (new_row example_insert example_db) \<and>
   sb_select_desc (fst (snd (saveDonatedItemToDB NetOk example_insert example_db))) =
     new_row example_insert example_db # sb_select_desc example_db"
proof -
  have eq: "saveDonatedItemToDB NetOk example_insert example_db =
        (Inr (new_row example_insert example_db), snd (sb_insert example_insert example_db), [ChInsert (new_row example_insert example_db)])"
    by (simp add: saveDonatedItemToDB_def sb_insert_def)
  from saveDonatedItemToDB_result [OF example_db_wf eq] eq example_db_wf show ?thesis by simp
qed

text \<open>
  Claim C24: \<open>deleteDonatedItemFromDB\<close> on a failed request returns \<open>false\<close> and
  changes nothing; otherwise it returns \<open>true\<close>, whether or not a row had the id,
  removes exactly the rows with that id from the ordered select, and publishes one
  delete notification if the row existed and none otherwise.
\<close>

theorem deleteDonatedItemFromDB_result:
  assumes wf: "db_wf db" and del: "deleteDonatedItemFromDB n x db = (ok, db', cs)"
  shows "(case n of
            NetErr e \<Rightarrow> \<not> ok \<and> db' = db \<and> cs = []
          | NetOk \<Rightarrow> ok \<and> sb_select_desc db' = filter (\<lambda>r. row_id r \<noteq> x) (sb_select_desc db) \<and>
              cs = (if x \<in> row_id ` set (sb_select_desc db) then [ChDelete x] else []) \<and>
              db_wf db')"
proof (cases n)
  case (NetErr e)
  with del show ?thesis by (simp add: deleteDonatedItemFromDB_def)
next
  case NetOk
  from del NetOk have res: "ok" "db' = snd (sb_delete_eq x db)"
      "cs = delete_changes (fst (sb_delete_eq x db))"
    by (auto simp: deleteDonatedItemFromDB_def split: prod.splits)
  have "x \<in> row_id ` set (sb_select_desc db) \<longleftrightarrow> x \<in> (row_id \<circ> snd) ` set (tbl db)"
    by (simp add: sb_select_desc_wf [OF wf] image_comp)
  with res NetOk wf show ?thesis
    by (simp add: sb_select_desc_delete delete_changes_wf sb_delete_eq_wf)
qed

theorem deleteDonatedItemFromDB_result_witness:
  "db_wf example_db \<and> fst (deleteDonatedItemFromDB NetOk (row_key 0) example_db) \<and>
   sb_select_desc (fst (snd (deleteDonatedItemFromDB NetOk (row_key 0) example_db))) =
     filter (\<lambda>r. row_id r \<noteq> row_key 0) (sb_select_desc example_db)"
proof -
  obtain ok db' cs where eq: "deleteDonatedItemFromDB NetOk (row_key 0) example_db = (ok, db', cs)"
    by (metis prod_cases3)
  from deleteDonatedItemFromDB_result [OF example_db_wf eq] eq example_db_wf show ?thesis by simp
qed

end
