(* ===== verification/Json.thy ===== *)
theory Json
  imports Prelude
begin

text \<open>
  \<open>JSON.stringify\<close> and \<open>JSON.parse\<close> of the browser, through which both users of
  local storage (\<open>src/src/lib/storage.ts\<close> and the claimed-placeholder list of
  \<open>src/src/components/ItemGrid.tsx\<close>) write and read their values. They are not code
  of this repository and are modelled from the ECMAScript specification:
  \<^item> a value is a \<open>json\<close> tree; numbers are integers (the application stores none;
    a number literal with a fraction or an exponent is read as a syntax error here);
  \<^item> \<open>json_stringify\<close> renders the token sequence of a value without white space,
    escaping strings as \<open>JSON.stringify\<close> does (\<open>\"\<close>, \<open>\\\<close>, the five short
    escapes and \<open>\u00xx\<close> for the other control characters);
  \<^item> \<open>json_parse\<close> is a lexer, a character-by-character state machine, followed by a
    shift-reduce parser over the tokens, a pushdown automaton that consumes one token per
    step; both are structural recursions, so parsing always returns, with \<open>Inl\<close> for
    the \<open>SyntaxError\<close> that \<open>JSON.parse\<close> throws. A \<open>\uXXXX\<close> escape above 0xFF
    has no one-byte character and is read as a syntax error.
\<close>

section \<open>Values and tokens\<close>

datatype json = JNull | JBool bool | JNum int | JStr string | JArr "json list"
  | JObj "(string \<times> json) list"

datatype jtok = TLBrack | TRBrack | TLBrace | TRBrace | TComma | TColon
  | TStr string | TNum int | TTrue | TFalse | TNull

datatype json_error = SyntaxError

section \<open>Rendering: \<open>JSON.stringify\<close>\<close>

definition hex_char :: "nat \<Rightarrow> char" where
  "hex_char d = (if d < 10 then char_of (48 + d) else char_of (87 + d))"

definition json_escape :: "char \<Rightarrow> string" where
  "json_escape c =
     (if c = CHR 0x22 then [CHR 0x5C, CHR 0x22]
      else if c = CHR 0x5C then [CHR 0x5C, CHR 0x5C]
      else if c = CHR 0x08 then [CHR 0x5C, CHR ''b'']
      else if c = CHR 0x0C then [CHR 0x5C, CHR ''f'']
      else if c = CHR 0x0A then [CHR 0x5C, CHR ''n'']
      else if c = CHR 0x0D then [CHR 0x5C, CHR ''r'']
      else if c = CHR 0x09 then [CHR 0x5C, CHR ''t'']
      else if of_char c < (32::nat) then
        [CHR 0x5C, CHR ''u'', CHR ''0'', CHR ''0'', hex_char (of_char c div 16), hex_char (of_char c mod 16)]
      else [c])"

definition json_quote :: "string \<Rightarrow> string" where
  "json_quote s = CHR 0x22 # concat (map json_escape s) @ [CHR 0x22]"

definition int_str :: "int \<Rightarrow> string" where
  "int_str i = (if i < 0 then CHR ''-'' # nat_str (nat (- i)) else nat_str (nat i))"

fun render_tok :: "jtok \<Rightarrow> string" where
  "render_tok TLBrack = ''[''"
| "render_tok TRBrack = '']''"
| "render_tok TLBrace = ''{''"
| "render_tok TRBrace = ''}''"
| "render_tok TComma = '',''"
| "render_tok TColon = '':''"
| "render_tok (TStr s) = json_quote s"
| "render_tok (TNum i) = int_str i"
| "render_tok TTrue = ''true''"
| "render_tok TFalse = ''false''"
| "render_tok TNull = ''null''"

fun commas :: "jtok list list \<Rightarrow> jtok list" where
  "commas [] = []"
| "commas [x] = x"
| "commas (x # xs) = x @ TComma # commas xs"

fun json_tokens :: "json \<Rightarrow> jtok list" where
  "json_tokens JNull = [TNull]"
| "json_tokens (JBool b) = [if b then TTrue else TFalse]"
| "json_tokens (JNum i) = [TNum i]"
| "json_tokens (JStr s) = [TStr s]"
| "json_tokens (JArr vs) = TLBrack # commas (map json_tokens vs) @ [TRBrack]"
| "json_tokens (JObj kvs) =
     TLBrace # commas (map (\<lambda>(k, v). TStr k # TColon # json_tokens v) kvs) @ [TRBrace]"

definition json_stringify :: "json \<Rightarrow> string" where
  "json_stringify v = concat (map render_tok (json_tokens v))"

section \<open>Lexing\<close>

datatype lstate =
    LTop
  | LStr string                 \<comment> \<open>inside a string; characters so far, reversed\<close>
  | LEsc string                 \<comment> \<open>after a backslash\<close>
  | LHex string nat nat         \<comment> \<open>after \<open>\u\<close>: digits read, value so far\<close>
  | LNeg                        \<comment> \<open>after a minus sign\<close>
  | LNum bool nat bool          \<comment> \<open>negative?, value, closed (after a leading 0)\<close>
  | LLit string jtok            \<comment> \<open>rest of \<open>true\<close>, \<open>false\<close> or \<open>null\<close>\<close>

definition json_ws :: "char \<Rightarrow> bool" where
  "json_ws c \<longleftrightarrow> c \<in> set [CHR 0x20, CHR 0x09, CHR 0x0A, CHR 0x0D]"

definition is_digit :: "char \<Rightarrow> bool" where
  "is_digit c \<longleftrightarrow> 48 \<le> (of_char c :: nat) \<and> (of_char c :: nat) \<le> 57"

definition digit_val :: "char \<Rightarrow> nat" where
  "digit_val c = (of_char c :: nat) - 48"

definition hex_val :: "char \<Rightarrow> nat option" where
  "hex_val c =
     (if is_digit c then Some (digit_val c)
      else if 97 \<le> (of_char c :: nat) \<and> (of_char c :: nat) \<le> 102 then Some (of_char c - 87)
      else if 65 \<le> (of_char c :: nat) \<and> (of_char c :: nat) \<le> 70 then Some (of_char c - 55)
      else None)"

definition lex_top :: "char \<Rightarrow> (lstate \<times> jtok list) option" where
  "lex_top c =
     (if json_ws c then Some (LTop, [])
      else if c = CHR ''['' then Some (LTop, [TLBrack])
      else if c = CHR '']'' then Some (LTop, [TRBrack])
      else if c = CHR ''{'' then Some (LTop, [TLBrace])
      else if c = CHR ''}'' then Some (LTop, [TRBrace])
      else if c = CHR '','' then Some (LTop, [TComma])
      else if c = CHR '':'' then Some (LTop, [TColon])
      else if c = CHR 0x22 then Some (LStr [], [])
      else if c = CHR ''-'' then Some (LNeg, [])
      else if c = CHR ''0'' then Some (LNum False 0 True, [])
      else if is_digit c then Some (LNum False (digit_val c) False, [])
      else if c = CHR ''t'' then Some (LLit ''rue'' TTrue, [])
      else if c = CHR ''f'' then Some (LLit ''alse'' TFalse, [])
      else if c = CHR ''n'' then Some (LLit ''ull'' TNull, [])
      else None)"

definition num_tok :: "bool \<Rightarrow> nat \<Rightarrow> jtok" where
  "num_tok neg v = TNum (if neg then - int v else int v)"

definition unescape :: "char \<Rightarrow> char option" where
  "unescape c =
     (if c = CHR 0x22 then Some (CHR 0x22)
      else if c = CHR 0x5C then Some (CHR 0x5C)
      else if c = CHR ''/'' then Some (CHR ''/'')
      else if c = CHR ''b'' then Some (CHR 0x08)
      else if c = CHR ''f'' then Some (CHR 0x0C)
      else if c = CHR ''n'' then Some (CHR 0x0A)
      else if c = CHR ''r'' then Some (CHR 0x0D)
      else if c = CHR ''t'' then Some (CHR 0x09)
      else None)"

fun lex_step :: "lstate \<Rightarrow> char \<Rightarrow> (lstate \<times> jtok list) option" where
  "lex_step LTop c = lex_top c"
| "lex_step (LStr acc) c =
     (if c = CHR 0x22 then Some (LTop, [TStr (rev acc)])
      else if c = CHR 0x5C then Some (LEsc acc, [])
      else if of_char c < (32::nat) then None
      else Some (LStr (c # acc), []))"
| "lex_step (LEsc acc) c =
     (if c = CHR ''u'' then Some (LHex acc 0 0, [])
      else map_option (\<lambda>d. (LStr (d # acc), [])) (unescape c))"
| "lex_step (LHex acc n v) c =
     (case hex_val c of
        None \<Rightarrow> None
      | Some h \<Rightarrow>
          if n < 3 then Some (LHex acc (Suc n) (16 * v + h), [])
          else if 16 * v + h < 256 then Some (LStr (char_of (16 * v + h) # acc), [])
          else None)"
| "lex_step LNeg c =
     (if c = CHR ''0'' then Some (LNum True 0 True, [])
      else if is_digit c then Some (LNum True (digit_val c) False, [])
      else None)"
| "lex_step (LNum neg v closed) c =
     (if is_digit c \<and> \<not> closed then Some (LNum neg (10 * v + digit_val c) False, [])
      else map_option (\<lambda>(st, ts). (st, num_tok neg v # ts)) (lex_top c))"
| "lex_step (LLit xs t) c =
     (case xs of
        [] \<Rightarrow> None
      | x # xs' \<Rightarrow> if c = x then Some (if xs' = [] then (LTop, [t]) else (LLit xs' t, [])) else None)"

fun lex_finish :: "lstate \<Rightarrow> jtok list option" where
  "lex_finish LTop = Some []"
| "lex_finish (LNum neg v closed) = Some [num_tok neg v]"
| "lex_finish st = None"

fun lex_run :: "lstate \<Rightarrow> string \<Rightarrow> jtok list option" where
  "lex_run st [] = lex_finish st"
| "lex_run st (c # cs) =
     (case lex_step st c of
        None \<Rightarrow> None
      | Some (st', ts) \<Rightarrow> map_option (\<lambda>us. ts @ us) (lex_run st' cs))"

section \<open>Parsing\<close>

text \<open>
  The parser's stack holds the open containers: an array with its elements so far, an
  object with its members so far, or an object whose next member's key has been read.
  The mode says what the next token may be.
\<close>

datatype frame = FArr "json list" | FObj "(string \<times> json) list" | FKey "(string \<times> json) list" string

datatype pmode = MVal | MValOrEnd | MSep | MKey | MKeyOrEnd | MColon string | MDone json

type_synonym pstate = "frame list \<times> pmode"

fun reduce :: "json \<Rightarrow> frame list \<Rightarrow> pstate option" where
  "reduce v [] = Some ([], MDone v)"
| "reduce v (FArr es # st) = Some (FArr (v # es) # st, MSep)"
| "reduce v (FKey ms k # st) = Some (FObj ((k, v) # ms) # st, MSep)"
| "reduce v (FObj ms # st) = None"

fun pstep_val :: "frame list \<Rightarrow> jtok \<Rightarrow> pstate option" where
  "pstep_val st TNull = reduce JNull st"
| "pstep_val st TTrue = reduce (JBool True) st"
| "pstep_val st TFalse = reduce (JBool False) st"
| "pstep_val st (TNum i) = reduce (JNum i) st"
| "pstep_val st (TStr s) = reduce (JStr s) st"
| "pstep_val st TLBrack = Some (FArr [] # st, MValOrEnd)"
| "pstep_val st TLBrace = Some (FObj [] # st, MKeyOrEnd)"
| "pstep_val st t = None"

fun pstep_key :: "frame list \<Rightarrow> jtok \<Rightarrow> pstate option" where
  "pstep_key st (TStr k) = Some (st, MColon k)"
| "pstep_key st t = None"

fun pstep :: "pstate \<Rightarrow> jtok \<Rightarrow> pstate option" where
  "pstep (st, MVal) t = pstep_val st t"
| "pstep (st, MValOrEnd) TRBrack =
     (case st of FArr [] # st' \<Rightarrow> reduce (JArr []) st' | _ \<Rightarrow> None)"
| "pstep (st, MValOrEnd) t = pstep_val st t"
| "pstep (FArr es # st, MSep) TComma = Some (FArr es # st, MVal)"
| "pstep (FObj ms # st, MSep) TComma = Some (FObj ms # st, MKey)"
| "pstep (FArr es # st, MSep) TRBrack = reduce (JArr (rev es)) st"
| "pstep (FObj ms # st, MSep) TRBrace = reduce (JObj (rev ms)) st"
| "pstep (st, MKey) t = pstep_key st t"
| "pstep (st, MKeyOrEnd) TRBrace =
     (case st of FObj [] # st' \<Rightarrow> reduce (JObj []) st' | _ \<Rightarrow> None)"
| "pstep (st, MKeyOrEnd) t = pstep_key st t"
| "pstep (FObj ms # st, MColon k) TColon = Some (FKey ms k # st, MVal)"
| "pstep _ _ = None"

fun prun :: "pstate \<Rightarrow> jtok list \<Rightarrow> pstate option" where
  "prun ps [] = Some ps"
| "prun ps (t # ts) = (case pstep ps t of None \<Rightarrow> None | Some ps' \<Rightarrow> prun ps' ts)"

definition json_parse :: "string \<Rightarrow> json_error + json" where
  "json_parse s =
     (case lex_run LTop s of
        None \<Rightarrow> Inl SyntaxError
      | Some ts \<Rightarrow>
          (case prun ([], MVal) ts of
             Some ([], MDone v) \<Rightarrow> Inr v
           | _ \<Rightarrow> Inl SyntaxError))"

section \<open>Helpers of the round-trip proof\<close>

text \<open>
  The tokens of one object member, and the property that rendering a token list and
  lexing it back gives the tokens in front of whatever the rest lexes to. A number token
  needs the next character not to be a digit, which \<open>last_num\<close> records.
\<close>

definition member_tokens :: "string \<times> json \<Rightarrow> jtok list" where
  "member_tokens kv = (case kv of (k, v) \<Rightarrow> TStr k # TColon # json_tokens v)"

definition last_num :: "jtok list \<Rightarrow> bool" where
  "last_num ts \<longleftrightarrow> ts \<noteq> [] \<and> (case last ts of TNum i \<Rightarrow> True | _ \<Rightarrow> False)"

definition lexes :: "jtok list \<Rightarrow> bool" where
  "lexes ts \<longleftrightarrow> (\<forall>s. (last_num ts \<longrightarrow> s = [] \<or> \<not> is_digit (hd s)) \<longrightarrow>
      lex_run LTop (concat (map render_tok ts) @ s) = map_option ((@) ts) (lex_run LTop s))"


section \<open>Round trip\<close>

subsection \<open>Parser\<close>

lemma prun_append:
  "prun ps (xs @ ys) = (case prun ps xs of None \<Rightarrow> None | Some ps' \<Rightarrow> prun ps' ys)"
  by (induction ps xs rule: prun.induct) (auto split: option.splits)

lemma commas_Cons: "commas (x # xs) = x @ (if xs = [] then [] else TComma # commas xs)"
  by (cases xs) auto

lemma json_tokens_Cons: "\<exists>t ts. json_tokens v = t # ts \<and> t \<noteq> TRBrack"
  by (cases v) auto

lemma prun_ValOrEnd_tokens:
  "prun (st, MValOrEnd) (json_tokens v @ r) = prun (st, MVal) (json_tokens v @ r)"
proof -
  obtain t ts where "json_tokens v = t # ts" "t \<noteq> TRBrack"
    using json_tokens_Cons by blast
  then show ?thesis by (cases t) auto
qed

lemma prun_elems:
  "(\<And>v st. v \<in> set vs \<Longrightarrow> prun (st, MVal) (json_tokens v) = reduce v st) \<Longrightarrow> vs \<noteq> [] \<Longrightarrow>
   prun (FArr es # st, MVal) (commas (map json_tokens vs)) = Some (FArr (rev vs @ es) # st, MSep)"
proof (induction vs arbitrary: es)
  case Nil
  then show ?case by simp
next
  case (Cons v vs)
  have v: "prun (FArr es # st, MVal) (json_tokens v) = Some (FArr (v # es) # st, MSep)"
    using Cons.prems(1) by simp
  show ?case
  proof (cases "vs = []")
    case True
    with v show ?thesis by simp
  next
    case False
    with Cons.IH Cons.prems(1)
    have "prun (FArr (v # es) # st, MVal) (commas (map json_tokens vs)) =
          Some (FArr (rev vs @ v # es) # st, MSep)" by simp
    with v False show ?thesis by (simp add: commas_Cons prun_append)
  qed
qed

lemma prun_members:
  "(\<And>k v st. (k, v) \<in> set kvs \<Longrightarrow> prun (st, MVal) (json_tokens v) = reduce v st) \<Longrightarrow> kvs \<noteq> [] \<Longrightarrow>
   prun (FObj ms # st, MKey) (commas (map member_tokens kvs)) = Some (FObj (rev kvs @ ms) # st, MSep)"
proof (induction kvs arbitrary: ms)
  case Nil
  then show ?case by simp
next
  case (Cons kv kvs)
  obtain k v where kv: "kv = (k, v)" by fastforce
  have m: "prun (FObj ms # st, MKey) (member_tokens kv) = Some (FObj ((k, v) # ms) # st, MSep)"
    using Cons.prems(1) [of k v "FKey ms k # st"] kv by (simp add: member_tokens_def)
  show ?case
  proof (cases "kvs = []")
    case True
    with m kv show ?thesis by simp
  next
    case False
    have IH': "\<And>k' v' st'. (k', v') \<in> set kvs \<Longrightarrow> prun (st', MVal) (json_tokens v') = reduce v' st'"
      using Cons.prems(1) by (metis list.set_intros(2))
    from Cons.IH [OF IH' False]
    have "prun (FObj ((k, v) # ms) # st, MKey) (commas (map member_tokens kvs)) =
          Some (FObj (rev kvs @ (k, v) # ms) # st, MSep)" by simp
    with m kv False show ?thesis by (simp add: commas_Cons prun_append)
  qed
qed

lemma member_tokens_abs: "(\<lambda>(k, v). TStr k # TColon # json_tokens v) = member_tokens"
  by (rule ext) (simp add: member_tokens_def split: prod.splits)

lemma json_tokens_JObj:
  "json_tokens (JObj kvs) = TLBrace # commas (map member_tokens kvs) @ [TRBrace]"
  by (simp add: member_tokens_abs)

lemma prun_json_tokens: "prun (st, MVal) (json_tokens v) = reduce v st"
proof (induction v arbitrary: st)
  case (JArr vs)
  show ?case
  proof (cases vs)
    case Nil
    then show ?thesis by (simp split: option.splits)
  next
    case (Cons w ws)
    then have ne: "vs \<noteq> []" by simp
    have "prun (FArr [] # st, MVal) (commas (map json_tokens vs)) = Some (FArr (rev vs) # st, MSep)"
      using prun_elems [OF JArr.IH ne, where es = "[]" and st = st] by simp
    moreover have "prun (FArr [] # st, MValOrEnd) (commas (map json_tokens vs) @ [TRBrack]) =
          prun (FArr [] # st, MVal) (commas (map json_tokens vs) @ [TRBrack])"
      using prun_ValOrEnd_tokens [of "FArr [] # st" w] Cons by (simp add: commas_Cons)
    ultimately show ?thesis by (simp add: prun_append split: option.splits)
  qed
next
  case (JObj kvs)
  show ?case
  proof (cases kvs)
    case Nil
    then show ?thesis by (simp split: option.splits)
  next
    case (Cons kv kvs')
    then have ne: "kvs \<noteq> []" by simp
    have IH: "\<And>k v st. (k, v) \<in> set kvs \<Longrightarrow> prun (st, MVal) (json_tokens v) = reduce v st"
      using JObj.IH by fastforce
    have members: "prun (FObj [] # st, MKey) (commas (map member_tokens kvs)) = Some (FObj (rev kvs) # st, MSep)"
      using prun_members [OF IH ne, where ms = "[]" and st = st] by simp
    obtain k v where kv: "kv = (k, v)" by fastforce
    have s1: "prun (st, MVal) (json_tokens (JObj kvs)) =
              prun (FObj [] # st, MKeyOrEnd) (commas (map member_tokens kvs) @ [TRBrace])"
      unfolding json_tokens_JObj by simp
    have s2: "prun (FObj [] # st, MKeyOrEnd) (commas (map member_tokens kvs) @ [TRBrace]) =
              prun (FObj [] # st, MKey) (commas (map member_tokens kvs) @ [TRBrace])"
      using Cons kv by (simp add: commas_Cons member_tokens_def)
    from s1 s2 members show ?thesis by (simp add: prun_append split: option.splits)
  qed
qed (simp_all split: option.splits)

lemma json_parse_tokens:
  "lex_run LTop s = Some (json_tokens v) \<Longrightarrow> json_parse s = Inr v"
  by (simp add: json_parse_def prun_json_tokens)

subsection \<open>Lexer\<close>

lemma digit_char_cases: "d < 10 \<Longrightarrow> d \<in> set [0,1,2,3,4,5,6,7,8,9::nat]"
  by auto

lemma lex_step_digit:
  "d < 10 \<Longrightarrow> lex_step LTop (digit_char d) = Some (LNum False d (d = 0), []) \<and>
     lex_step LNeg (digit_char d) = Some (LNum True d (d = 0), [])"
  using digit_char_cases [of d]
  by (auto simp: lex_top_def digit_char_def json_ws_def is_digit_def digit_val_def char_of_eq_iff)

lemma is_digit_digit_char: "d < 10 \<Longrightarrow> is_digit (digit_char d) \<and> digit_val (digit_char d) = d"
  by (simp add: is_digit_def digit_val_def digit_char_def)


lemma lex_run_nat_str:
  "lex_run LTop (nat_str n @ s) = lex_run (LNum False n (n = 0)) s \<and>
   lex_run LNeg (nat_str n @ s) = lex_run (LNum True n (n = 0)) s"
proof (induction n arbitrary: s rule: nat_str.induct)
  case (1 n)
  show ?case
  proof (cases "n < 10")
    case True
    then show ?thesis by (simp add: nat_str.simps [of n] lex_step_digit del: lex_step.simps)
  next
    case False
    let ?d = "digit_char (n mod 10)"
    have nz: "n div 10 \<noteq> 0" and n0: "n \<noteq> 0" using False by simp_all
    have split: "nat_str n @ s = nat_str (n div 10) @ ?d # s"
      using False by (simp add: nat_str.simps [of n])
    have step: "lex_step (LNum b (n div 10) False) ?d = Some (LNum b n False, [])" for b
      using is_digit_digit_char [of "n mod 10"] by simp
    have run: "lex_run (LNum b (n div 10) False) (?d # s) = lex_run (LNum b n False) s" for b
      using step by simp
    have IH: "lex_run LTop (nat_str (n div 10) @ ?d # s) = lex_run (LNum False (n div 10) False) (?d # s) \<and>
              lex_run LNeg (nat_str (n div 10) @ ?d # s) = lex_run (LNum True (n div 10) False) (?d # s)"
      using "1.IH" [OF False, of "?d # s"] nz by (simp only: simp_thms)
    then show ?thesis by (simp only: split run n0 simp_thms)
  qed
qed

lemma lex_run_num_end:
  "s = [] \<or> \<not> is_digit (hd s) \<Longrightarrow>
   lex_run (LNum neg v closed) s = map_option ((#) (num_tok neg v)) (lex_run LTop s)"
  by (cases s) (auto split: option.splits prod.splits)

lemma lex_run_int_str:
  "s = [] \<or> \<not> is_digit (hd s) \<Longrightarrow>
   lex_run LTop (int_str i @ s) = map_option ((#) (TNum i)) (lex_run LTop s)"
proof (cases "i < 0")
  case True
  assume s: "s = [] \<or> \<not> is_digit (hd s)"
  have "lex_top (CHR ''-'') = Some (LNeg, [])" by (simp add: lex_top_def json_ws_def)
  with True s show ?thesis
    by (simp add: int_str_def lex_run_nat_str lex_run_num_end num_tok_def)
next
  case False
  assume s: "s = [] \<or> \<not> is_digit (hd s)"
  with False show ?thesis
    by (simp add: int_str_def lex_run_nat_str lex_run_num_end num_tok_def)
qed


lemma hex_val_hex_char: "d < 16 \<Longrightarrow> hex_val (hex_char d) = Some d"
proof -
  assume "d < 16"
  then have "d \<in> set [0..<16]" by simp
  then show ?thesis
    by (simp add: upt_rec hex_val_def hex_char_def is_digit_def digit_val_def)
       (elim disjE; simp)
qed

lemma lex_run_escape: "lex_run (LStr acc) (json_escape c @ s) = lex_run (LStr (c # acc)) s"
proof (cases "c \<in> set [CHR 0x22, CHR 0x5C, CHR 0x08, CHR 0x0C, CHR 0x0A, CHR 0x0D, CHR 0x09]")
  case True
  then show ?thesis by (auto simp: json_escape_def unescape_def)
next
  case not_short: False
  show ?thesis
  proof (cases "of_char c < (32::nat)")
    case True
    let ?x = "of_char c :: nat"
    have esc: "json_escape c =
        [CHR 0x5C, CHR ''u'', CHR ''0'', CHR ''0'', hex_char (?x div 16), hex_char (?x mod 16)]"
      using not_short True by (simp add: json_escape_def)
    have h: "hex_val (hex_char (?x div 16)) = Some (?x div 16)"
            "hex_val (hex_char (?x mod 16)) = Some (?x mod 16)"
      using True by (simp_all add: hex_val_hex_char)
    have z: "hex_val (CHR ''0'') = Some 0"
      by (simp add: hex_val_def is_digit_def digit_val_def)
    have "16 * (?x div 16) + ?x mod 16 = ?x" by simp
    with esc h z True show ?thesis by simp
  next
    case False
    with not_short show ?thesis by (simp add: json_escape_def)
  qed
qed

lemma lex_run_escapes:
  "lex_run (LStr acc) (concat (map json_escape cs) @ s) = lex_run (LStr (rev cs @ acc)) s"
  by (induction cs arbitrary: acc) (simp_all add: lex_run_escape [simplified])

lemma lex_run_quote:
  "lex_run LTop (json_quote cs @ s) = map_option ((#) (TStr cs)) (lex_run LTop s)"
proof -
  have q: "lex_top (CHR 0x22) = Some (LStr [], [])" by (simp add: lex_top_def json_ws_def)
  have "lex_run (LStr []) (concat (map json_escape cs) @ CHR 0x22 # s) = lex_run (LStr (rev cs)) (CHR 0x22 # s)"
    using lex_run_escapes [of "[]" cs "CHR 0x22 # s"] by simp
  with q show ?thesis by (simp add: json_quote_def)
qed


lemma lexes_single: "lexes [t]"
proof (cases t)
  case (TStr cs)
  then show ?thesis by (simp add: lexes_def lex_run_quote)
next
  case (TNum i)
  then show ?thesis by (simp add: lexes_def last_num_def lex_run_int_str)
qed (simp_all add: lexes_def lex_top_def json_ws_def is_digit_def)

lemma render_tok_not_num:
  "(case t of TNum i \<Rightarrow> False | _ \<Rightarrow> True) \<Longrightarrow> \<exists>c cs. render_tok t = c # cs \<and> \<not> is_digit c"
  by (cases t) (simp_all add: json_quote_def is_digit_def)

lemma last_num_append: "ys \<noteq> [] \<Longrightarrow> last_num (xs @ ys) = last_num ys"
  by (simp add: last_num_def)

lemma lexes_append:
  assumes xs: "lexes xs" and ys: "lexes ys"
    and sep: "ys \<noteq> [] \<Longrightarrow> last_num xs \<Longrightarrow> (case hd ys of TNum i \<Rightarrow> False | _ \<Rightarrow> True)"
  shows "lexes (xs @ ys)"
proof (cases "ys = []")
  case True
  with xs show ?thesis by simp
next
  case False
  show ?thesis unfolding lexes_def
  proof (intro allI impI)
    fix s
    assume s: "last_num (xs @ ys) \<longrightarrow> s = [] \<or> \<not> is_digit (hd s)"
    let ?r = "concat (map render_tok ys) @ s"
    from s False have "last_num ys \<longrightarrow> s = [] \<or> \<not> is_digit (hd s)"
      by (simp add: last_num_append)
    with ys have r: "lex_run LTop ?r = map_option ((@) ys) (lex_run LTop s)"
      by (simp add: lexes_def)
    have "last_num xs \<longrightarrow> ?r = [] \<or> \<not> is_digit (hd ?r)"
    proof
      assume "last_num xs"
      with sep False have "case hd ys of TNum i \<Rightarrow> False | _ \<Rightarrow> True" by simp
      then obtain c cs where "render_tok (hd ys) = c # cs" "\<not> is_digit c"
        using render_tok_not_num by blast
      with False show "?r = [] \<or> \<not> is_digit (hd ?r)"
        by (cases ys) simp_all
    qed
    with xs have "lex_run LTop (concat (map render_tok xs) @ ?r) = map_option ((@) xs) (lex_run LTop ?r)"
      by (simp add: lexes_def)
    with r show "lex_run LTop (concat (map render_tok (xs @ ys)) @ s) =
                 map_option ((@) (xs @ ys)) (lex_run LTop s)"
      by simp
  qed
qed

lemma lexes_Cons: "lexes xs \<Longrightarrow> (case t of TNum i \<Rightarrow> False | _ \<Rightarrow> True) \<Longrightarrow> lexes (t # xs)"
  using lexes_append [OF lexes_single, of xs t] by (cases t) (simp_all add: last_num_def)

lemma lexes_commas: "(\<And>x. x \<in> set xss \<Longrightarrow> lexes x) \<Longrightarrow> lexes (commas xss)"
proof (induction xss rule: commas.induct)
  case 1
  then show ?case by (simp add: lexes_def)
next
  case (2 x)
  then show ?case by simp
next
  case (3 x y ys)
  then have "lexes (TComma # commas (y # ys))" by (simp add: lexes_Cons)
  with "3.prems" show ?case by (simp add: lexes_append)
qed

lemma lexes_json_tokens: "lexes (json_tokens v)"
proof (induction v)
  case (JArr vs)
  have c: "lexes (commas (map json_tokens vs))"
    by (rule lexes_commas) (use JArr in auto)
  have "lexes (commas (map json_tokens vs) @ [TRBrack])"
    by (rule lexes_append [OF c lexes_single]) simp
  then show ?case by (simp add: lexes_Cons)
next
  case (JObj kvs)
  have "lexes (member_tokens kv)" if "kv \<in> set kvs" for kv
  proof -
    obtain k v where kv: "kv = (k, v)" by fastforce
    with JObj that have "lexes (json_tokens v)" by fastforce
    with kv show ?thesis by (simp add: member_tokens_def lexes_Cons)
  qed
  then have c: "lexes (commas (map member_tokens kvs))"
    by (intro lexes_commas) auto
  have "lexes (commas (map member_tokens kvs) @ [TRBrace])"
    by (rule lexes_append [OF c lexes_single]) simp
  then show ?case by (simp add: json_tokens_JObj lexes_Cons del: json_tokens.simps)
qed (simp_all add: lexes_single)

text \<open>
  What \<open>JSON.stringify\<close> writes, \<open>JSON.parse\<close> reads back: for every JSON
  value, parsing its rendering gives the value itself. This is what makes the persisted
  lists of \<open>storage.ts\<close> and of the claimed placeholders survive a reload.
\<close>

theorem json_parse_stringify: "json_parse (json_stringify v) = Inr v"
proof -
  have "lexes (json_tokens v)" by (rule lexes_json_tokens)
  then have "lex_run LTop (concat (map render_tok (json_tokens v)) @ []) =
             map_option ((@) (json_tokens v)) (lex_run LTop [])"
    unfolding lexes_def by blast
  then show ?thesis by (simp add: json_stringify_def json_parse_tokens)
qed

end
