(* ===== verification/Donation.thy ===== *)
theory Donation
  imports Prelude
begin

text \<open>
  The view model of a donated item and the two fixed option lists of the donation form
  (\<open>src/src/types/donation.ts\<close>). The interface \<open>DonatedItem\<close> is a record; since
  several records of the development have a field \<open>id\<close> or \<open>name\<close>, each record's fields
  carry a short prefix (\<open>di_\<close> here) followed by the source's field name.
\<close>

record donated_item =
  di_id :: item_id
  di_itemName :: string
  di_description :: string
  di_category :: string
  di_condition :: string
  di_location :: string
  di_contactEmail :: string
  di_imageBase64 :: string
  di_createdAt :: string

definition CATEGORIES :: "string list" where
  "CATEGORIES = [''Electronics'', ''Furniture'', ''Clothing'', ''Books'', ''Kitchen'',
                 ''Sports'', ''Toys'', ''Other'']"

definition CONDITIONS :: "string list" where
  "CONDITIONS = [''Like New'', ''Good'', ''Fair'', ''Needs Repair'']"

lemma CATEGORIES_distinct: "distinct CATEGORIES" and CATEGORIES_length: "length CATEGORIES = 8"
  by (simp_all add: CATEGORIES_def)

lemma CONDITIONS_distinct: "distinct CONDITIONS" and CONDITIONS_length: "length CONDITIONS = 4"
  by (simp_all add: CONDITIONS_def)

lemma CATEGORIES_not_empty_string: "[] \<notin> set CATEGORIES"
  and CONDITIONS_not_empty_string: "[] \<notin> set CONDITIONS"
  by (simp_all add: CATEGORIES_def CONDITIONS_def)

end
