(* ===== verification/Base64.thy ===== *)
theory Base64
  imports Prelude "HOL-Library.Word"
begin

text \<open>
  The browser's \<open>FileReader.readAsDataURL\<close>, which \<open>fileToBase64\<close>
  (\<open>src/src/lib/storage.ts\<close>) wraps and the donation form uses to inline the photo:
  files as byte lists (\<open>8 word list\<close>), the Base64 encoding of RFC 4648 written with
  the shifts and masks an encoder uses, a decoder, and the data URL built from the MIME type
  and the encoding. Modelled from the specifications, not from repository code. Shown: the
  decoder inverts the encoder (\<open>b64_decode_encode\<close>), the data URL carries the file's
  bytes and type back (\<open>parse_readAsDataURL\<close>), and the encoded length is
  \<open>4 * ceil(n / 3)\<close>.
\<close>

unbundle bit_operations_syntax

section \<open>Base64\<close>

definition b64_alphabet :: string where
  "b64_alphabet = ''ABCDEFGHIJKLMNOPQRSTUVWXYZabcdefghijklmnopqrstuvwxyz0123456789+/''"

definition b64_char :: "8 word \<Rightarrow> char" where
  "b64_char w = b64_alphabet ! unat w"

fun index_of :: "char \<Rightarrow> string \<Rightarrow> nat \<Rightarrow> nat option" where
  "index_of c [] n = None"
| "index_of c (x # xs) n = (if x = c then Some n else index_of c xs (Suc n))"

definition b64_index :: "char \<Rightarrow> 8 word option" where
  "b64_index c = map_option of_nat (index_of c b64_alphabet 0)"

text \<open>The four 6-bit groups of three input bytes and the three bytes they decode to.\<close>

definition sextet1 :: "8 word \<Rightarrow> 8 word" where "sextet1 a = drop_bit 2 a"
definition sextet2 :: "8 word \<Rightarrow> 8 word \<Rightarrow> 8 word" where "sextet2 a b = push_bit 4 (a AND 3) OR drop_bit 4 b"
definition sextet3 :: "8 word \<Rightarrow> 8 word \<Rightarrow> 8 word" where "sextet3 b c = push_bit 2 (b AND 15) OR drop_bit 6 c"
definition sextet4 :: "8 word \<Rightarrow> 8 word" where "sextet4 c = c AND 63"

definition octet1 :: "8 word \<Rightarrow> 8 word \<Rightarrow> 8 word" where "octet1 v1 v2 = push_bit 2 v1 OR drop_bit 4 v2"
definition octet2 :: "8 word \<Rightarrow> 8 word \<Rightarrow> 8 word" where "octet2 v2 v3 = push_bit 4 v2 OR drop_bit 2 v3"
definition octet3 :: "8 word \<Rightarrow> 8 word \<Rightarrow> 8 word" where "octet3 v3 v4 = push_bit 6 v3 OR v4"

fun b64_encode :: "8 word list \<Rightarrow> string" where
  "b64_encode (a # b # c # rest) =
     [b64_char (sextet1 a), b64_char (sextet2 a b), b64_char (sextet3 b c), b64_char (sextet4 c)] @
     b64_encode rest"
| "b64_encode [a, b] = [b64_char (sextet1 a), b64_char (sextet2 a b), b64_char (sextet3 b 0), CHR ''='']"
| "b64_encode [a] = [b64_char (sextet1 a), b64_char (sextet2 a 0), CHR ''='', CHR ''='']"
| "b64_encode [] = []"

fun b64_decode :: "string \<Rightarrow> 8 word list option" where
  "b64_decode [] = Some []"
| "b64_decode (c1 # c2 # c3 # c4 # rest) =
     (case (b64_index c1, b64_index c2) of
        (Some v1, Some v2) \<Rightarrow>
          (let b1 = octet1 v1 v2 in
           if c3 = CHR ''='' \<and> c4 = CHR ''='' \<and> rest = [] then Some [b1]
           else
             (case b64_index c3 of
                None \<Rightarrow> None
              | Some v3 \<Rightarrow>
                  (let b2 = octet2 v2 v3 in
                   if c4 = CHR ''='' \<and> rest = [] then Some [b1, b2]
                   else
                     (case b64_index c4 of
                        None \<Rightarrow> None
                      | Some v4 \<Rightarrow> map_option (\<lambda>r. [b1, b2, octet3 v3 v4] @ r) (b64_decode rest)))))
      | _ \<Rightarrow> None)"
| "b64_decode _ = None"

section \<open>Files and \<open>FileReader.readAsDataURL\<close>\<close>

text \<open>A \<open>File\<close>: its name, its MIME type (empty when unknown) and its bytes; \<open>size\<close>
  is the number of bytes.\<close>

record file_info =
  f_name :: string
  f_type :: string
  f_bytes :: "8 word list"

text \<open>Whether the read completes (\<open>onload\<close>) or fails (\<open>onerror\<close>).\<close>

datatype read_outcome = Loaded | ReadError

definition f_size :: "file_info \<Rightarrow> nat" where
  "f_size f = length (f_bytes f)"

definition readAsDataURL :: "file_info \<Rightarrow> string" where
  "readAsDataURL f =
     ''data:'' @ (if f_type f = [] then ''application/octet-stream'' else f_type f) @ '';base64,'' @
     b64_encode (f_bytes f)"

definition parse_data_url :: "string \<Rightarrow> (string \<times> 8 word list) option" where
  "parse_data_url s =
     (if take 5 s = ''data:'' then
        (let rest = drop 5 s; mime = takeWhile (\<lambda>c. c \<noteq> CHR '';'') rest;
             tail = dropWhile (\<lambda>c. c \<noteq> CHR '';'') rest in
         if take 8 tail = '';base64,'' then map_option (\<lambda>bs. (mime, bs)) (b64_decode (drop 8 tail))
         else None)
      else None)"

lemma byte_eqI:
  assumes "\<And>n. n \<in> {0, 1, 2, 3, 4, 5, 6, 7} \<Longrightarrow> bit a n = bit b n"
  shows "(a :: 8 word) = b"
proof (rule bit_word_eqI)
  fix n :: nat
  assume "n < LENGTH(8)"
  then have "n \<in> {0, 1, 2, 3, 4, 5, 6, 7}" by auto
  then show "bit a n = bit b n" by (rule assms)
qed

lemma octets:
  "octet1 (sextet1 a) (sextet2 a b) = a"
  "octet2 (sextet2 a b) (sextet3 b c) = b"
  "octet3 (sextet3 b c) (sextet4 c) = c"
  unfolding octet1_def octet2_def octet3_def sextet1_def sextet2_def sextet3_def sextet4_def
  by (rule byte_eqI, auto simp: bit_simps numeral_2_eq_2 [symmetric] dest: bit_imp_le_length)+

lemma sextet_bound:
  assumes "w AND mask 6 = (w :: 8 word)"
  shows "unat w < 64"
proof -
  have "w AND mask 6 < 2 ^ 6" by (rule and_mask_less_size) (simp add: word_size)
  then have "w < 64" using assms by simp
  then show ?thesis by (simp add: word_less_nat_alt)
qed

lemma sextets:
  "sextet1 a AND mask 6 = sextet1 a"
  "sextet2 a b AND mask 6 = sextet2 a b"
  "sextet3 b c AND mask 6 = sextet3 b c"
  "sextet4 c AND mask 6 = sextet4 c"
  unfolding sextet1_def sextet2_def sextet3_def sextet4_def
  by (rule byte_eqI, auto simp: bit_simps dest: bit_imp_le_length)+

lemmas sextet_bounds = sextets [THEN sextet_bound]

lemma b64_alphabet_distinct: "distinct b64_alphabet" and b64_alphabet_length: "length b64_alphabet = 64"
  by (simp_all add: b64_alphabet_def)

lemma index_of_nth:
  "distinct xs \<Longrightarrow> k < length xs \<Longrightarrow> index_of (xs ! k) xs n = Some (n + k)"
proof (induction xs arbitrary: k n)
  case Nil
  then show ?case by simp
next
  case (Cons x xs)
  then show ?case by (cases k) (auto simp: nth_mem)
qed

lemma b64_index_char: "unat w < 64 \<Longrightarrow> b64_index (b64_char w) = Some w"
  by (simp add: b64_index_def b64_char_def index_of_nth b64_alphabet_distinct b64_alphabet_length)

lemma b64_char_not_pad: "unat w < 64 \<Longrightarrow> b64_char w \<noteq> CHR ''=''"
proof
  assume "unat w < 64" "b64_char w = CHR ''=''"
  then have "CHR ''='' \<in> set b64_alphabet"
    by (metis b64_char_def b64_alphabet_length nth_mem)
  then show False by (simp add: b64_alphabet_def)
qed

lemma b64_pad_index: "b64_index CHR ''='' = None"
  by (simp add: b64_index_def b64_alphabet_def)

theorem b64_decode_encode: "b64_decode (b64_encode bs) = Some bs"
  by (induction bs rule: b64_encode.induct)
     (simp_all add: b64_index_char sextet_bounds b64_char_not_pad b64_pad_index octets Let_def)


theorem b64_encode_length: "length (b64_encode bs) = 4 * ((length bs + 2) div 3)"
  by (induction bs rule: b64_encode.induct) (simp_all, arith)

theorem parse_readAsDataURL:
  "CHR '';'' \<notin> set (f_type f) \<Longrightarrow>
   parse_data_url (readAsDataURL f) =
     Some (if f_type f = [] then ''application/octet-stream'' else f_type f, f_bytes f)"
  by (simp add: parse_data_url_def readAsDataURL_def takeWhile_append dropWhile_append b64_decode_encode)

end
