(* ===== verification/Storage.thy ===== *)
theory Storage
  imports Json Donation Base64 "HOL-Library.AList"
begin

text \<open>
  Browser local storage and the persistence helpers of \<open>src/src/lib/storage.ts\<close>.
  Local storage is not code of this repository; it is modelled from the Web Storage
  specification as an association list of string keys and values with a size quota:
  \<open>setItem\<close> throws \<open>QuotaExceededError\<close> when the stored strings would exceed it.
  The JavaScript operations the helpers apply to parsed values (property reads,
  \<open>includes\<close>) are written out with the \<open>TypeError\<close> they throw on values of the
  wrong kind, since a parsed value can be anything the stored string encodes.
\<close>

section \<open>Local storage and JavaScript value operations\<close>

datatype js_error = TypeError | QuotaExceededError

record web_storage =
  ls_items :: "(string \<times> string) list"
  ls_quota :: nat

definition ls_size :: "(string \<times> string) list \<Rightarrow> nat" where
  "ls_size xs = sum_list (map (\<lambda>(k, v). length k + length v) xs)"

definition getItem :: "string \<Rightarrow> web_storage \<Rightarrow> string option" where
  "getItem k st = map_of (ls_items st) k"

definition setItem :: "string \<Rightarrow> string \<Rightarrow> web_storage \<Rightarrow> js_error + web_storage" where
  "setItem k v st =
     (let xs = AList.update k v (ls_items st)
      in if ls_quota st < ls_size xs then Inl QuotaExceededError else Inr (st\<lparr>ls_items := xs\<rparr>))"

text \<open>\<open>v.k\<close>: reading a property of \<open>null\<close> throws; of an object, the last member with
  that key wins, as in \<open>JSON.parse\<close>; other values have no own data properties here.\<close>

definition js_get_field :: "json \<Rightarrow> string \<Rightarrow> js_error + json option" where
  "js_get_field v k =
     (case v of JNull \<Rightarrow> Inl TypeError | JObj kvs \<Rightarrow> Inr (map_of (rev kvs) k) | _ \<Rightarrow> Inr None)"

definition str_includes :: "string \<Rightarrow> string \<Rightarrow> bool" where
  "str_includes s t \<longleftrightarrow> list_ex (\<lambda>i. take (length t) (drop i s) = t) [0..<Suc (length s)]"

text \<open>\<open>v.includes(x)\<close> for a string \<open>x\<close>: membership for arrays, substring search for
  strings, a \<open>TypeError\<close> (no such method, or a read of \<open>null\<close>) otherwise.\<close>

definition js_includes :: "json \<Rightarrow> string \<Rightarrow> js_error + bool" where
  "js_includes v x =
     (case v of JArr xs \<Rightarrow> Inr (JStr x \<in> set xs) | JStr s \<Rightarrow> Inr (str_includes s x) | _ \<Rightarrow> Inl TypeError)"

section \<open>\<open>storage.ts\<close>\<close>

definition STORAGE_KEY :: string where
  "STORAGE_KEY = ''donatedItems''"

text \<open>The object \<open>JSON.stringify\<close> writes for a \<open>DonatedItem\<close>, fields in declaration order.\<close>

definition donated_item_json :: "donated_item \<Rightarrow> json" where
  "donated_item_json i = JObj
     [(''id'', JStr (di_id i)), (''itemName'', JStr (di_itemName i)),
      (''description'', JStr (di_description i)), (''category'', JStr (di_category i)),
      (''condition'', JStr (di_condition i)), (''location'', JStr (di_location i)),
      (''contactEmail'', JStr (di_contactEmail i)), (''imageBase64'', JStr (di_imageBase64 i)),
      (''createdAt'', JStr (di_createdAt i))]"

text \<open>
  \<open>getDonatedItems\<close>: a missing or empty entry and a parse error give \<open>[]\<close>; otherwise
  whatever the entry parses to (the declared return type is not checked).
\<close>

definition getDonatedItems :: "web_storage \<Rightarrow> json" where
  "getDonatedItems st =
     (case getItem STORAGE_KEY st of
        None \<Rightarrow> JArr []
      | Some s \<Rightarrow> if s = [] then JArr [] else (case json_parse s of Inl e \<Rightarrow> JArr [] | Inr v \<Rightarrow> v))"

text \<open>
  \<open>saveDonatedItem\<close>: \<open>unshift\<close> on a non-array and a full storage both end in the
  \<open>catch\<close>, which throws \<open>Failed to save donation\<close>; that error is \<open>Inl ()\<close>.
\<close>

definition saveDonatedItem :: "donated_item \<Rightarrow> web_storage \<Rightarrow> unit + web_storage" where
  "saveDonatedItem item st =
     (case getDonatedItems st of
        JArr xs \<Rightarrow>
          (case setItem STORAGE_KEY (json_stringify (JArr (donated_item_json item # xs))) st of
             Inl e \<Rightarrow> Inl ()
           | Inr st' \<Rightarrow> Inr st')
      | _ \<Rightarrow> Inl ())"

text \<open>\<open>items.filter(item => item.id !== itemId)\<close> over the parsed array.\<close>

definition filter_by_id :: "item_id \<Rightarrow> json list \<Rightarrow> js_error + json list" where
  "filter_by_id x xs =
     js_filter (\<lambda>v. case js_get_field v ''id'' of Inl e \<Rightarrow> Inl e | Inr f \<Rightarrow> Inr (f \<noteq> Some (JStr x))) xs"

text \<open>\<open>deleteDonatedItem\<close>: every error in the \<open>try\<close> block gives \<open>false\<close> and leaves
  the storage as it was.\<close>

definition deleteDonatedItem :: "item_id \<Rightarrow> web_storage \<Rightarrow> bool \<times> web_storage" where
  "deleteDonatedItem x st =
     (case getDonatedItems st of
        JArr xs \<Rightarrow>
          (case filter_by_id x xs of
             Inl e \<Rightarrow> (False, st)
           | Inr ys \<Rightarrow>
               (case setItem STORAGE_KEY (json_stringify (JArr ys)) st of
                  Inl e \<Rightarrow> (False, st)
                | Inr st' \<Rightarrow> (True, st')))
      | _ \<Rightarrow> (False, st))"

text \<open>\<open>generateId\<close>: the clock in milliseconds, a dash, and nine characters of the
  base-36 rendering of a random number after its leading \<open>0.\<close>.\<close>

definition generateId :: "nat \<Rightarrow> string \<Rightarrow> string" where
  "generateId now rand36 = nat_str now @ ''-'' @ take 9 (drop 2 rand36)"

text \<open>\<open>fileToBase64\<close>: the promise resolves with the reader's data URL, or rejects
  with the reader's error.\<close>

definition fileToBase64 :: "read_outcome \<Rightarrow> file_info \<Rightarrow> unit + string" where
  "fileToBase64 r file = (case r of Loaded \<Rightarrow> Inr (readAsDataURL file) | ReadError \<Rightarrow> Inl ())"

section \<open>Examples\<close>

definition example_item :: donated_item where
  "example_item = \<lparr>di_id = ''a1'', di_itemName = ''Desk'', di_description = ''Oak'',
     di_category = ''Furniture'', di_condition = ''Good'', di_location = ''Downtown'',
     di_contactEmail = ''a@b.co'', di_imageBase64 = ''data:'', di_createdAt = ''1''\<rparr>"

definition example_storage :: web_storage where
  "example_storage = \<lparr>ls_items = [], ls_quota = 5242880\<rparr>"

section \<open>Lemmas\<close>

lemma getItem_setItem:
  "setItem k v st = Inr st' \<Longrightarrow> getItem k' st' = (if k' = k then Some v else getItem k' st)"
  by (auto simp: setItem_def getItem_def update_conv' Let_def split: if_splits)

lemma setItem_Inr_iff:
  "(\<exists>st'. setItem k v st = Inr st') \<longleftrightarrow> ls_size (AList.update k v (ls_items st)) \<le> ls_quota st"
  by (simp add: setItem_def Let_def)

lemma json_stringify_not_Nil [simp]: "json_stringify v \<noteq> []"
proof -
  obtain t ts where "json_tokens v = t # ts" using json_tokens_Cons by blast
  moreover have "render_tok t \<noteq> []" by (cases t) (simp_all add: json_quote_def int_str_def)
  ultimately show ?thesis by (simp add: json_stringify_def)
qed

lemma getDonatedItems_stored:
  "getItem STORAGE_KEY st = Some (json_stringify v) \<Longrightarrow> getDonatedItems st = v"
  by (simp add: getDonatedItems_def json_parse_stringify)

text \<open>
  Claim C27: saving a donated item when the stored list parses to an array and the write
  succeeds puts the item's object in front of the stored ones: reading the list back
  gives the new item first, then the old items in their order.
\<close>

theorem saveDonatedItem_get:
  assumes "getDonatedItems st = JArr xs" and "saveDonatedItem item st = Inr st'"
  shows "getDonatedItems st' = JArr (donated_item_json item # xs)"
proof -
  from assms have "setItem STORAGE_KEY (json_stringify (JArr (donated_item_json item # xs))) st = Inr st'"
    by (simp add: saveDonatedItem_def split: sum.splits)
  then have "getItem STORAGE_KEY st' = Some (json_stringify (JArr (donated_item_json item # xs)))"
    by (simp add: getItem_setItem)
  then show ?thesis by (rule getDonatedItems_stored)
qed

theorem saveDonatedItem_get_witness:
  "getDonatedItems example_storage = JArr [] \<and>
   (\<exists>st'. saveDonatedItem example_item example_storage = Inr st' \<and>
          getDonatedItems st' = JArr [donated_item_json example_item])"
proof -
  have g: "getDonatedItems example_storage = JArr []"
    by (simp add: getDonatedItems_def getItem_def example_storage_def)
  have s: "saveDonatedItem example_item example_storage =
     Inr (example_storage\<lparr>ls_items := [(STORAGE_KEY, json_stringify (JArr [donated_item_json example_item]))]\<rparr>)"
    using g by (simp add: saveDonatedItem_def setItem_def ls_size_def example_storage_def json_stringify_def
        json_quote_def json_escape_def donated_item_json_def example_item_def STORAGE_KEY_def)
  from saveDonatedItem_get [OF g s] g s show ?thesis by blast
qed

lemma filter_by_id_items:
  "filter_by_id x (map donated_item_json items) = Inr (map donated_item_json (filter (\<lambda>i. di_id i \<noteq> x) items))"
  unfolding filter_by_id_def
  by (induction items) (auto simp: js_get_field_def donated_item_json_def)

text \<open>
  Claim C28: deleting by id from a stored list of item objects either succeeds, and the
  stored list then holds exactly the items with another id in their order, or fails and
  leaves the storage unchanged.
\<close>

theorem deleteDonatedItem_items:
  assumes "getDonatedItems st = JArr (map donated_item_json items)"
    and "deleteDonatedItem x st = (ok, st')"
  shows "(ok \<longrightarrow> getDonatedItems st' = JArr (map donated_item_json (filter (\<lambda>i. di_id i \<noteq> x) items))) \<and>
         (\<not> ok \<longrightarrow> st' = st)"
proof -
  let ?v = "json_stringify (JArr (map donated_item_json (filter (\<lambda>i. di_id i \<noteq> x) items)))"
  from assms have d: "deleteDonatedItem x st = (case setItem STORAGE_KEY ?v st of Inl e \<Rightarrow> (False, st) | Inr st' \<Rightarrow> (True, st'))"
    by (simp add: deleteDonatedItem_def filter_by_id_items)
  show ?thesis
  proof (cases "setItem STORAGE_KEY ?v st")
    case (Inl e)
    with d assms(2) show ?thesis by simp
  next
    case (Inr st'')
    with d assms(2) have "ok" "st' = st''" by simp_all
    with Inr show ?thesis
      by (simp add: getItem_setItem getDonatedItems_stored)
  qed
qed

theorem deleteDonatedItem_items_witness:
  "getDonatedItems (example_storage\<lparr>ls_items := [(STORAGE_KEY, json_stringify (JArr [donated_item_json example_item]))]\<rparr>) =
     JArr (map donated_item_json [example_item]) \<and>
   (\<exists>ok st'. deleteDonatedItem ''a1'' (example_storage\<lparr>ls_items := [(STORAGE_KEY, json_stringify (JArr [donated_item_json example_item]))]\<rparr>) = (ok, st') \<and>
      (ok \<longrightarrow> getDonatedItems st' = JArr []))"
proof -
  let ?st = "example_storage\<lparr>ls_items := [(STORAGE_KEY, json_stringify (JArr [donated_item_json example_item]))]\<rparr>"
  have g: "getDonatedItems ?st = JArr (map donated_item_json [example_item])"
    by (simp add: getDonatedItems_stored getItem_def)
  obtain ok st' where d: "deleteDonatedItem ''a1'' ?st = (ok, st')" by fastforce
  from deleteDonatedItem_items [OF g d] have "ok \<longrightarrow> getDonatedItems st' = JArr []"
    by (simp add: example_item_def)
  with g d show ?thesis by blast
qed


text \<open>
  Claim C25. \<open>fileToBase64\<close> rejects when the reader fails; when it resolves, the data
  URL it yields carries the file's MIME type (or \<open>application/octet-stream\<close>) and
  decodes back to exactly the file's bytes.
\<close>

theorem fileToBase64_roundtrip:
  "fileToBase64 ReadError f = Inl () \<and>
   (CHR '';'' \<notin> set (f_type f) \<longrightarrow>
      (\<exists>url. fileToBase64 Loaded f = Inr url \<and>
         parse_data_url url = Some (if f_type f = [] then ''application/octet-stream'' else f_type f, f_bytes f)))"
  by (simp add: fileToBase64_def parse_readAsDataURL)

theorem fileToBase64_roundtrip_witness:
  "CHR '';'' \<notin> set ''image/png'' \<and>
   (\<exists>url. fileToBase64 Loaded \<lparr>f_name = ''a.png'', f_type = ''image/png'', f_bytes = [1, 2, 3, 4]\<rparr> = Inr url \<and>
      parse_data_url url = Some (''image/png'', [1, 2, 3, 4]))"
  using fileToBase64_roundtrip [of "\<lparr>f_name = ''a.png'', f_type = ''image/png'', f_bytes = [1, 2, 3, 4]\<rparr>"]
  by simp

lemma nat_str_no_dash: "CHR ''-'' \<notin> set (nat_str n)"
proof (induction n rule: nat_str.induct)
  case (1 n)
  have d: "digit_char k \<noteq> CHR ''-''" if "k < 10" for k
  proof
    assume "digit_char k = CHR ''-''"
    then have "(of_char (digit_char k) :: nat) = 45" by simp
    moreover have "(of_char (digit_char k) :: nat) = 48 + k"
      using that by (simp add: digit_char_def take_bit_nat_eq_self)
    ultimately show False by simp
  qed
  show ?case
    using 1 d [of n] d [of "n mod 10"] by (subst nat_str.simps) auto
qed

lemma generateId_time: "str_nat (takeWhile (\<lambda>c. c \<noteq> CHR ''-'') (generateId now r)) = now"
  using nat_str_no_dash [of now] by (simp add: generateId_def takeWhile_append)

text \<open>
  Claim C26. Ids made by \<open>generateId\<close> in different milliseconds differ, whatever the
  random part: the decimal clock before the first dash is recovered from the id.
\<close>

theorem generateId_distinct: "now1 \<noteq> now2 \<Longrightarrow> generateId now1 r1 \<noteq> generateId now2 r2"
  by (metis generateId_time)

theorem generateId_distinct_witness:
  "(1700000000000 :: nat) \<noteq> 1700000000001 \<and>
   generateId 1700000000000 ''0.abcdefghij'' \<noteq> generateId 1700000000001 ''0.abcdefghij''"
  using generateId_distinct [of 1700000000000 1700000000001 "''0.abcdefghij''" "''0.abcdefghij''"] by simp

end
