(* ===== verification/Grid.thy ===== *)
theory Grid
  imports Database Storage
begin

text \<open>
  The item grid (\<open>src/src/components/ItemGrid.tsx\<close>): its React state as a record, the
  static placeholder seed, the two local-storage helpers of the claimed-placeholder list,
  and one function per handler. A handler takes the state and returns the state after the
  updates it schedules; handlers that call the backend or local storage take and return
  those too, and a handler that can throw returns \<open>js_error + _\<close>. The callbacks
  given to \<open>subscribeToItemChanges\<close> are \<open>grid_onInsert\<close> and \<open>grid_onDelete\<close>;
  \<open>apply_change\<close> is what one notification does to the list of rows. The lemmas say what
  each handler leaves unchanged (collection \<open>frame_simps\<close>), that the notifications of
  every committed save or delete turn the old select into the new one (\<open>save_commit\<close>,
  \<open>delete_commit\<close>, \<open>resume_commit\<close>), how the claimed-placeholder list evolves, and
  which card sits at which index of the rendered grid.
\<close>

section \<open>Data\<close>

record placeholder_item =
  ph_id :: item_id
  ph_name :: string
  ph_category :: string
  ph_condition :: string
  ph_location :: string
  ph_imageUrl :: string

definition INITIAL_PLACEHOLDER_ITEMS :: "placeholder_item list" where
  "INITIAL_PLACEHOLDER_ITEMS = [
    \<lparr>ph_id = ''ph-1'', ph_name = ''Vintage Desk Lamp'', ph_category = ''Furniture'',
     ph_condition = ''Good'', ph_location = ''Downtown'',
     ph_imageUrl = ''https://images.unsplash.com/photo-1507473885765-e6ed057f782c?w=600&h=400&fit=crop''\<rparr>,
    \<lparr>ph_id = ''ph-2'', ph_name = ''Children's Books Set'', ph_category = ''Books'',
     ph_condition = ''Like New'', ph_location = ''East Side'',
     ph_imageUrl = ''https://images.unsplash.com/photo-1512820790803-83ca734da794?w=600&h=400&fit=crop''\<rparr>,
    \<lparr>ph_id = ''ph-3'', ph_name = ''Kitchen Mixer'', ph_category = ''Kitchen'',
     ph_condition = ''Fair'', ph_location = ''Suburb Area'',
     ph_imageUrl = ''https://images.unsplash.com/photo-1594385208974-2e75f8d7bb48?w=600&h=400&fit=crop''\<rparr>,
    \<lparr>ph_id = ''ph-4'', ph_name = ''Yoga Mat'', ph_category = ''Sports'',
     ph_condition = ''Good'', ph_location = ''North District'',
     ph_imageUrl = ''https://images.unsplash.com/photo-1601925260368-ae2f83cf8b7f?w=600&h=400&fit=crop''\<rparr>,
    \<lparr>ph_id = ''ph-5'', ph_name = ''Winter Jacket'', ph_category = ''Clothing'',
     ph_condition = ''Like New'', ph_location = ''Central'',
     ph_imageUrl = ''https://images.unsplash.com/photo-1551028719-00167b16eac5?w=600&h=400&fit=crop''\<rparr>,
    \<lparr>ph_id = ''ph-6'', ph_name = ''Board Games Bundle'', ph_category = ''Toys'',
     ph_condition = ''Good'', ph_location = ''West End'',
     ph_imageUrl = ''https://images.unsplash.com/photo-1611371805429-8b5c1b2c34ba?w=600&h=400&fit=crop''\<rparr>]"

definition CLAIMED_PLACEHOLDERS_KEY :: string where
  "CLAIMED_PLACEHOLDERS_KEY = ''heartshare_claimed_placeholders''"

text \<open>\<open>getClaimedPlaceholderIds\<close>: a missing or empty entry and a parse error give \<open>[]\<close>.\<close>

definition getClaimedPlaceholderIds :: "web_storage \<Rightarrow> json" where
  "getClaimedPlaceholderIds st =
     (case getItem CLAIMED_PLACEHOLDERS_KEY st of
        None \<Rightarrow> JArr []
      | Some s \<Rightarrow> if s = [] then JArr [] else (case json_parse s of Inl e \<Rightarrow> JArr [] | Inr v \<Rightarrow> v))"

text \<open>
  \<open>addClaimedPlaceholderId\<close>: \<open>includes\<close> on a value that is neither an array nor a
  string, \<open>push\<close> on a string and a full storage throw; nothing catches them.
\<close>

definition addClaimedPlaceholderId :: "item_id \<Rightarrow> web_storage \<Rightarrow> js_error + web_storage" where
  "addClaimedPlaceholderId x st =
     (let claimed = getClaimedPlaceholderIds st in
      case js_includes claimed x of
        Inl e \<Rightarrow> Inl e
      | Inr True \<Rightarrow> Inr st
      | Inr False \<Rightarrow>
          (case claimed of
             JArr xs \<Rightarrow> setItem CLAIMED_PLACEHOLDERS_KEY (json_stringify (JArr (xs @ [JStr x]))) st
           | _ \<Rightarrow> Inl TypeError))"

section \<open>State\<close>

datatype claim_type = Donated | Placeholder

record claim_target =
  ct_type :: claim_type
  ct_id :: item_id
  ct_name :: string
  ct_email :: string

record grid_state =
  donatedItems :: "db_row list"
  placeholderItems :: "placeholder_item list"
  isLoading :: bool
  confirmOpen :: bool
  successOpen :: bool
  claimTarget :: "claim_target option"

text \<open>
  The \<open>useState\<close> initialisers run at mount. The placeholder initialiser filters the seed
  with \<open>includes\<close> on the stored value, which throws when that value is neither an array
  nor a string; the component then fails to mount.
\<close>

definition grid_init :: "web_storage \<Rightarrow> js_error + grid_state" where
  "grid_init st =
     (let claimedIds = getClaimedPlaceholderIds st in
      case js_filter (\<lambda>item. map_sum id Not (js_includes claimedIds (ph_id item))) INITIAL_PLACEHOLDER_ITEMS of
        Inl e \<Rightarrow> Inl e
      | Inr phs \<Rightarrow> Inr \<lparr>donatedItems = [], placeholderItems = phs, isLoading = True,
                       confirmOpen = False, successOpen = False, claimTarget = None\<rparr>)"

section \<open>Handlers\<close>

text \<open>The continuation of \<open>fetchItems\<close> after \<open>getDonatedItemsFromDB\<close> resolves.\<close>

definition grid_fetchDone :: "db_row list \<Rightarrow> grid_state \<Rightarrow> grid_state" where
  "grid_fetchDone items s = s\<lparr>donatedItems := items, isLoading := False\<rparr>"

text \<open>The two callbacks given to \<open>subscribeToItemChanges\<close>.\<close>

definition grid_onInsert :: "db_row \<Rightarrow> grid_state \<Rightarrow> grid_state" where
  "grid_onInsert newItem s = s\<lparr>donatedItems := newItem # donatedItems s\<rparr>"

definition grid_onDelete :: "item_id \<Rightarrow> grid_state \<Rightarrow> grid_state" where
  "grid_onDelete deletedId s = s\<lparr>donatedItems := filter (\<lambda>item. row_id item \<noteq> deletedId) (donatedItems s)\<rparr>"

definition grid_onChange :: "change \<Rightarrow> grid_state \<Rightarrow> grid_state" where
  "grid_onChange = dispatch_change grid_onInsert grid_onDelete"

text \<open>What one notification does to the list of donated rows, and a queue of them.\<close>

fun apply_change :: "change \<Rightarrow> db_row list \<Rightarrow> db_row list" where
  "apply_change (ChInsert r) xs = r # xs"
| "apply_change (ChDelete x) xs = filter (\<lambda>item. row_id item \<noteq> x) xs"

definition apply_changes :: "change list \<Rightarrow> db_row list \<Rightarrow> db_row list" where
  "apply_changes cs xs = fold apply_change cs xs"

definition handleClaimAttempt ::
  "claim_type \<Rightarrow> item_id \<Rightarrow> string \<Rightarrow> string \<Rightarrow> grid_state \<Rightarrow> grid_state" where
  "handleClaimAttempt ty x name email s =
     s\<lparr>claimTarget := Some \<lparr>ct_type = ty, ct_id = x, ct_name = name, ct_email = email\<rparr>,
       confirmOpen := True\<rparr>"

text \<open>
  \<open>handleConfirmClaim\<close> is asynchronous. Up to its \<open>await\<close>, it is
  \<open>handleConfirmClaim\<close> below: with no target it returns; for a placeholder it records
  the id in local storage (if that throws, the rest of the handler does not run), drops
  the card and switches the dialogs; for a donated item it issues the delete and
  suspends, returning the target of the request in flight. The continuation after the
  delete resolves is \<open>handleConfirmClaim_resume\<close>: it ignores the result of the delete
  (the grid waits for the realtime notification to remove the card) and switches the
  dialogs. The target is the one captured when the handler started.
\<close>

definition handleConfirmClaim ::
  "grid_state \<Rightarrow> web_storage \<Rightarrow> js_error + grid_state \<times> web_storage \<times> claim_target option" where
  "handleConfirmClaim s st =
     (case claimTarget s of
        None \<Rightarrow> Inr (s, st, None)
      | Some t \<Rightarrow>
          if ct_type t = Donated then Inr (s, st, Some t)
          else
            (case addClaimedPlaceholderId (ct_id t) st of
               Inl e \<Rightarrow> Inl e
             | Inr st' \<Rightarrow>
                 Inr (s\<lparr>placeholderItems := filter (\<lambda>item. ph_id item \<noteq> ct_id t) (placeholderItems s),
                        confirmOpen := False, successOpen := True\<rparr>, st', None)))"

definition handleConfirmClaim_resume ::
  "net \<Rightarrow> claim_target \<Rightarrow> db_state \<Rightarrow> (grid_state \<Rightarrow> grid_state) \<times> db_state \<times> change list" where
  "handleConfirmClaim_resume n t db =
     (case deleteDonatedItemFromDB n (ct_id t) db of
        (success, db', cs) \<Rightarrow> (\<lambda>s. s\<lparr>confirmOpen := False, successOpen := True\<rparr>, db', cs))"

definition handleSuccessClose :: "grid_state \<Rightarrow> grid_state" where
  "handleSuccessClose s = s\<lparr>successOpen := False, claimTarget := None\<rparr>"

text \<open>\<open>onOpenChange\<close> of the confirmation dialog is \<open>setConfirmOpen\<close>: its Cancel button
  closes the dialog and keeps the claim target.\<close>

definition setConfirmOpen :: "bool \<Rightarrow> grid_state \<Rightarrow> grid_state" where
  "setConfirmOpen b s = s\<lparr>confirmOpen := b\<rparr>"

section \<open>Rendering\<close>

text \<open>The \<open>DonatedItem\<close> view of a row that an \<open>ItemCard\<close> receives.\<close>

definition to_card_item :: "db_row \<Rightarrow> donated_item" where
  "to_card_item r = \<lparr>di_id = row_id r, di_itemName = row_name r,
     di_description = (case row_description r of None \<Rightarrow> [] | Some d \<Rightarrow> d),
     di_category = row_category r, di_condition = row_condition r, di_location = row_location r,
     di_contactEmail = row_contact_email r,
     di_imageBase64 = (case row_image_url r of None \<Rightarrow> [] | Some u \<Rightarrow> u),
     di_createdAt = row_created_at r\<rparr>"

datatype card = ItemCard donated_item bool | PlaceholderCard placeholder_item

text \<open>The cards of the grid, \<open>None\<close> while the spinner is shown; the first donated card is
  marked new.\<close>

definition grid_cards :: "grid_state \<Rightarrow> card list option" where
  "grid_cards s =
     (if isLoading s then None
      else Some (map (\<lambda>(i, r). ItemCard (to_card_item r) (i = 0)) (enumerate 0 (donatedItems s)) @
                 map PlaceholderCard (placeholderItems s)))"

definition PLACEHOLDER_EMAIL :: string where
  "PLACEHOLDER_EMAIL = ''donor@heartshare.example.com''"

text \<open>The \<open>onClaim\<close> of a card: the claim attempt it starts.\<close>

fun card_onClaim :: "card \<Rightarrow> grid_state \<Rightarrow> grid_state" where
  "card_onClaim (ItemCard m isNew) =
     handleClaimAttempt Donated (di_id m) (di_itemName m) (di_contactEmail m)"
| "card_onClaim (PlaceholderCard item) =
     handleClaimAttempt Placeholder (ph_id item) (ph_name item) PLACEHOLDER_EMAIL"

text \<open>What the two dialogs show: the item name asked about and the email revealed.\<close>

definition confirm_itemName :: "grid_state \<Rightarrow> string" where
  "confirm_itemName s = (case claimTarget s of None \<Rightarrow> [] | Some t \<Rightarrow> ct_name t)"

definition success_contactEmail :: "grid_state \<Rightarrow> string" where
  "success_contactEmail s = (case claimTarget s of None \<Rightarrow> [] | Some t \<Rightarrow> ct_email t)"

section \<open>Lemmas\<close>

lemma grid_onChange_items [simp]: "donatedItems (grid_onChange c g) = apply_change c (donatedItems g)"
  by (cases c) (simp_all add: grid_onChange_def grid_onInsert_def grid_onDelete_def)

lemma grid_onChange_frame [frame_simps]:
  "placeholderItems (grid_onChange c g) = placeholderItems g"
  "confirmOpen (grid_onChange c g) = confirmOpen g"
  "successOpen (grid_onChange c g) = successOpen g"
  "claimTarget (grid_onChange c g) = claimTarget g"
  "isLoading (grid_onChange c g) = isLoading g"
  by (cases c; simp add: grid_onChange_def grid_onInsert_def grid_onDelete_def)+

lemma apply_changes_Nil [simp]: "apply_changes [] xs = xs"
  and apply_changes_Cons [simp]: "apply_changes (c # cs) xs = apply_changes cs (apply_change c xs)"
  and apply_changes_append: "apply_changes (cs @ ds) xs = apply_changes ds (apply_changes cs xs)"
  by (simp_all add: apply_changes_def)

lemma handleClaimAttempt_frame [frame_simps]:
  "donatedItems (handleClaimAttempt ty x n e g) = donatedItems g"
  "placeholderItems (handleClaimAttempt ty x n e g) = placeholderItems g"
  "isLoading (handleClaimAttempt ty x n e g) = isLoading g"
  by (simp_all add: handleClaimAttempt_def)

lemma card_onClaim_frame [frame_simps]:
  "donatedItems (card_onClaim c g) = donatedItems g"
  "placeholderItems (card_onClaim c g) = placeholderItems g"
  "isLoading (card_onClaim c g) = isLoading g"
  "successOpen (card_onClaim c g) = successOpen g"
  by (cases c; simp add: frame_simps handleClaimAttempt_def)+

lemma card_onClaim_opens [simp]: "confirmOpen (card_onClaim c g)"
  by (cases c) (simp_all add: handleClaimAttempt_def)

lemma setConfirmOpen_frame [frame_simps]:
  "donatedItems (setConfirmOpen b g) = donatedItems g"
  "placeholderItems (setConfirmOpen b g) = placeholderItems g"
  "isLoading (setConfirmOpen b g) = isLoading g"
  "claimTarget (setConfirmOpen b g) = claimTarget g"
  "successOpen (setConfirmOpen b g) = successOpen g"
  by (simp_all add: setConfirmOpen_def)

lemma setConfirmOpen_value [simp]: "confirmOpen (setConfirmOpen b g) = b"
  by (simp add: setConfirmOpen_def)

lemma handleSuccessClose_frame [frame_simps]:
  "donatedItems (handleSuccessClose g) = donatedItems g"
  "placeholderItems (handleSuccessClose g) = placeholderItems g"
  "isLoading (handleSuccessClose g) = isLoading g"
  by (simp_all add: handleSuccessClose_def)

lemma handleConfirmClaim_items:
  "handleConfirmClaim g st = Inr (g', st', t) \<Longrightarrow> donatedItems g' = donatedItems g \<and> isLoading g' = isLoading g"
  by (auto simp: handleConfirmClaim_def split: option.splits if_splits sum.splits)

lemma handleConfirmClaim_resume_frame [frame_simps]:
  "donatedItems (fst (handleConfirmClaim_resume n t d) g) = donatedItems g"
  "placeholderItems (fst (handleConfirmClaim_resume n t d) g) = placeholderItems g"
  "isLoading (fst (handleConfirmClaim_resume n t d) g) = isLoading g"
  "claimTarget (fst (handleConfirmClaim_resume n t d) g) = claimTarget g"
  by (simp_all add: handleConfirmClaim_resume_def split: prod.splits)


text \<open>
  The notifications of every committed write turn the old ordered select into the new
  one: delivering them is exactly what keeps a subscriber's copy of the select current.
\<close>

lemma save_commit:
  assumes "db_wf d" and "saveDonatedItemToDB n i d = (res, d', cs)"
  shows "db_wf d' \<and> apply_changes cs (sb_select_desc d) = sb_select_desc d'"
proof (cases n)
  case NetOk
  with assms have "d' = snd (sb_insert i d)" "cs = [ChInsert (fst (sb_insert i d))]"
    by (simp_all add: saveDonatedItemToDB_NetOk sb_insert_def)
  with assms(1) show ?thesis by (simp add: sb_insert_wf sb_select_desc_insert)
next
  case (NetErr e)
  with assms show ?thesis by (simp add: saveDonatedItemToDB_def)
qed

lemma delete_commit:
  assumes wf: "db_wf d" and del: "deleteDonatedItemFromDB n x d = (ok, d', cs)"
  shows "db_wf d' \<and> apply_changes cs (sb_select_desc d) = sb_select_desc d'"
proof (cases n)
  case NetOk
  then have eqs: "d' = snd (sb_delete_eq x d)" "cs = delete_changes (fst (sb_delete_eq x d))"
    using del by (simp_all add: deleteDonatedItemFromDB_NetOk)
  have ids: "x \<in> row_id ` set (sb_select_desc d) \<longleftrightarrow> x \<in> (row_id \<circ> snd) ` set (tbl d)"
    by (simp add: sb_select_desc_wf [OF wf] image_comp)
  have "apply_changes cs (sb_select_desc d) = filter (\<lambda>r. row_id r \<noteq> x) (sb_select_desc d)"
    using ids by (auto simp: eqs delete_changes_wf [OF wf] filter_key_absent)
  with eqs wf show ?thesis by (simp add: sb_select_desc_delete sb_delete_eq_wf)
next
  case (NetErr e)
  with del wf show ?thesis by (simp add: deleteDonatedItemFromDB_NetErr)
qed

lemma getClaimedPlaceholderIds_stored:
  "setItem CLAIMED_PLACEHOLDERS_KEY (json_stringify v) st = Inr st' \<Longrightarrow> getClaimedPlaceholderIds st' = v"
  by (simp add: getClaimedPlaceholderIds_def getItem_setItem json_parse_stringify)

lemma setItem_other:
  "setItem k v st = Inr st' \<Longrightarrow> k' \<noteq> k \<Longrightarrow> getItem k' st' = getItem k' st"
  by (simp add: getItem_setItem)

lemma addClaimedPlaceholderId_array:
  assumes "getClaimedPlaceholderIds st = JArr xs"
  shows "addClaimedPlaceholderId x st =
     (if JStr x \<in> set xs then Inr st
      else setItem CLAIMED_PLACEHOLDERS_KEY (json_stringify (JArr (xs @ [JStr x]))) st)"
  using assms by (simp add: addClaimedPlaceholderId_def js_includes_def)

lemma addClaimedPlaceholderId_result:
  assumes "getClaimedPlaceholderIds st = JArr xs" and "addClaimedPlaceholderId x st = Inr st'"
  shows "getClaimedPlaceholderIds st' = (if JStr x \<in> set xs then JArr xs else JArr (xs @ [JStr x]))"
  using assms by (auto simp: addClaimedPlaceholderId_array getClaimedPlaceholderIds_stored split: if_splits)

lemma addClaimedPlaceholderId_error:
  "getClaimedPlaceholderIds st = JArr xs \<Longrightarrow> addClaimedPlaceholderId x st = Inl e \<Longrightarrow> e = QuotaExceededError"
  by (auto simp: addClaimedPlaceholderId_array setItem_def Let_def split: if_splits)

lemma grid_init_array:
  "getClaimedPlaceholderIds st = JArr xs \<Longrightarrow>
   grid_init st = Inr \<lparr>donatedItems = [], placeholderItems = filter (\<lambda>i. JStr (ph_id i) \<notin> set xs) INITIAL_PLACEHOLDER_ITEMS,
      isLoading = True, confirmOpen = False, successOpen = False, claimTarget = None\<rparr>"
  by (simp add: grid_init_def js_includes_def js_filter_total)

lemma resume_commit:
  assumes "db_wf d" and "handleConfirmClaim_resume n t d = (f, d', cs)"
  shows "db_wf d' \<and> apply_changes cs (sb_select_desc d) = sb_select_desc d'"
  using assms delete_commit [OF assms(1)]
  by (auto simp: handleConfirmClaim_resume_def split: prod.splits)

lemma getClaimedPlaceholderIds_example: "getClaimedPlaceholderIds example_storage = JArr []"
  by (simp add: getClaimedPlaceholderIds_def getItem_def example_storage_def)

lemma grid_cards_donated:
  assumes "\<not> isLoading g" "i < length (donatedItems g)"
  shows "\<exists>cs. grid_cards g = Some cs \<and> i < length cs \<and>
           cs ! i = ItemCard (to_card_item (donatedItems g ! i)) (i = 0)"
  using assms by (simp add: grid_cards_def nth_append nth_enumerate_eq)

lemma delete_present:
  assumes "db_wf d" "r \<in> set (sb_select_desc d)"
  shows "deleteDonatedItemFromDB NetOk (row_id r) d =
           (True, snd (sb_delete_eq (row_id r) d), [ChDelete (row_id r)])"
proof -
  have "row_id r \<in> (row_id \<circ> snd) ` set (tbl d)"
    using assms by (force simp: sb_select_desc_wf)
  with assms(1) show ?thesis by (simp add: deleteDonatedItemFromDB_NetOk delete_changes_wf)
qed

lemma delete_absent:
  assumes "db_wf d" "x \<notin> row_id ` set (sb_select_desc d)"
  shows "deleteDonatedItemFromDB NetOk x d = (True, snd (sb_delete_eq x d), []) \<and>
         sb_select_desc (snd (sb_delete_eq x d)) = sb_select_desc d"
proof -
  have "x \<notin> (row_id \<circ> snd) ` set (tbl d)"
    using assms by (simp add: sb_select_desc_wf image_comp)
  with assms show ?thesis
    by (simp add: deleteDonatedItemFromDB_NetOk delete_changes_wf sb_select_desc_delete filter_key_absent)
qed

lemma grid_cards_placeholder:
  assumes "\<not> isLoading g" "j < length (placeholderItems g)"
  shows "\<exists>cs. grid_cards g = Some cs \<and> length (donatedItems g) + j < length cs \<and>
           cs ! (length (donatedItems g) + j) = PlaceholderCard (placeholderItems g ! j)"
  using assms by (simp add: grid_cards_def nth_append)


lemma grid_fetchDone_frame [frame_simps]:
  "placeholderItems (grid_fetchDone rows g) = placeholderItems g"
  "confirmOpen (grid_fetchDone rows g) = confirmOpen g"
  "successOpen (grid_fetchDone rows g) = successOpen g"
  "claimTarget (grid_fetchDone rows g) = claimTarget g"
  by (simp_all add: grid_fetchDone_def)

lemma handleConfirmClaim_resume_cont:
  "handleConfirmClaim_resume n t d = (f, d', cs) \<Longrightarrow> f = (\<lambda>s. s\<lparr>confirmOpen := False, successOpen := True\<rparr>)"
  by (auto simp: handleConfirmClaim_resume_def split: prod.splits)

lemma handleConfirmClaim_ph:
  assumes "getClaimedPlaceholderIds st = JArr xs"
    and "placeholderItems g = filter (\<lambda>i. JStr (ph_id i) \<notin> set xs) INITIAL_PLACEHOLDER_ITEMS"
    and "handleConfirmClaim g st = Inr (g', st', t)"
  shows "\<exists>ys. getClaimedPlaceholderIds st' = JArr ys \<and>
           placeholderItems g' = filter (\<lambda>i. JStr (ph_id i) \<notin> set ys) INITIAL_PLACEHOLDER_ITEMS"
proof (cases "claimTarget g")
  case None
  with assms show ?thesis by (simp add: handleConfirmClaim_def)
next
  case (Some c)
  show ?thesis
  proof (cases "ct_type c")
    case Donated
    with Some assms show ?thesis by (simp add: handleConfirmClaim_def)
  next
    case Placeholder
    then obtain st1 where add: "addClaimedPlaceholderId (ct_id c) st = Inr st1"
      and eq: "g' = g\<lparr>placeholderItems := filter (\<lambda>item. ph_id item \<noteq> ct_id c) (placeholderItems g),
                   confirmOpen := False, successOpen := True\<rparr>" "st' = st1"
      using Some assms(3) by (auto simp: handleConfirmClaim_def split: sum.splits)
    show ?thesis
      using addClaimedPlaceholderId_result [OF assms(1) add] assms(2) eq
      by (auto split: if_splits intro!: filter_cong)
  qed
qed

lemma json_parse_null: "json_parse ''null'' = Inr JNull"
  using json_parse_stringify [of JNull] by (simp add: json_stringify_def)

lemma handleConfirmClaim_target:
  "handleConfirmClaim g st = Inr (g', st', Some t) \<Longrightarrow>
   ct_type t = Donated \<and> st' = st \<and> claimTarget g = Some t"
  by (auto simp: handleConfirmClaim_def split: option.splits if_splits sum.splits)

lemma claim_type_not_Donated: "c \<noteq> Donated \<longleftrightarrow> c = Placeholder"
  by (cases c) simp_all

lemma handleConfirmClaim_storage:
  "handleConfirmClaim g st = Inr (g', st', t) \<Longrightarrow> st' \<noteq> st \<Longrightarrow>
   \<exists>c. claimTarget g = Some c \<and> ct_type c = Placeholder \<and> t = None"
  by (auto simp: handleConfirmClaim_def claim_type_not_Donated split: option.splits if_splits sum.splits)

end
