(* ===== verification/Page.thy ===== *)
theory Page
  imports Grid
begin

text \<open>
  The home page as an event system: one item grid (\<open>src/src/components/ItemGrid.tsx\<close>,
  mounted by \<open>src/src/pages/Index.tsx\<close>), the hosted table, local storage, the grid's
  realtime subscription and the requests in flight. A step is one event: the grid mounts
  or unmounts, the backend serves the initial select, its response or a queued
  notification reaches the grid, another client writes to the table, or the user clicks.
  Which event comes next is chosen by the environment, so a run is a list of events and
  every interleaving of network, realtime and user events is a run.
  \<^item> Mounting runs the \<open>useState\<close> initialisers, then the effect: it starts
    \<open>fetchItems\<close> (\<open>fetch = FetchPending\<close>) and subscribes (\<open>chan = Some []\<close>).
  \<^item> The backend answers the select at some later point (\<open>ServeFetch\<close>); the grid
    receives the rows later still (\<open>DeliverFetch\<close>).
  \<^item> Every committed change is queued on the subscription and handed to the grid's
    callbacks one at a time (\<open>Deliver\<close>), in commit order.
  \<^item> \<open>Confirm\<close> runs \<open>handleConfirmClaim\<close> up to its \<open>await\<close> and closes the
    confirmation dialog (the dialog's action button closes it); a donated-item claim stays
    in flight until \<open>ResolveDelete\<close> commits the delete and runs the continuation,
    which only the grid instance that started it sees.
  \<^item> A card can be clicked only when it is shown and no dialog is open (both dialogs are
    modal).
  The theory then defines the synchronisation invariant \<open>sync_inv\<close>, the clean runs
  and \<open>settle\<close>, and the placeholder invariant \<open>ph_inv\<close>, and proves: the refinement of
  the ordered select by the settled grid, the preservation of both invariants, the claim
  flows of donated and placeholder cards and their cancellation, and the concrete runs
  that exhibit the races and the crash on a stored \<open>null\<close>.
\<close>

section \<open>State and events\<close>

datatype fetch_state = FetchIdle | FetchPending | FetchServed "db_row list" | FetchDone

record page =
  grid :: "grid_state option"
  inst :: nat
  db :: db_state
  ls :: web_storage
  chan :: "change list option"
  fetch :: fetch_state
  inflight :: "(nat \<times> claim_target) list"
  uncaught :: "js_error list"

datatype event =
    Mount
  | Unmount
  | ServeFetch net
  | DeliverFetch
  | Deliver
  | RemoteSave row_insert
  | RemoteDelete item_id
  | ClickCard nat
  | Confirm
  | ResolveDelete nat net
  | Cancel
  | CloseSuccess

definition init_page :: "db_state \<Rightarrow> web_storage \<Rightarrow> page" where
  "init_page d st = \<lparr>grid = None, inst = 0, db = d, ls = st, chan = None, fetch = FetchIdle,
     inflight = [], uncaught = []\<rparr>"

text \<open>Committed changes reach the subscription, if there is one.\<close>

definition publish :: "change list \<Rightarrow> page \<Rightarrow> page" where
  "publish cs p = p\<lparr>chan := map_option (\<lambda>q. q @ cs) (chan p)\<rparr>"

definition mount :: "page \<Rightarrow> page" where
  "mount p =
     (case grid p of
        Some g \<Rightarrow> p
      | None \<Rightarrow>
          (case grid_init (ls p) of
             Inl e \<Rightarrow> p\<lparr>uncaught := uncaught p @ [e]\<rparr>
           | Inr g \<Rightarrow> p\<lparr>grid := Some g, inst := Suc (inst p), chan := Some [], fetch := FetchPending\<rparr>))"

definition unmount :: "page \<Rightarrow> page" where
  "unmount p = p\<lparr>grid := None, chan := None, fetch := FetchIdle\<rparr>"

definition click_card :: "nat \<Rightarrow> page \<Rightarrow> page" where
  "click_card i p =
     (case grid p of
        None \<Rightarrow> p
      | Some g \<Rightarrow>
          (case grid_cards g of
             None \<Rightarrow> p
           | Some cs \<Rightarrow>
               if i < length cs \<and> \<not> confirmOpen g \<and> \<not> successOpen g
               then p\<lparr>grid := Some (card_onClaim (cs ! i) g)\<rparr> else p))"

definition confirm :: "page \<Rightarrow> page" where
  "confirm p =
     (case grid p of
        None \<Rightarrow> p
      | Some g \<Rightarrow>
          if \<not> confirmOpen g then p
          else
            (case handleConfirmClaim g (ls p) of
               Inl e \<Rightarrow> p\<lparr>grid := Some (setConfirmOpen False g), uncaught := uncaught p @ [e]\<rparr>
             | Inr (g', st', t) \<Rightarrow>
                 p\<lparr>grid := Some (setConfirmOpen False g'), ls := st',
                   inflight := inflight p @ (case t of None \<Rightarrow> [] | Some t' \<Rightarrow> [(inst p, t')])\<rparr>))"

definition resolve_delete :: "nat \<Rightarrow> net \<Rightarrow> page \<Rightarrow> page" where
  "resolve_delete i n p =
     (if i < length (inflight p) then
        (case inflight p ! i of
           (k, t) \<Rightarrow>
             (case handleConfirmClaim_resume n t (db p) of
                (f, db', cs) \<Rightarrow>
                  publish cs (p\<lparr>db := db', inflight := take i (inflight p) @ drop (Suc i) (inflight p),
                                 grid := (if k = inst p then map_option f (grid p) else grid p)\<rparr>)))
      else p)"

fun page_step :: "page \<Rightarrow> event \<Rightarrow> page" where
  "page_step p Mount = mount p"
| "page_step p Unmount = unmount p"
| "page_step p (ServeFetch n) =
     (if fetch p = FetchPending then p\<lparr>fetch := FetchServed (getDonatedItemsFromDB n (db p))\<rparr> else p)"
| "page_step p DeliverFetch =
     (case fetch p of
        FetchServed rows \<Rightarrow> p\<lparr>fetch := FetchDone, grid := map_option (grid_fetchDone rows) (grid p)\<rparr>
      | _ \<Rightarrow> p)"
| "page_step p Deliver =
     (case chan p of
        Some (c # q) \<Rightarrow> p\<lparr>chan := Some q, grid := map_option (grid_onChange c) (grid p)\<rparr>
      | _ \<Rightarrow> p)"
| "page_step p (RemoteSave i) =
     (case saveDonatedItemToDB NetOk i (db p) of (res, db', cs) \<Rightarrow> publish cs (p\<lparr>db := db'\<rparr>))"
| "page_step p (RemoteDelete x) =
     (case deleteDonatedItemFromDB NetOk x (db p) of (ok, db', cs) \<Rightarrow> publish cs (p\<lparr>db := db'\<rparr>))"
| "page_step p (ClickCard i) = click_card i p"
| "page_step p Confirm = confirm p"
| "page_step p (ResolveDelete i n) = resolve_delete i n p"
| "page_step p Cancel =
     (case grid p of
        Some g \<Rightarrow> if confirmOpen g then p\<lparr>grid := Some (setConfirmOpen False g)\<rparr> else p
      | None \<Rightarrow> p)"
| "page_step p CloseSuccess =
     (case grid p of
        Some g \<Rightarrow> if successOpen g then p\<lparr>grid := Some (handleSuccessClose g)\<rparr> else p
      | None \<Rightarrow> p)"

definition page_run :: "page \<Rightarrow> event list \<Rightarrow> page" where
  "page_run p es = fold (\<lambda>e p. page_step p e) es p"

section \<open>Synchronisation of the grid with the table\<close>

text \<open>
  \<open>sync_inv\<close> relates a mounted grid to the table: the subscription is open, and the
  rows the grid holds (or the rows of the select on their way to it), with the queued
  notifications applied, are the table's rows newest first. A run is \<open>clean\<close> when the
  backend serves the select without error, no write commits between subscribing and the
  serving of the select, and no notification is handed to the grid while the select's
  response is on its way; the two races of \<open>src/src/components/ItemGrid.tsx\<close> are the
  runs that are not clean.
\<close>

definition sync_inv :: "page \<Rightarrow> bool" where
  "sync_inv p \<longleftrightarrow> db_wf (db p) \<and>
     (case grid p of
        None \<Rightarrow> True
      | Some g \<Rightarrow>
          (case chan p of
             None \<Rightarrow> False
           | Some q \<Rightarrow>
               (case fetch p of
                  FetchIdle \<Rightarrow> False
                | FetchPending \<Rightarrow> q = []
                | FetchServed rows \<Rightarrow> apply_changes q rows = sb_select_desc (db p)
                | FetchDone \<Rightarrow> \<not> isLoading g \<and> apply_changes q (donatedItems g) = sb_select_desc (db p))))"

fun clean :: "page \<Rightarrow> event \<Rightarrow> bool" where
  "clean p (ServeFetch n) \<longleftrightarrow> n = NetOk"
| "clean p Deliver \<longleftrightarrow> (case fetch p of FetchServed rows \<Rightarrow> False | _ \<Rightarrow> True)"
| "clean p (RemoteSave i) \<longleftrightarrow> fetch p \<noteq> FetchPending"
| "clean p (RemoteDelete x) \<longleftrightarrow> fetch p \<noteq> FetchPending"
| "clean p (ResolveDelete i n) \<longleftrightarrow> fetch p \<noteq> FetchPending"
| "clean p e \<longleftrightarrow> True"

fun clean_run :: "page \<Rightarrow> event list \<Rightarrow> bool" where
  "clean_run p [] \<longleftrightarrow> True"
| "clean_run p (e # es) \<longleftrightarrow> clean p e \<and> clean_run (page_step p e) es"

text \<open>\<open>settle\<close> lets the network catch up with a page: the select is served and delivered
  and every queued notification is handed to the grid.\<close>

definition settle :: "page \<Rightarrow> page" where
  "settle p = page_run p (ServeFetch NetOk # DeliverFetch #
     replicate (case chan p of None \<Rightarrow> 0 | Some q \<Rightarrow> length q) Deliver)"

definition example_events :: "event list" where
  "example_events = [Mount, ServeFetch NetOk, RemoteSave example_insert, DeliverFetch,
     RemoteDelete (row_key 0), Deliver]"

definition example_page :: page where
  "example_page = page_run (init_page example_db example_storage) [Mount, ServeFetch NetOk, DeliverFetch]"

text \<open>
  \<open>ph_inv\<close>: local storage holds an array of claimed ids under
  \<open>CLAIMED_PLACEHOLDERS_KEY\<close>, and a mounted grid shows exactly the seed placeholders
  whose id is not in it.
\<close>

definition ph_inv :: "page \<Rightarrow> bool" where
  "ph_inv p \<longleftrightarrow>
     (case getClaimedPlaceholderIds (ls p) of
        JArr xs \<Rightarrow>
          (case grid p of
             None \<Rightarrow> True
           | Some g \<Rightarrow> placeholderItems g = filter (\<lambda>i. JStr (ph_id i) \<notin> set xs) INITIAL_PLACEHOLDER_ITEMS)
      | _ \<Rightarrow> False)"

text \<open>A page just mounted on the example table: its select is pending.\<close>

definition mounted_page :: page where
  "mounted_page = page_run (init_page example_db example_storage) [Mount]"

text \<open>Every request in flight is the delete of a donated item.\<close>

definition inflight_donated :: "page \<Rightarrow> bool" where
  "inflight_donated p \<longleftrightarrow> list_all (\<lambda>(k, t). ct_type t = Donated) (inflight p)"

text \<open>
  The pages reachable from a freshly loaded page over a well-formed table whose local
  storage holds an array of claimed ids, by any sequence of events.
\<close>

inductive reachable :: "page \<Rightarrow> bool" where
  reachable_init: "getClaimedPlaceholderIds st = JArr xs \<Longrightarrow> db_wf d \<Longrightarrow> reachable (init_page d st)"
| reachable_step: "reachable p \<Longrightarrow> reachable (page_step p e)"

text \<open>The dialogs of a mounted grid are exclusive, and an open confirmation has a target.\<close>

definition dialog_inv :: "page \<Rightarrow> bool" where
  "dialog_inv p \<longleftrightarrow>
     (case grid p of
        None \<Rightarrow> True
      | Some g \<Rightarrow> \<not> (confirmOpen g \<and> successOpen g) \<and> (confirmOpen g \<longrightarrow> claimTarget g \<noteq> None))"

section \<open>Lemmas\<close>

lemma page_run_Nil [simp]: "page_run p [] = p"
  and page_run_Cons [simp]: "page_run p (e # es) = page_run (page_step p e) es"
  and page_run_append: "page_run p (es @ fs) = page_run (page_run p es) fs"
  by (simp_all add: page_run_def)

lemma sync_inv_db_wf: "sync_inv p \<Longrightarrow> db_wf (db p)"
  by (simp add: sync_inv_def)

lemma sync_inv_publish:
  assumes "sync_inv p" "fetch p \<noteq> FetchPending" "db_wf d'"
    "apply_changes cs (sb_select_desc (db p)) = sb_select_desc d'"
  shows "sync_inv (publish cs (p\<lparr>db := d'\<rparr>))"
  using assms
  by (auto simp: sync_inv_def publish_def apply_changes_append split: option.splits fetch_state.splits)

lemma sync_inv_same_grid:
  assumes "sync_inv p"
    "map_option (\<lambda>g. (donatedItems g, isLoading g)) (grid p') = map_option (\<lambda>g. (donatedItems g, isLoading g)) (grid p)"
    "db p' = db p" "chan p' = chan p" "fetch p' = fetch p"
  shows "sync_inv p'"
  using assms by (auto simp: sync_inv_def split: option.splits fetch_state.splits)

lemma sync_inv_step:
  assumes "sync_inv p" and "clean p e"
  shows "sync_inv (page_step p e)"
proof (cases e)
  case Mount
  with assms show ?thesis
    by (auto simp: mount_def sync_inv_def split: option.splits sum.splits)
next
  case Unmount
  with assms show ?thesis by (simp add: unmount_def sync_inv_def)
next
  case (ServeFetch n)
  with assms show ?thesis
    by (auto simp: sync_inv_def getDonatedItemsFromDB_def split: option.splits fetch_state.splits)
next
  case DeliverFetch
  with assms show ?thesis
    by (auto simp: sync_inv_def grid_fetchDone_def split: option.splits fetch_state.splits)
next
  case Deliver
  with assms show ?thesis
    by (auto simp: sync_inv_def frame_simps split: option.splits list.splits fetch_state.splits)
next
  case (RemoteSave i)
  obtain res d' cs where s: "saveDonatedItemToDB NetOk i (db p) = (res, d', cs)"
    by (metis prod_cases3)
  have "db_wf d' \<and> apply_changes cs (sb_select_desc (db p)) = sb_select_desc d'"
    using save_commit [OF sync_inv_db_wf [OF assms(1)] s] .
  with assms RemoteSave s show ?thesis by (simp add: sync_inv_publish)
next
  case (RemoteDelete x)
  obtain ok d' cs where s: "deleteDonatedItemFromDB NetOk x (db p) = (ok, d', cs)"
    by (metis prod_cases3)
  have "db_wf d' \<and> apply_changes cs (sb_select_desc (db p)) = sb_select_desc d'"
    using delete_commit [OF sync_inv_db_wf [OF assms(1)] s] .
  with assms RemoteDelete s show ?thesis by (simp add: sync_inv_publish)
next
  case (ClickCard i)
  with assms show ?thesis
    by (auto simp: click_card_def frame_simps intro: sync_inv_same_grid split: option.splits)
next
  case Confirm
  with assms show ?thesis
    by (auto simp: confirm_def frame_simps dest!: handleConfirmClaim_items intro: sync_inv_same_grid
        split: option.splits sum.splits)
next
  case (ResolveDelete i n)
  show ?thesis
  proof (cases "i < length (inflight p)")
    case True
    obtain k t where kt: "inflight p ! i = (k, t)" by fastforce
    obtain f d' cs where r: "handleConfirmClaim_resume n t (db p) = (f, d', cs)"
      by (metis prod_cases3)
    let ?p = "p\<lparr>inflight := take i (inflight p) @ drop (Suc i) (inflight p),
                  grid := (if k = inst p then map_option f (grid p) else grid p)\<rparr>"
    have fi: "donatedItems (f g) = donatedItems g" "isLoading (f g) = isLoading g" for g
      using handleConfirmClaim_resume_frame [of n t "db p" g] r by simp_all
    have "sync_inv ?p"
      using assms(1) by (rule sync_inv_same_grid) (simp_all add: option.map_comp comp_def fi)
    moreover have "db_wf d' \<and> apply_changes cs (sb_select_desc (db p)) = sb_select_desc d'"
      using resume_commit [OF sync_inv_db_wf [OF assms(1)] r] .
    ultimately have "sync_inv (publish cs (?p\<lparr>db := d'\<rparr>))"
      using assms(2) ResolveDelete by (intro sync_inv_publish) simp_all
    then show ?thesis
      by (rule sync_inv_same_grid) (simp_all add: ResolveDelete True kt r resolve_delete_def publish_def)
  next
    case False
    with assms ResolveDelete show ?thesis by (simp add: resolve_delete_def)
  qed
next
  case Cancel
  with assms show ?thesis
    by (auto simp: frame_simps intro: sync_inv_same_grid split: option.splits)
next
  case CloseSuccess
  with assms show ?thesis
    by (auto simp: frame_simps intro: sync_inv_same_grid split: option.splits)
qed


lemma sync_inv_init: "db_wf d \<Longrightarrow> sync_inv (init_page d st)"
  by (simp add: sync_inv_def init_page_def)

lemma sync_inv_run: "sync_inv p \<Longrightarrow> clean_run p es \<Longrightarrow> sync_inv (page_run p es)"
  by (induction p es rule: clean_run.induct) (simp_all add: sync_inv_step)

lemma drain_run:
  "chan p = Some q \<Longrightarrow> grid p = Some g \<Longrightarrow>
   \<exists>g'. grid (page_run p (replicate (length q) Deliver)) = Some g' \<and>
        donatedItems g' = apply_changes q (donatedItems g) \<and> isLoading g' = isLoading g \<and>
        db (page_run p (replicate (length q) Deliver)) = db p"
proof (induction q arbitrary: p g)
  case Nil
  then show ?case by simp
next
  case (Cons c q)
  then show ?case
    using Cons.IH [of "page_step p Deliver" "grid_onChange c g"] by (simp add: frame_simps)
qed

lemma settle_sync:
  assumes "sync_inv p" and "grid p = Some g"
  shows "\<exists>g'. grid (settle p) = Some g' \<and> donatedItems g' = sb_select_desc (db p) \<and>
              \<not> isLoading g' \<and> db (settle p) = db p"
proof -
  obtain q where q: "chan p = Some q"
    using assms by (auto simp: sync_inv_def split: option.splits)
  let ?p1 = "page_step (page_step p (ServeFetch NetOk)) DeliverFetch"
  have "\<exists>g1. grid ?p1 = Some g1 \<and> \<not> isLoading g1 \<and> chan ?p1 = Some q \<and> db ?p1 = db p \<and>
          apply_changes q (donatedItems g1) = sb_select_desc (db p)"
    using assms q
    by (auto simp: sync_inv_def getDonatedItemsFromDB_def grid_fetchDone_def split: fetch_state.splits)
  then obtain g1 where "grid ?p1 = Some g1" "\<not> isLoading g1" "chan ?p1 = Some q" "db ?p1 = db p"
    "apply_changes q (donatedItems g1) = sb_select_desc (db p)" by blast
  with drain_run [of ?p1 q g1] q show ?thesis by (auto simp: settle_def)
qed


lemma home_load:
  "db_wf d \<Longrightarrow> getClaimedPlaceholderIds st = JArr xs \<Longrightarrow>
   \<exists>g. grid (page_run (init_page d st) [Mount, ServeFetch NetOk, DeliverFetch]) = Some g \<and>
       donatedItems g = sb_select_desc d \<and> \<not> isLoading g"
  by (simp add: init_page_def mount_def grid_init_array getDonatedItemsFromDB_def grid_fetchDone_def)

lemma sync_inv_pending:
  "sync_inv p \<Longrightarrow> grid p = Some g \<Longrightarrow> fetch p = FetchPending \<Longrightarrow> chan p = Some [] \<and> db_wf (db p)"
  by (auto simp: sync_inv_def split: option.splits)

lemma js_includes_other:
  "(\<forall>xs. v \<noteq> JArr xs) \<Longrightarrow> (\<forall>s. v \<noteq> JStr s) \<Longrightarrow> js_includes v x = Inl TypeError"
  by (cases v) (simp_all add: js_includes_def)

lemmas page_eval = mount_def grid_init_array [OF getClaimedPlaceholderIds_example] publish_def
  getDonatedItemsFromDB_def grid_fetchDone_def init_page_def

lemma mounted_page_facts:
  "sync_inv mounted_page \<and> grid mounted_page = Some (the (grid mounted_page)) \<and> fetch mounted_page = FetchPending"
proof -
  have "sync_inv mounted_page"
    unfolding mounted_page_def
    by (rule sync_inv_run [OF sync_inv_init [OF example_db_wf]]) simp
  then show ?thesis by (simp add: mounted_page_def page_eval)
qed


text \<open>
  Claim C1. After any clean run from a well-formed table, once the network has caught up
  the mounted grid shows exactly the table's rows, newest first, and no longer shows the
  spinner: the grid, its initial select and its realtime callbacks together implement
  the select of \<open>getDonatedItemsFromDB\<close>.
\<close>

theorem grid_refines_table:
  assumes "db_wf d" and "clean_run (init_page d st) es"
    and "grid (page_run (init_page d st) es) = Some g"
  shows "\<exists>g'. grid (settle (page_run (init_page d st) es)) = Some g' \<and>
           donatedItems g' = sb_select_desc (db (page_run (init_page d st) es)) \<and> \<not> isLoading g'"
  using settle_sync [OF sync_inv_run [OF sync_inv_init [OF assms(1)] assms(2)] assms(3)] by auto

theorem grid_refines_table_witness:
  "\<exists>g'. grid (settle (page_run (init_page example_db example_storage) example_events)) = Some g' \<and>
     donatedItems g' = sb_select_desc (db (page_run (init_page example_db example_storage) example_events)) \<and>
     \<not> isLoading g'"
proof -
  have c: "clean_run (init_page example_db example_storage) example_events"
    by (simp add: example_events_def page_eval saveDonatedItemToDB_NetOk deleteDonatedItemFromDB_NetOk)
  have "grid (page_run (init_page example_db example_storage) example_events) \<noteq> None"
    by (simp add: example_events_def page_eval saveDonatedItemToDB_NetOk deleteDonatedItemFromDB_NetOk)
  then obtain g where "grid (page_run (init_page example_db example_storage) example_events) = Some g"
    by blast
  from grid_refines_table [OF example_db_wf c this] show ?thesis .
qed


lemma click_card_donated:
  assumes "grid p = Some g" "\<not> isLoading g" "i < length (donatedItems g)"
    "\<not> confirmOpen g" "\<not> successOpen g"
  shows "click_card i p = p\<lparr>grid := Some (handleClaimAttempt Donated (row_id (donatedItems g ! i))
           (row_name (donatedItems g ! i)) (row_contact_email (donatedItems g ! i)) g)\<rparr>"
  using assms grid_cards_donated [OF assms(2,3)]
  by (auto simp: click_card_def to_card_item_def)

lemma sync_inv_settled:
  "sync_inv p \<Longrightarrow> grid p = Some g \<Longrightarrow> fetch p = FetchDone \<Longrightarrow> chan p = Some [] \<Longrightarrow>
   donatedItems g = sb_select_desc (db p) \<and> \<not> isLoading g"
  by (simp add: sync_inv_def)

lemma example_page_sync: "sync_inv example_page"
  unfolding example_page_def
  by (rule sync_inv_run [OF sync_inv_init [OF example_db_wf]]) (simp add: page_eval)

text \<open>
  Claim C2. On a grid in sync with the table, with no request in flight and no dialog
  open, claiming the \<open>i\<close>-th donated card (Claim Now, Confirm), letting the delete
  succeed and delivering its notification removes exactly the rows with that card's id
  from the grid and from the table, closes the confirmation dialog and opens the success
  dialog, which shows the claimed row's contact email.
\<close>

theorem claim_donated_flow:
  assumes inv: "sync_inv p" and g: "grid p = Some g" and fd: "fetch p = FetchDone"
    and q: "chan p = Some []" and fl: "inflight p = []"
    and dlg: "\<not> confirmOpen g" "\<not> successOpen g" and i: "i < length (donatedItems g)"
  shows "\<exists>g'. grid (page_run p [ClickCard i, Confirm, ResolveDelete 0 NetOk, Deliver]) = Some g' \<and>
           donatedItems g' = filter (\<lambda>r. row_id r \<noteq> row_id (donatedItems g ! i)) (donatedItems g) \<and>
           successOpen g' \<and> \<not> confirmOpen g' \<and>
           success_contactEmail g' = row_contact_email (donatedItems g ! i) \<and>
           sb_select_desc (db (page_run p [ClickCard i, Confirm, ResolveDelete 0 NetOk, Deliver])) = donatedItems g'"
proof -
  let ?r = "donatedItems g ! i"
  have sel: "donatedItems g = sb_select_desc (db p)" and ld: "\<not> isLoading g"
    using sync_inv_settled [OF inv g fd q] by simp_all
  have wf: "db_wf (db p)" using inv by (rule sync_inv_db_wf)
  have mem: "?r \<in> set (sb_select_desc (db p))" using i sel by (metis nth_mem)
  show ?thesis
    using g q fl dlg ld i
    by (simp add: click_card_donated confirm_def handleConfirmClaim_def handleClaimAttempt_def
        setConfirmOpen_def resolve_delete_def handleConfirmClaim_resume_def delete_present [OF wf mem]
        publish_def grid_onChange_def grid_onDelete_def success_contactEmail_def
        sb_select_desc_delete sel [symmetric])
qed


theorem claim_donated_flow_witness:
  "let p = example_page; g = the (grid p); r = donatedItems g ! 1;
       p' = page_run p [ClickCard 1, Confirm, ResolveDelete 0 NetOk, Deliver]
   in \<exists>g'. grid p' = Some g' \<and> donatedItems g' = filter (\<lambda>x. row_id x \<noteq> row_id r) (donatedItems g) \<and>
        successOpen g' \<and> \<not> confirmOpen g' \<and> success_contactEmail g' = row_contact_email r \<and>
        sb_select_desc (db p') = donatedItems g'"
  unfolding Let_def
  by (rule claim_donated_flow [OF example_page_sync])
     (simp_all add: example_page_def page_eval sb_select_desc_def db_ops_defs example_db_def)


lemma click_card_placeholder:
  assumes "grid p = Some g" "\<not> isLoading g" "j < length (placeholderItems g)"
    "\<not> confirmOpen g" "\<not> successOpen g"
  shows "click_card (length (donatedItems g) + j) p = p\<lparr>grid := Some (handleClaimAttempt Placeholder
           (ph_id (placeholderItems g ! j)) (ph_name (placeholderItems g ! j)) PLACEHOLDER_EMAIL g)\<rparr>"
  using assms grid_cards_placeholder [OF assms(2,3)] by (auto simp: click_card_def)

lemma remount_placeholders:
  assumes "getClaimedPlaceholderIds (ls p) = JArr xs"
  shows "\<exists>g. grid (page_run p [Unmount, Mount]) = Some g \<and>
           placeholderItems g = filter (\<lambda>i. JStr (ph_id i) \<notin> set xs) INITIAL_PLACEHOLDER_ITEMS"
  using assms by (simp add: unmount_def mount_def grid_init_array)

text \<open>
  Claim C3. Claiming the \<open>j\<close>-th placeholder card of a rendered grid (Claim Now, Confirm)
  either records its id in local storage, drops the card, opens the success dialog with
  the placeholder donor's email and keeps the card away when the grid is mounted again;
  or, when local storage is full, leaves storage and the placeholders unchanged, closes
  the dialog without success and reports an uncaught \<open>QuotaExceededError\<close>.
\<close>

theorem claim_placeholder_persists:
  assumes g: "grid p = Some g" and ld: "\<not> isLoading g" and dlg: "\<not> confirmOpen g" "\<not> successOpen g"
    and xs: "getClaimedPlaceholderIds (ls p) = JArr xs" and j: "j < length (placeholderItems g)"
  shows "let it = placeholderItems g ! j;
             p1 = page_run p [ClickCard (length (donatedItems g) + j), Confirm]
         in case addClaimedPlaceholderId (ph_id it) (ls p) of
              Inl e \<Rightarrow> e = QuotaExceededError \<and> uncaught p1 = uncaught p @ [e] \<and> ls p1 = ls p \<and>
                (\<exists>g1. grid p1 = Some g1 \<and> placeholderItems g1 = placeholderItems g \<and>
                      \<not> confirmOpen g1 \<and> \<not> successOpen g1)
            | Inr st' \<Rightarrow> ls p1 = st' \<and>
                (\<exists>g1. grid p1 = Some g1 \<and>
                      placeholderItems g1 = filter (\<lambda>x. ph_id x \<noteq> ph_id it) (placeholderItems g) \<and>
                      successOpen g1 \<and> \<not> confirmOpen g1 \<and> success_contactEmail g1 = PLACEHOLDER_EMAIL) \<and>
                (\<exists>g2. grid (page_run p1 [Unmount, Mount]) = Some g2 \<and> it \<notin> set (placeholderItems g2))"
proof -
  let ?it = "placeholderItems g ! j"
  let ?p0 = "page_step p (ClickCard (length (donatedItems g) + j))"
  have p0: "?p0 = p\<lparr>grid := Some (handleClaimAttempt Placeholder (ph_id ?it) (ph_name ?it) PLACEHOLDER_EMAIL g)\<rparr>"
    using click_card_placeholder [OF g ld j dlg] by simp
  show ?thesis
  proof (cases "addClaimedPlaceholderId (ph_id ?it) (ls p)")
    case (Inl e)
    then show ?thesis
      using p0 addClaimedPlaceholderId_error [OF xs Inl]
      by (simp add: confirm_def handleConfirmClaim_def handleClaimAttempt_def setConfirmOpen_def dlg)
  next
    case (Inr st')
    have stored: "getClaimedPlaceholderIds st' =
        (if JStr (ph_id ?it) \<in> set xs then JArr xs else JArr (xs @ [JStr (ph_id ?it)]))"
      using addClaimedPlaceholderId_result [OF xs Inr] .
    then obtain ys where ys: "getClaimedPlaceholderIds st' = JArr ys" "JStr (ph_id ?it) \<in> set ys"
      by (cases "JStr (ph_id ?it) \<in> set xs") auto
    have p1: "page_run p [ClickCard (length (donatedItems g) + j), Confirm] =
      p\<lparr>grid := Some (setConfirmOpen False ((handleClaimAttempt Placeholder (ph_id ?it) (ph_name ?it) PLACEHOLDER_EMAIL g)
           \<lparr>placeholderItems := filter (\<lambda>x. ph_id x \<noteq> ph_id ?it) (placeholderItems g),
            confirmOpen := False, successOpen := True\<rparr>)), ls := st'\<rparr>"
      using p0 Inr by (simp add: confirm_def handleConfirmClaim_def handleClaimAttempt_def)
    show ?thesis
      using Inr p1 remount_placeholders [of "page_run p [ClickCard (length (donatedItems g) + j), Confirm]" ys] ys
      by (auto simp: Let_def handleClaimAttempt_def setConfirmOpen_def success_contactEmail_def)
  qed
qed


theorem claim_placeholder_persists_witness:
  "let g = the (grid example_page); it = placeholderItems g ! 0;
       p1 = page_run example_page [ClickCard (length (donatedItems g) + 0), Confirm]
   in case addClaimedPlaceholderId (ph_id it) (ls example_page) of
        Inl e \<Rightarrow> e = QuotaExceededError \<and> uncaught p1 = uncaught example_page @ [e] \<and> ls p1 = ls example_page \<and>
          (\<exists>g1. grid p1 = Some g1 \<and> placeholderItems g1 = placeholderItems g \<and>
                \<not> confirmOpen g1 \<and> \<not> successOpen g1)
      | Inr st' \<Rightarrow> ls p1 = st' \<and>
          (\<exists>g1. grid p1 = Some g1 \<and>
                placeholderItems g1 = filter (\<lambda>x. ph_id x \<noteq> ph_id it) (placeholderItems g) \<and>
                successOpen g1 \<and> \<not> confirmOpen g1 \<and> success_contactEmail g1 = PLACEHOLDER_EMAIL) \<and>
          (\<exists>g2. grid (page_run p1 [Unmount, Mount]) = Some g2 \<and> it \<notin> set (placeholderItems g2))"
  unfolding Let_def
  by (rule claim_placeholder_persists [unfolded Let_def])
     (simp_all add: example_page_def page_eval getClaimedPlaceholderIds_example INITIAL_PLACEHOLDER_ITEMS_def)


lemma ph_inv_same:
  assumes "ph_inv p" "ls p' = ls p" "map_option placeholderItems (grid p') = map_option placeholderItems (grid p)"
  shows "ph_inv p'"
  using assms by (auto simp: ph_inv_def split: json.splits option.splits)

lemma ph_inv_step: "ph_inv p \<Longrightarrow> ph_inv (page_step p e)"
proof (cases e)
  case Mount
  assume "ph_inv p"
  with Mount show ?thesis
    by (auto simp: mount_def ph_inv_def grid_init_array split: json.splits option.splits sum.splits)
next
  case Confirm
  assume inv: "ph_inv p"
  then obtain xs where xs: "getClaimedPlaceholderIds (ls p) = JArr xs"
    by (auto simp: ph_inv_def split: json.splits)
  show ?thesis
  proof (cases "grid p")
    case None
    with inv Confirm show ?thesis by (simp add: confirm_def)
  next
    case (Some g)
    have ph: "placeholderItems g = filter (\<lambda>i. JStr (ph_id i) \<notin> set xs) INITIAL_PLACEHOLDER_ITEMS"
      using inv xs Some by (simp add: ph_inv_def)
    show ?thesis
    proof (cases "handleConfirmClaim g (ls p)")
      case (Inl err)
      with inv Confirm Some show ?thesis
        by (auto simp: confirm_def frame_simps intro: ph_inv_same)
    next
      case (Inr r)
      then obtain g' st' t where r: "handleConfirmClaim g (ls p) = Inr (g', st', t)"
        by (metis prod_cases3)
      with handleConfirmClaim_ph [OF xs ph r] inv Confirm Some show ?thesis
        by (auto simp: confirm_def ph_inv_def frame_simps)
    qed
  qed
qed (auto simp: unmount_def ph_inv_def publish_def click_card_def resolve_delete_def frame_simps
        dest: handleConfirmClaim_resume_cont intro: ph_inv_same split: option.splits json.splits list.splits fetch_state.splits prod.splits)


lemma reachable_run: "reachable p \<Longrightarrow> reachable (page_run p es)"
  by (induction es arbitrary: p) (simp_all add: reachable_step)

lemma ph_inv_init: "getClaimedPlaceholderIds st = JArr xs \<Longrightarrow> ph_inv (init_page d st)"
  by (simp add: ph_inv_def init_page_def)

text \<open>
  Claim C4. In every reachable page (any events, in any order, including failed mounts and
  quota errors, from local storage holding an array of claimed ids) local storage still
  holds an array, and a mounted grid shows exactly the seed placeholders whose id it lacks.
\<close>

theorem reachable_ph_inv: "reachable p \<Longrightarrow> ph_inv p"
proof (induction rule: reachable.induct)
  case (reachable_init st xs d)
  then show ?case by (blast intro: ph_inv_init)
next
  case (reachable_step p e)
  then show ?case by (blast intro: ph_inv_step)
qed

theorem reachable_ph_inv_witness:
  "reachable (page_run (init_page example_db example_storage) example_events) \<and>
   ph_inv (page_run (init_page example_db example_storage) example_events)"
proof -
  have r: "reachable (page_run (init_page example_db example_storage) example_events)"
    by (rule reachable_run [OF reachable_init [OF getClaimedPlaceholderIds_example example_db_wf]])
  show ?thesis using reachable_ph_inv [OF r] r by blast
qed

lemma reachable_induct_inv:
  assumes "reachable p"
    and "\<And>st xs d. getClaimedPlaceholderIds st = JArr xs \<Longrightarrow> db_wf d \<Longrightarrow> P (init_page d st)"
    and "\<And>p e. P p \<Longrightarrow> P (page_step p e)"
  shows "P p"
  using assms by (induction rule: reachable.induct) blast+

lemma card_onClaim_target: "\<exists>t. claimTarget (card_onClaim c g) = Some t"
  and card_onClaim_success: "successOpen (card_onClaim c g) = successOpen g"
  by (cases c; simp add: handleClaimAttempt_def)+

lemma dialog_inv_confirm:
  assumes "dialog_inv p"
  shows "dialog_inv (confirm p)"
proof (cases "grid p")
  case (Some g)
  show ?thesis
  proof (cases "handleConfirmClaim g (ls p)")
    case (Inl err)
    with assms Some show ?thesis by (simp add: confirm_def dialog_inv_def setConfirmOpen_def)
  next
    case (Inr r)
    then obtain g' st' t where "handleConfirmClaim g (ls p) = Inr (g', st', t)" by (metis prod_cases3)
    with assms Some show ?thesis by (auto simp: confirm_def dialog_inv_def setConfirmOpen_def)
  qed
qed (use assms in \<open>simp add: confirm_def\<close>)

lemma dialog_inv_step: "dialog_inv p \<Longrightarrow> dialog_inv (page_step p e)"
proof (cases e)
  case Confirm
  assume "dialog_inv p"
  with Confirm show ?thesis by (simp add: dialog_inv_confirm)
qed (auto simp: dialog_inv_def mount_def unmount_def grid_init_def click_card_def resolve_delete_def publish_def
       card_onClaim_success handleSuccessClose_def setConfirmOpen_def frame_simps
       intro: card_onClaim_target dest: handleConfirmClaim_resume_cont
       split: option.splits sum.splits list.splits fetch_state.splits prod.splits card.splits if_splits)

text \<open>
  Claim C11. In every reachable page the two dialogs of a mounted grid are never open
  together, and the confirmation dialog is open only with a claim target, so its question
  always names the item the user clicked: every handler that opens one dialog closes the
  other, including the continuation of a delete that resolves while another card's
  confirmation is open.
\<close>

theorem reachable_dialogs:
  "reachable p \<Longrightarrow> grid p = Some g \<Longrightarrow>
   \<not> (confirmOpen g \<and> successOpen g) \<and> (confirmOpen g \<longrightarrow> claimTarget g \<noteq> None)"
  using reachable_induct_inv [of p dialog_inv] dialog_inv_step
  by (fastforce simp: dialog_inv_def init_page_def)

theorem reachable_dialogs_witness:
  "let p = page_step example_page (ClickCard 0); g = the (grid p) in
   reachable p \<and> grid p = Some g \<and> confirmOpen g \<and>
   \<not> (confirmOpen g \<and> successOpen g) \<and> (confirmOpen g \<longrightarrow> claimTarget g \<noteq> None)"
proof -
  let ?p = "page_step example_page (ClickCard 0)"
  have r: "reachable ?p" unfolding example_page_def
    by (rule reachable_step [OF reachable_run [OF reachable_init [OF getClaimedPlaceholderIds_example example_db_wf]]])
  have g: "grid ?p = Some (the (grid ?p))" "confirmOpen (the (grid ?p))"
    by (simp_all add: example_page_def page_eval click_card_def grid_cards_def INITIAL_PLACEHOLDER_ITEMS_def
        split: option.splits)
  show ?thesis unfolding Let_def using reachable_dialogs [OF r g(1)] r g by blast
qed

text \<open>
  Claim C16. Opening the confirmation dialog on any card and cancelling it leaves the donated
  rows, the placeholders, the table, local storage, the subscription and the requests in
  flight unchanged, and closes the dialog.
\<close>

theorem cancel_keeps_items:
  assumes "grid p = Some g"
  shows "let p2 = page_run p [ClickCard i, Cancel]
         in \<exists>g2. grid p2 = Some g2 \<and> donatedItems g2 = donatedItems g \<and>
                 placeholderItems g2 = placeholderItems g \<and> \<not> confirmOpen g2 \<and>
                 successOpen g2 = successOpen g \<and> db p2 = db p \<and> ls p2 = ls p \<and>
                 chan p2 = chan p \<and> inflight p2 = inflight p"
  using assms
  by (auto simp: click_card_def frame_simps split: option.splits)

theorem cancel_keeps_items_witness:
  "let g = the (grid example_page); p2 = page_run example_page [ClickCard 0, Cancel]
   in grid example_page = Some g \<and>
      (\<exists>g2. grid p2 = Some g2 \<and> donatedItems g2 = donatedItems g \<and>
             placeholderItems g2 = placeholderItems g \<and> \<not> confirmOpen g2 \<and>
             successOpen g2 = successOpen g \<and> db p2 = db example_page \<and> ls p2 = ls example_page \<and>
             chan p2 = chan example_page \<and> inflight p2 = inflight example_page)"
proof -
  have g: "grid example_page = Some (the (grid example_page))"
    by (simp add: example_page_def page_eval)
  show ?thesis using cancel_keeps_items [OF g, of 0] g by (simp add: Let_def)
qed

text \<open>
  Claim C17. When the delete of a claimed donated item fails, the success dialog still opens
  and reveals the donor's email, the row stays in the table and on the grid, and no error
  reaches the user: \<open>handleConfirmClaim\<close> ignores the \<open>false\<close> returned by
  \<open>deleteDonatedItemFromDB\<close>.
\<close>

theorem claim_donated_delete_fails:
  assumes inv: "sync_inv p" and g: "grid p = Some g" and fd: "fetch p = FetchDone"
    and q: "chan p = Some []" and fl: "inflight p = []"
    and dlg: "\<not> confirmOpen g" "\<not> successOpen g" and i: "i < length (donatedItems g)"
  shows "let p' = settle (page_run p [ClickCard i, Confirm, ResolveDelete 0 (NetErr e)])
         in \<exists>g'. grid p' = Some g' \<and> donatedItems g' = donatedItems g \<and> db p' = db p \<and>
              successOpen g' \<and> success_contactEmail g' = row_contact_email (donatedItems g ! i) \<and>
              uncaught p' = uncaught p"
proof -
  have ld: "\<not> isLoading g" using sync_inv_settled [OF inv g fd q] by simp
  show ?thesis
    using g q fl fd dlg ld i
    by (simp add: Let_def settle_def click_card_donated confirm_def handleConfirmClaim_def
        handleClaimAttempt_def setConfirmOpen_def resolve_delete_def handleConfirmClaim_resume_def
        deleteDonatedItemFromDB_NetErr publish_def success_contactEmail_def)
qed


theorem claim_donated_delete_fails_witness:
  "let p = example_page; g = the (grid p);
       p' = settle (page_run p [ClickCard 0, Confirm, ResolveDelete 0 (NetErr ''offline'')])
   in \<exists>g'. grid p' = Some g' \<and> donatedItems g' = donatedItems g \<and> db p' = db p \<and>
        successOpen g' \<and> success_contactEmail g' = row_contact_email (donatedItems g ! 0) \<and>
        uncaught p' = uncaught p"
  unfolding Let_def
  by (rule claim_donated_delete_fails [OF example_page_sync, unfolded Let_def])
     (simp_all add: example_page_def page_eval sb_select_desc_def db_ops_defs example_db_def)

text \<open>
  Claim C18. While the delete of a claimed row is in flight, the cards are clickable again;
  if the user opens the dialog on another card, the resolution of the first delete removes
  the first row but opens the success dialog with the other card's email, although that
  row was never claimed and stays in the table.
\<close>

theorem claim_shows_other_email:
  assumes inv: "sync_inv p" and g: "grid p = Some g" and fd: "fetch p = FetchDone"
    and q: "chan p = Some []" and fl: "inflight p = []"
    and dlg: "\<not> confirmOpen g" "\<not> successOpen g" and i: "i < length (donatedItems g)"
    and k: "k < length (donatedItems g)" and ne: "row_id (donatedItems g ! k) \<noteq> row_id (donatedItems g ! i)"
  shows "let p' = page_run p [ClickCard i, Confirm, ClickCard k, ResolveDelete 0 NetOk, Deliver]
         in \<exists>g'. grid p' = Some g' \<and> successOpen g' \<and> \<not> confirmOpen g' \<and>
              success_contactEmail g' = row_contact_email (donatedItems g ! k) \<and>
              donatedItems g ! k \<in> set (sb_select_desc (db p')) \<and>
              donatedItems g' = filter (\<lambda>r. row_id r \<noteq> row_id (donatedItems g ! i)) (donatedItems g)"
proof -
  let ?r = "donatedItems g ! i"
  have sel: "donatedItems g = sb_select_desc (db p)" and ld: "\<not> isLoading g"
    using sync_inv_settled [OF inv g fd q] by simp_all
  have wf: "db_wf (db p)" using inv by (rule sync_inv_db_wf)
  have mem: "?r \<in> set (sb_select_desc (db p))" using i sel by (metis nth_mem)
  have memk: "donatedItems g ! k \<in> set (sb_select_desc (db p))" using k sel by (metis nth_mem)
  let ?g1 = "setConfirmOpen False (handleClaimAttempt Donated (row_id ?r) (row_name ?r) (row_contact_email ?r) g)"
  have c1: "page_run p [ClickCard i, Confirm] =
      p\<lparr>grid := Some ?g1, inflight := [(inst p, \<lparr>ct_type = Donated, ct_id = row_id ?r, ct_name = row_name ?r,
          ct_email = row_contact_email ?r\<rparr>)]\<rparr>"
    using g fl dlg ld i
    by (simp add: click_card_donated confirm_def handleConfirmClaim_def handleClaimAttempt_def)
  have g1: "grid (page_run p [ClickCard i, Confirm]) = Some ?g1" using c1 by simp
  have d1: "donatedItems ?g1 = donatedItems g" by (simp add: frame_simps)
  have c2: "click_card k (page_run p [ClickCard i, Confirm]) =
      (page_run p [ClickCard i, Confirm])\<lparr>grid := Some (handleClaimAttempt Donated (row_id (donatedItems g ! k))
         (row_name (donatedItems g ! k)) (row_contact_email (donatedItems g ! k)) ?g1)\<rparr>"
    using click_card_donated [OF g1] ld k dlg by (simp add: d1 frame_simps handleClaimAttempt_def)
  show ?thesis
    using c1 c2 q ne memk
    by (simp add: resolve_delete_def handleConfirmClaim_resume_def delete_present [OF wf mem]
        publish_def grid_onChange_def grid_onDelete_def success_contactEmail_def handleClaimAttempt_def
        setConfirmOpen_def sb_select_desc_delete)
qed


theorem claim_shows_other_email_witness:
  "let p = example_page; g = the (grid p);
       p' = page_run p [ClickCard 0, Confirm, ClickCard 1, ResolveDelete 0 NetOk, Deliver]
   in \<exists>g'. grid p' = Some g' \<and> successOpen g' \<and> \<not> confirmOpen g' \<and>
        success_contactEmail g' = row_contact_email (donatedItems g ! 1) \<and>
        donatedItems g ! 1 \<in> set (sb_select_desc (db p')) \<and>
        donatedItems g' = filter (\<lambda>r. row_id r \<noteq> row_id (donatedItems g ! 0)) (donatedItems g)"
  unfolding Let_def
  by (rule claim_shows_other_email [OF example_page_sync, unfolded Let_def])
     (simp_all add: example_page_def page_eval sb_select_desc_def db_ops_defs example_db_def db_empty_def)

text \<open>
  Claim C20. On any page in sync whose initial select is pending, a row inserted before
  the select is served is both in the select and in the notification queue: once the
  network settles the grid shows the new row twice, although the table holds it once.
\<close>

theorem fetch_race_duplicate:
  assumes inv: "sync_inv p" and g: "grid p = Some g" and fp: "fetch p = FetchPending"
  shows "let p' = settle (page_run p [RemoteSave i, ServeFetch NetOk])
         in sb_select_desc (db p') = new_row i (db p) # sb_select_desc (db p) \<and>
            (\<exists>g'. grid p' = Some g' \<and> donatedItems g' = new_row i (db p) # sb_select_desc (db p'))"
proof -
  have q: "chan p = Some []" and wf: "db_wf (db p)" using sync_inv_pending [OF inv g fp] by simp_all
  show ?thesis
    using g fp q sb_select_desc_insert [OF wf, of i]
    by (simp add: Let_def settle_def saveDonatedItemToDB_NetOk publish_def getDonatedItemsFromDB_def
        grid_fetchDone_def grid_onChange_def grid_onInsert_def sb_insert_def)
qed

theorem fetch_race_duplicate_witness:
  "let p' = settle (page_run mounted_page [RemoteSave example_insert, ServeFetch NetOk])
   in sb_select_desc (db p') = new_row example_insert (db mounted_page) # sb_select_desc (db mounted_page) \<and>
      (\<exists>g'. grid p' = Some g' \<and> donatedItems g' = new_row example_insert (db mounted_page) # sb_select_desc (db p'))"
  using fetch_race_duplicate [of mounted_page "the (grid mounted_page)" example_insert] mounted_page_facts
  by simp

text \<open>
  Claim C21. On any page in sync whose initial select is pending, a row inserted after the
  select is served and notified before the response arrives is overwritten by the
  response: once the network settles the grid misses the new row the table holds.
\<close>

theorem fetch_race_lost:
  assumes inv: "sync_inv p" and g: "grid p = Some g" and fp: "fetch p = FetchPending"
  shows "let p' = settle (page_run p [ServeFetch NetOk, RemoteSave i, Deliver])
         in sb_select_desc (db p') = new_row i (db p) # sb_select_desc (db p) \<and>
            (\<exists>g'. grid p' = Some g' \<and> donatedItems g' = sb_select_desc (db p))"
proof -
  have q: "chan p = Some []" and wf: "db_wf (db p)" using sync_inv_pending [OF inv g fp] by simp_all
  show ?thesis
    using g fp q sb_select_desc_insert [OF wf, of i]
    by (simp add: Let_def settle_def saveDonatedItemToDB_NetOk publish_def getDonatedItemsFromDB_def
        grid_fetchDone_def grid_onChange_def grid_onInsert_def sb_insert_def)
qed

theorem fetch_race_lost_witness:
  "let p' = settle (page_run mounted_page [ServeFetch NetOk, RemoteSave example_insert, Deliver])
   in sb_select_desc (db p') = new_row example_insert (db mounted_page) # sb_select_desc (db mounted_page) \<and>
      (\<exists>g'. grid p' = Some g' \<and> donatedItems g' = sb_select_desc (db mounted_page))"
  using fetch_race_lost [of mounted_page "the (grid mounted_page)" example_insert] mounted_page_facts
  by simp

text \<open>
  Claim C22. When local storage holds under \<open>CLAIMED_PLACEHOLDERS_KEY\<close> a value that
  parses to neither an array nor a string (\<open>null\<close>, a number, a boolean, an object), the
  placeholder initialiser of \<open>ItemGrid\<close> throws a \<open>TypeError\<close> from \<open>includes\<close> and the grid
  does not mount.
\<close>

theorem mount_stored_non_array:
  assumes "getClaimedPlaceholderIds st = v" and "\<forall>xs. v \<noteq> JArr xs" and "\<forall>s. v \<noteq> JStr s"
    and "grid p = None" and "ls p = st"
  shows "grid (page_step p Mount) = None \<and> uncaught (page_step p Mount) = uncaught p @ [TypeError]"
  using assms js_includes_other [OF assms(2,3)]
  by (simp add: mount_def grid_init_def INITIAL_PLACEHOLDER_ITEMS_def)

theorem mount_stored_non_array_witness:
  "let st = \<lparr>ls_items = [(CLAIMED_PLACEHOLDERS_KEY, ''null'')], ls_quota = 5242880\<rparr>; p = init_page example_db st in
   getClaimedPlaceholderIds st = JNull \<and> (\<forall>xs. JNull \<noteq> JArr xs) \<and> (\<forall>s. JNull \<noteq> JStr s) \<and>
   grid p = None \<and> ls p = st \<and>
   grid (page_step p Mount) = None \<and> uncaught (page_step p Mount) = uncaught p @ [TypeError]"
proof -
  let ?st = "\<lparr>ls_items = [(CLAIMED_PLACEHOLDERS_KEY, ''null'')], ls_quota = 5242880\<rparr>"
  have g: "getClaimedPlaceholderIds ?st = JNull"
    by (simp add: getClaimedPlaceholderIds_def getItem_def json_parse_null)
  show ?thesis
    using mount_stored_non_array [OF g _ _, of "init_page example_db ?st"] g
    by (simp add: Let_def init_page_def)
qed

text \<open>
  Claim C19. When another client removes a row after the user confirmed its claim but
  before the user's delete resolves, the user's delete finds nothing to remove and still
  reports success: the success dialog reveals the donor's email for an item already
  claimed by someone else, and the table holds the other rows only once.
\<close>

theorem claim_already_taken:
  assumes inv: "sync_inv p" and g: "grid p = Some g" and fd: "fetch p = FetchDone"
    and q: "chan p = Some []" and fl: "inflight p = []"
    and dlg: "\<not> confirmOpen g" "\<not> successOpen g" and i: "i < length (donatedItems g)"
  shows "let r = donatedItems g ! i;
             p' = settle (page_run p [ClickCard i, Confirm, RemoteDelete (row_id r), ResolveDelete 0 NetOk])
         in \<exists>g'. grid p' = Some g' \<and> successOpen g' \<and> success_contactEmail g' = row_contact_email r \<and>
              sb_select_desc (db p') = filter (\<lambda>x. row_id x \<noteq> row_id r) (sb_select_desc (db p)) \<and>
              donatedItems g' = sb_select_desc (db p')"
proof -
  let ?r = "donatedItems g ! i"
  have sel: "donatedItems g = sb_select_desc (db p)" and ld: "\<not> isLoading g"
    using sync_inv_settled [OF inv g fd q] by simp_all
  have wf: "db_wf (db p)" using inv by (rule sync_inv_db_wf)
  have mem: "?r \<in> set (sb_select_desc (db p))" using i sel by (metis nth_mem)
  let ?d1 = "snd (sb_delete_eq (row_id ?r) (db p))"
  have wf1: "db_wf ?d1" using wf by (rule sb_delete_eq_wf)
  have gone: "row_id ?r \<notin> row_id ` set (sb_select_desc ?d1)"
    by (auto simp: sb_select_desc_delete)
  note absent = delete_absent [OF wf1 gone]
  show ?thesis
    using g q fl fd dlg ld i absent
    by (simp add: Let_def settle_def click_card_donated confirm_def handleConfirmClaim_def
        handleClaimAttempt_def setConfirmOpen_def resolve_delete_def handleConfirmClaim_resume_def
        delete_present [OF wf mem] publish_def grid_onChange_def grid_onDelete_def
        success_contactEmail_def sb_select_desc_delete sel [symmetric])
qed

theorem claim_already_taken_witness:
  "let p = example_page; g = the (grid p); r = donatedItems g ! 0;
       p' = settle (page_run p [ClickCard 0, Confirm, RemoteDelete (row_id r), ResolveDelete 0 NetOk])
   in \<exists>g'. grid p' = Some g' \<and> successOpen g' \<and> success_contactEmail g' = row_contact_email r \<and>
        sb_select_desc (db p') = filter (\<lambda>x. row_id x \<noteq> row_id r) (sb_select_desc (db p)) \<and>
        donatedItems g' = sb_select_desc (db p')"
  unfolding Let_def
  by (rule claim_already_taken [OF example_page_sync, unfolded Let_def])
     (simp_all add: example_page_def page_eval sb_select_desc_def db_ops_defs example_db_def)

text \<open>
  Claim C5. The two pools never cross: in every step, local storage changes only when a
  placeholder claim is confirmed, the table changes only by another client's write or by the
  resolution of the delete of a donated item, and every request in flight stays such a delete.
\<close>

theorem pools_separate:
  assumes "inflight_donated p"
  shows "inflight_donated (page_step p e) \<and>
    (ls (page_step p e) \<noteq> ls p \<longrightarrow>
       e = Confirm \<and> (\<exists>g c. grid p = Some g \<and> claimTarget g = Some c \<and> ct_type c = Placeholder)) \<and>
    (db (page_step p e) \<noteq> db p \<longrightarrow>
       (\<exists>i. e = RemoteSave i) \<or> (\<exists>x. e = RemoteDelete x) \<or>
       (\<exists>i n k t. e = ResolveDelete i n \<and> i < length (inflight p) \<and> inflight p ! i = (k, t) \<and>
                  ct_type t = Donated))"
proof (cases e)
  case Confirm
  show ?thesis
  proof (cases "grid p")
    case (Some g)
    show ?thesis
    proof (cases "handleConfirmClaim g (ls p)")
      case (Inl err)
      with assms Confirm Some show ?thesis by (auto simp: confirm_def inflight_donated_def)
    next
      case (Inr r)
      then obtain g' st' t where r: "handleConfirmClaim g (ls p) = Inr (g', st', t)"
        by (metis prod_cases3)
      with assms Confirm Some show ?thesis
        by (cases t) (auto simp: confirm_def inflight_donated_def dest: handleConfirmClaim_target
            handleConfirmClaim_storage)
    qed
  qed (use assms Confirm in \<open>simp add: confirm_def\<close>)
next
  case (ResolveDelete i n)
  with assms show ?thesis
    by (auto simp: resolve_delete_def publish_def inflight_donated_def list_all_iff
        split: prod.splits dest: in_set_takeD in_set_dropD) (metis nth_mem)
qed (use assms in \<open>auto simp: mount_def unmount_def click_card_def publish_def inflight_donated_def
       split: option.splits sum.splits prod.splits list.splits fetch_state.splits\<close>)


theorem pools_separate_witness:
  "let p = page_step example_page (ClickCard 0); e = Confirm in
   inflight_donated p \<and>
   inflight_donated (page_step p e) \<and>
    (ls (page_step p e) \<noteq> ls p \<longrightarrow>
       e = Confirm \<and> (\<exists>g c. grid p = Some g \<and> claimTarget g = Some c \<and> ct_type c = Placeholder)) \<and>
    (db (page_step p e) \<noteq> db p \<longrightarrow>
       (\<exists>i. e = RemoteSave i) \<or> (\<exists>x. e = RemoteDelete x) \<or>
       (\<exists>i n k t. e = ResolveDelete i n \<and> i < length (inflight p) \<and> inflight p ! i = (k, t) \<and>
                  ct_type t = Donated))"
proof -
  have h: "inflight_donated (page_step example_page (ClickCard 0))"
    by (simp add: inflight_donated_def example_page_def page_eval click_card_def split: option.splits)
  show ?thesis unfolding Let_def using pools_separate [OF h, of Confirm] h by blast
qed

end
