(* ===== verification/Quiesce.thy ===== *)
theory Quiesce
  imports Page
begin

text \<open>
  The network catching up with the home page. \<open>quiesce\<close> plays the environment of
  theory \<open>Page\<close> as the backend and the realtime service would if no user or other client
  acted: it serves and delivers the pending select of \<open>fetchItems\<close>
  (\<open>src/src/components/ItemGrid.tsx\<close>), resolves the oldest delete in flight
  successfully (the \<open>await deleteDonatedItemFromDB\<close> of \<open>handleConfirmClaim\<close>), and
  hands each queued notification to the grid's callbacks. It is a total function whose
  termination is proved by a lexicographic measure (the stage of the select, the deletes in
  flight, the notifications queued); a resolved delete may queue new notifications, which
  the measure allows because it decreases the deletes in flight first. \<open>quiesce\<close> is the
  proof device of \<open>quiesce_refines_table\<close>: it is a clean run of network events reaching a
  quiet page, and the quiet page reached after any clean run shows the table with every
  confirmed claim applied.
\<close>

section \<open>The catch-up loop\<close>

text \<open>How far the select of \<open>fetchItems\<close> still has to go, and the notifications queued.\<close>

definition fetch_rank :: "fetch_state \<Rightarrow> nat" where
  "fetch_rank f = (case f of FetchPending \<Rightarrow> 2 | FetchServed rows \<Rightarrow> 1 | _ \<Rightarrow> 0)"

definition queue_len :: "page \<Rightarrow> nat" where
  "queue_len p = (case chan p of None \<Rightarrow> 0 | Some q \<Rightarrow> length q)"

text \<open>A page is quiet when no request is in flight and no notification waits.\<close>

definition quiet :: "page \<Rightarrow> bool" where
  "quiet p \<longleftrightarrow> inflight p = [] \<and> queue_len p = 0 \<and> (fetch p = FetchIdle \<or> fetch p = FetchDone)"

text \<open>The events the network produces on its own, each succeeding.\<close>

definition network_event :: "event \<Rightarrow> bool" where
  "network_event e \<longleftrightarrow> e = ServeFetch NetOk \<or> e = DeliverFetch \<or> e = ResolveDelete 0 NetOk \<or> e = Deliver"

text \<open>Loading the home page, then claiming the second card and confirming.\<close>

definition claim_events :: "event list" where
  "claim_events = [Mount, ServeFetch NetOk, DeliverFetch, ClickCard 1, Confirm]"

definition quiesce_measure :: "(page \<times> page) set" where
  "quiesce_measure = measures [\<lambda>p. fetch_rank (fetch p), \<lambda>p. length (inflight p), queue_len]"

function quiesce :: "page \<Rightarrow> page" where
  "quiesce p =
     (case fetch p of
        FetchPending \<Rightarrow> quiesce (page_step p (ServeFetch NetOk))
      | FetchServed rows \<Rightarrow> quiesce (page_step p DeliverFetch)
      | _ \<Rightarrow>
          if inflight p \<noteq> [] then quiesce (page_step p (ResolveDelete 0 NetOk))
          else if queue_len p \<noteq> 0 then quiesce (page_step p Deliver)
          else p)"
  by pat_completeness auto

termination
  by (relation quiesce_measure)
     (auto simp: quiesce_measure_def fetch_rank_def queue_len_def resolve_delete_def publish_def
        split: option.splits list.splits prod.splits)

text \<open>The ids the table holds and the ids of the items whose delete is in flight.\<close>

definition table_ids :: "page \<Rightarrow> item_id set" where
  "table_ids p = row_id ` set (sb_select_desc (db p))"

definition pending_ids :: "page \<Rightarrow> item_id set" where
  "pending_ids p = (ct_id \<circ> snd) ` set (inflight p)"

declare quiesce.simps [simp del]

section \<open>Lemmas\<close>

lemma quiesce_quiet: "quiet p \<Longrightarrow> quiesce p = p"
  by (auto simp: quiet_def quiesce.simps [of p])

lemma quiesce_next:
  assumes "\<not> quiet p"
  obtains e where "network_event e" "clean p e" "quiesce p = quiesce (page_step p e)"
    "(page_step p e, p) \<in> quiesce_measure"
proof -
  note q = quiesce.simps [of p]
  consider (pend) "fetch p = FetchPending" | (served) rows where "fetch p = FetchServed rows"
    | (res) "fetch p = FetchIdle \<or> fetch p = FetchDone" "inflight p \<noteq> []"
    | (del) "fetch p = FetchIdle \<or> fetch p = FetchDone" "inflight p = []" "queue_len p \<noteq> 0"
    using assms by (cases "fetch p") (auto simp: quiet_def)
  then show ?thesis
  proof cases
    case pend
    then show ?thesis using q
      by (intro that [of "ServeFetch NetOk"]) (simp_all add: network_event_def quiesce_measure_def fetch_rank_def)
  next
    case served
    then show ?thesis using q
      by (intro that [of DeliverFetch]) (simp_all add: network_event_def quiesce_measure_def fetch_rank_def)
  next
    case res
    then show ?thesis using q
      by (intro that [of "ResolveDelete 0 NetOk"])
        (auto simp: network_event_def quiesce_measure_def fetch_rank_def resolve_delete_def publish_def
          split: prod.splits)
  next
    case del
    then show ?thesis using q
      by (intro that [of Deliver])
        (auto simp: network_event_def quiesce_measure_def fetch_rank_def queue_len_def
          split: option.splits list.splits)
  qed
qed

lemma quiesce_steps:
  "\<exists>es. quiesce p = page_run p es \<and> clean_run p es \<and> list_all network_event es \<and> quiet (quiesce p)"
proof (induction p rule: wf_induct [OF wf_measures [of "[\<lambda>p. fetch_rank (fetch p), \<lambda>p. length (inflight p), queue_len]", folded quiesce_measure_def]])
  case (1 p)
  show ?case
  proof (cases "quiet p")
    case True
    then show ?thesis by (intro exI [of _ "[]"]) (simp add: quiesce_quiet)
  next
    case False
    then obtain e where e: "network_event e" "clean p e" "quiesce p = quiesce (page_step p e)"
      "(page_step p e, p) \<in> quiesce_measure" by (rule quiesce_next)
    with 1 obtain es where "quiesce (page_step p e) = page_run (page_step p e) es"
      "clean_run (page_step p e) es" "list_all network_event es" "quiet (quiesce (page_step p e))" by blast
    with e show ?thesis by (intro exI [of _ "e # es"]) (simp del: page_step.simps)
  qed
qed

lemma resolve_delete_head:
  "inflight p = (k, t) # rest \<Longrightarrow>
   db (resolve_delete 0 NetOk p) = snd (sb_delete_eq (ct_id t) (db p)) \<and> inflight (resolve_delete 0 NetOk p) = rest"
  by (simp add: resolve_delete_def handleConfirmClaim_resume_def deleteDonatedItemFromDB_def publish_def
      split: prod.split)

lemma network_step_frame:
  "network_event e \<Longrightarrow> \<not> (e = ResolveDelete 0 NetOk \<and> inflight p \<noteq> []) \<Longrightarrow>
   db (page_step p e) = db p \<and> inflight (page_step p e) = inflight p"
  by (auto simp: network_event_def resolve_delete_def split: option.splits list.splits fetch_state.splits)

lemma network_step_ids:
  assumes "network_event e"
  shows "table_ids (page_step p e) \<subseteq> table_ids p \<and> table_ids (page_step p e) \<inter> pending_ids p \<subseteq> pending_ids (page_step p e)"
proof (cases "e = ResolveDelete 0 NetOk \<and> inflight p \<noteq> []")
  case True
  then obtain k t rest where "inflight p = (k, t) # rest" by (auto simp: neq_Nil_conv)
  with True show ?thesis
    by (auto simp: table_ids_def pending_ids_def resolve_delete_head sb_select_desc_delete)
next
  case False
  with network_step_frame [OF assms] show ?thesis by (simp add: table_ids_def pending_ids_def)
qed

lemma network_run_ids:
  "list_all network_event es \<Longrightarrow>
   table_ids (page_run p es) \<subseteq> table_ids p \<and> table_ids (page_run p es) \<inter> pending_ids p \<subseteq> pending_ids (page_run p es)"
proof (induction es arbitrary: p)
  case Nil
  then show ?case by simp
next
  case (Cons e es)
  then have "table_ids (page_run (page_step p e) es) \<subseteq> table_ids (page_step p e)"
    "table_ids (page_run (page_step p e) es) \<inter> pending_ids (page_step p e) \<subseteq> pending_ids (page_run (page_step p e) es)"
    by simp_all
  with network_step_ids [of e p] Cons.prems show ?case by auto
qed

lemma network_step_grid: "network_event e \<Longrightarrow> (grid (page_step p e) = None) = (grid p = None)"
  by (auto simp: network_event_def resolve_delete_def publish_def
      split: option.splits list.splits fetch_state.splits prod.splits if_splits)

lemma network_run_grid: "list_all network_event es \<Longrightarrow> (grid (page_run p es) = None) = (grid p = None)"
  by (induction es arbitrary: p) (simp_all add: network_step_grid)

lemma quiet_sync:
  "sync_inv p \<Longrightarrow> quiet p \<Longrightarrow> grid p = Some g \<Longrightarrow> donatedItems g = sb_select_desc (db p) \<and> \<not> isLoading g"
  by (auto simp: sync_inv_def quiet_def queue_len_def split: option.splits)

section \<open>The refinement of the quiet page\<close>

text \<open>
  Claim C9. After any clean run from a well-formed table, once the network has caught up
  completely (\<open>quiesce\<close>), the mounted grid shows exactly the table's rows newest first,
  without the spinner, and none of the donated items whose claim was in flight at the
  end of the run: every claim that was confirmed takes effect on the grid.
\<close>

theorem quiesce_refines_table:
  assumes "db_wf d" and "clean_run (init_page d st) es"
    and "grid (quiesce (page_run (init_page d st) es)) = Some g"
  shows "donatedItems g = sb_select_desc (db (quiesce (page_run (init_page d st) es))) \<and> \<not> isLoading g \<and>
         (\<forall>(k, t) \<in> set (inflight (page_run (init_page d st) es)). ct_id t \<notin> row_id ` set (donatedItems g))"
proof -
  let ?p = "page_run (init_page d st) es"
  obtain fs where q: "quiesce ?p = page_run ?p fs" "clean_run ?p fs" "list_all network_event fs" "quiet (quiesce ?p)"
    using quiesce_steps [of ?p] by blast
  have "sync_inv ?p" using sync_inv_run [OF sync_inv_init [OF assms(1)] assms(2)] .
  then have "sync_inv (quiesce ?p)" using q(1,2) by (simp add: sync_inv_run)
  then have sel: "donatedItems g = sb_select_desc (db (quiesce ?p)) \<and> \<not> isLoading g"
    using quiet_sync q(4) assms(3) by blast
  have "table_ids (quiesce ?p) \<inter> pending_ids ?p \<subseteq> pending_ids (quiesce ?p)"
    using network_run_ids [OF q(3), of ?p] q(1) by simp
  moreover have "pending_ids (quiesce ?p) = {}" using q(4) by (simp add: quiet_def pending_ids_def)
  ultimately have "\<forall>(k, t) \<in> set (inflight ?p). ct_id t \<notin> row_id ` set (sb_select_desc (db (quiesce ?p)))"
    unfolding table_ids_def pending_ids_def disjoint_iff by force
  then show ?thesis using sel by simp
qed

theorem quiesce_refines_table_witness:
  "let p = page_run (init_page example_db example_storage) claim_events in
   inflight p \<noteq> [] \<and>
   (\<exists>g. grid (quiesce p) = Some g \<and> donatedItems g = sb_select_desc (db (quiesce p)) \<and> \<not> isLoading g \<and>
        (\<forall>(k, t) \<in> set (inflight p). ct_id t \<notin> row_id ` set (donatedItems g)))"
proof -
  let ?p = "page_run (init_page example_db example_storage) claim_events"
  have c: "clean_run (init_page example_db example_storage) claim_events"
    by (simp add: claim_events_def)
  let ?g = "the (grid example_page)"
  have e: "grid example_page = Some ?g" "\<not> isLoading ?g" "1 < length (donatedItems ?g)"
    "\<not> confirmOpen ?g" "\<not> successOpen ?g"
    by (simp_all add: example_page_def page_eval sb_select_desc_def db_ops_defs example_db_def)
  have p: "?p = page_run example_page [ClickCard 1, Confirm]"
    by (simp add: claim_events_def example_page_def)
  have fl: "inflight ?p \<noteq> []" and gp: "grid ?p \<noteq> None"
    unfolding p using e
    by (simp_all add: click_card_donated confirm_def handleConfirmClaim_def handleClaimAttempt_def
        setConfirmOpen_def)
  obtain fs where "quiesce ?p = page_run ?p fs" "list_all network_event fs"
    using quiesce_steps [of ?p] by blast
  then obtain g where g: "grid (quiesce ?p) = Some g" using gp network_run_grid [of fs ?p] by auto
  show ?thesis unfolding Let_def using quiesce_refines_table [OF example_db_wf c g] fl g by blast
qed

end
