(* ===== verification/View.thy ===== *)
theory View
  imports Prelude
begin

text \<open>
  What a rendered React tree shows, kept to what a user sees and can activate: text runs,
  headings, badges, images with their alternative text, links with their target, buttons
  with their disabled flag, form controls with the value they display, the loading
  spinner, dialogs, and elements that carry an \<open>id\<close> (the targets of fragment links).
  Styling, layout and icons are dropped; a container without an \<open>id\<close> is a \<open>Group\<close>,
  a \<open>Link\<close> carries whether it is highlighted, an \<open>Input\<close> its id, value and
  placeholder, a \<open>Select\<close> its value, placeholder and options, a \<open>FileInput\<close> its id
  and \<open>accept\<close> filter.
  Characters outside ASCII (the copyright sign, the New badge) are written as the UTF-8
  bytes the source file holds. The functions below read a tree in document order: its
  headings and the messages shown in the error style.
\<close>

datatype node =
    Text string
  | Heading string
  | Badge string
  | ErrorText string
  | Img string string
  | Link string bool "node list"
  | Button bool "node list"
  | Input string string string
  | Select string string "string list"
  | FileInput string string
  | Spinner
  | Dialog "node list"
  | Section string "node list"
  | Group "node list"

fun headings :: "node \<Rightarrow> string list" where
  "headings (Heading s) = [s]"
| "headings (Link t b ns) = concat (map headings ns)"
| "headings (Button d ns) = concat (map headings ns)"
| "headings (Dialog ns) = concat (map headings ns)"
| "headings (Section i ns) = concat (map headings ns)"
| "headings (Group ns) = concat (map headings ns)"
| "headings _ = []"

fun error_texts :: "node \<Rightarrow> string list" where
  "error_texts (ErrorText s) = [s]"
| "error_texts (Link t b ns) = concat (map error_texts ns)"
| "error_texts (Button d ns) = concat (map error_texts ns)"
| "error_texts (Dialog ns) = concat (map error_texts ns)"
| "error_texts (Section i ns) = concat (map error_texts ns)"
| "error_texts (Group ns) = concat (map error_texts ns)"
| "error_texts _ = []"

end
