(* ===== verification/Cards.thy ===== *)
theory Cards
  imports Grid View
begin

text \<open>
  The rendering of the item grid: the two card components of
  \<open>src/src/components/ItemCard.tsx\<close>, the two dialogs of
  \<open>src/src/components/ClaimDialog.tsx\<close>, and the JSX that \<open>ItemGrid\<close>
  (\<open>src/src/components/ItemGrid.tsx\<close>) returns, over the cards of \<open>grid_cards\<close>. The
  relative time of a card (\<open>formatDistanceToNow\<close> of date-fns) is a parameter \<open>ago\<close>
  from the row's \<open>created_at\<close> to the text it shows. The lemmas show that the grid shows one
  card per row and placeholder with its name as heading, and that no donor's email reaches
  the screen before the success dialog opens.
\<close>

section \<open>Cards\<close>

text \<open>The badge of the newest card, as the bytes of \<open>ItemCard.tsx\<close> line 33: the UTF-8 of
  the three characters \<open>a\<close> with circumflex, \<open>oe\<close> and diaeresis (the sparkles emoji
  decoded once too often), then the word New.\<close>

definition NEW_LABEL :: string where
  "NEW_LABEL = [CHR 0xC3, CHR 0xA2, CHR 0xC5, CHR 0x93, CHR 0xC2, CHR 0xA8] @ '' New''"

definition ItemCard_view :: "(string \<Rightarrow> string) \<Rightarrow> donated_item \<Rightarrow> bool \<Rightarrow> node" where
  "ItemCard_view ago item isNew =
     Group [Img (di_imageBase64 item) (di_itemName item),
       Group (if isNew then [Badge NEW_LABEL] else []),
       Badge (di_condition item),
       Heading (di_itemName item),
       Text (di_description item),
       Text (di_category item), Text (di_location item), Text (ago (di_createdAt item)),
       Button False [Text ''Claim Now'']]"

definition PLACEHOLDER_DESCRIPTION :: string where
  "PLACEHOLDER_DESCRIPTION =
     ''Great item looking for a new home. Contact for more details about pickup and availability.''"

definition PlaceholderCard_view :: "placeholder_item \<Rightarrow> node" where
  "PlaceholderCard_view item =
     Group [Img (ph_imageUrl item) (ph_name item),
       Badge (ph_condition item),
       Heading (ph_name item),
       Text PLACEHOLDER_DESCRIPTION,
       Text (ph_category item), Text (ph_location item),
       Button False [Text ''Claim Now'']]"

fun card_view :: "(string \<Rightarrow> string) \<Rightarrow> card \<Rightarrow> node" where
  "card_view ago (ItemCard item isNew) = ItemCard_view ago item isNew"
| "card_view ago (PlaceholderCard item) = PlaceholderCard_view item"

section \<open>Dialogs\<close>

definition ClaimConfirmDialog_view :: "bool \<Rightarrow> string \<Rightarrow> node list" where
  "ClaimConfirmDialog_view isOpen itemName =
     (if isOpen then
        [Dialog [Heading ''Confirm Claim'',
           Text (''Are you sure you want to claim '' @ [CHR 0x22] @ itemName @ [CHR 0x22, CHR ''?'']),
           Button False [Text ''No (Cancel)''], Button False [Text ''Yes (Proceed)'']]]
      else [])"

definition ClaimSuccessDialog_view :: "bool \<Rightarrow> string \<Rightarrow> node list" where
  "ClaimSuccessDialog_view isOpen contactEmail =
     (if isOpen then
        [Dialog [Heading ''Claim Successful'',
           Text ''Congratulations! Please contact the donor using this email address:'',
           Text contactEmail,
           Text ''Thank you for using HeartShare Platform!'',
           Button False [Text ''Close'']]]
      else [])"

section \<open>The grid section\<close>

definition ITEMS_BLURB :: string where
  "ITEMS_BLURB = ''Discover items waiting for a new home. Each donation represents someone's '' @
     ''generosity and your opportunity to give an item a second life.''"

definition grid_view :: "(string \<Rightarrow> string) \<Rightarrow> grid_state \<Rightarrow> node" where
  "grid_view ago s =
     Section ''items''
       ([Badge ''Available Items'', Heading ''Browse Donated Items'', Text ITEMS_BLURB] @
        (case grid_cards s of
           None \<Rightarrow> [Spinner]
         | Some cs \<Rightarrow> [Section ''item-listing-grid'' (map (card_view ago) cs)]) @
        ClaimConfirmDialog_view (confirmOpen s) (confirm_itemName s) @
        ClaimSuccessDialog_view (successOpen s) (success_contactEmail s))"

text \<open>The grid with every donor email replaced: the rows' and the claim target's.\<close>

definition redact_emails :: "(db_row \<Rightarrow> string) \<Rightarrow> string \<Rightarrow> grid_state \<Rightarrow> grid_state" where
  "redact_emails f e s =
     s\<lparr>donatedItems := map (\<lambda>r. r\<lparr>row_contact_email := f r\<rparr>) (donatedItems s),
       claimTarget := map_option (\<lambda>t. t\<lparr>ct_email := e\<rparr>) (claimTarget s)\<rparr>"

text \<open>A loaded grid over the example table with the confirmation dialog open.\<close>

definition example_grid :: grid_state where
  "example_grid = \<lparr>donatedItems = sb_select_desc example_db, placeholderItems = INITIAL_PLACEHOLDER_ITEMS,
     isLoading = False, confirmOpen = True, successOpen = False,
     claimTarget = Some \<lparr>ct_type = Donated, ct_id = ''row-1'', ct_name = ''Desk'', ct_email = ''a@b.co''\<rparr>\<rparr>"

section \<open>Lemmas\<close>

lemma donated_cards_headings:
  "concat (map (headings \<circ> (card_view ago \<circ> (\<lambda>(i, r). ItemCard (to_card_item r) (i = 0)))) (enumerate n xs)) =
   map row_name xs"
  by (induction xs arbitrary: n) (simp_all add: ItemCard_view_def to_card_item_def)

lemma placeholder_cards_headings:
  "concat (map (headings \<circ> (card_view ago \<circ> PlaceholderCard)) ys) = map ph_name ys"
  by (induction ys) (simp_all add: PlaceholderCard_view_def)

lemma donated_cards_email:
  "map (\<lambda>x. card_view ago (case x of (i, r) \<Rightarrow> ItemCard (to_card_item r) (i = 0)))
     (enumerate n (map (\<lambda>r. r\<lparr>row_contact_email := f r\<rparr>) xs)) =
   map (\<lambda>x. card_view ago (case x of (i, r) \<Rightarrow> ItemCard (to_card_item r) (i = 0))) (enumerate n xs)"
  by (induction xs arbitrary: n) (simp_all add: ItemCard_view_def to_card_item_def)

lemma dialog_headings [simp]:
  "concat (map headings (ClaimConfirmDialog_view b n)) = (if b then [''Confirm Claim''] else [])"
  "concat (map headings (ClaimSuccessDialog_view b e)) = (if b then [''Claim Successful''] else [])"
  by (simp_all add: ClaimConfirmDialog_view_def ClaimSuccessDialog_view_def)

text \<open>
  Claim C15. The grid section's headings are its title, then, once loaded, the name of every
  donated row in the order of the list followed by the name of every remaining placeholder,
  then the title of each open dialog: every row and placeholder gets exactly one card, and
  while the rows load only the spinner is shown.
\<close>

theorem grid_view_headings:
  "concat (map headings [grid_view ago s]) =
     ''Browse Donated Items'' #
     (if isLoading s then [] else map row_name (donatedItems s) @ map ph_name (placeholderItems s)) @
     (if confirmOpen s then [''Confirm Claim''] else []) @ (if successOpen s then [''Claim Successful''] else [])"
  by (simp add: grid_view_def grid_cards_def map_concat donated_cards_headings placeholder_cards_headings)

text \<open>
  Claim C10. No donor's email reaches the screen before a claim succeeds: while the success
  dialog is closed, the grid renders the same whatever the contact emails of the rows and
  of the claim target are (the cards and the confirmation dialog never show them).
\<close>

theorem grid_view_hides_emails:
  assumes "\<not> successOpen s"
  shows "grid_view ago (redact_emails f e s) = grid_view ago s"
  using assms
  by (simp add: grid_view_def grid_cards_def redact_emails_def donated_cards_email confirm_itemName_def
      success_contactEmail_def ClaimSuccessDialog_view_def option.map_comp comp_def split: option.splits)

theorem grid_view_hides_emails_witness:
  "\<not> successOpen example_grid \<and>
   grid_view (\<lambda>t. ''just now'') (redact_emails (\<lambda>r. []) [] example_grid) = grid_view (\<lambda>t. ''just now'') example_grid"
proof -
  have "\<not> successOpen example_grid" by (simp add: example_grid_def)
  with grid_view_hides_emails [OF this] show ?thesis by blast
qed

end
