(* ===== verification/Navbar.thy ===== *)
theory Navbar
  imports View
begin

text \<open>
  The navigation bar (\<open>src/src/components/Navbar.tsx\<close>): the mobile menu's open flag,
  its toggle and the links that close it, and the highlighting of the link of the current
  page, which compares \<open>location.pathname\<close> with the link's target. The pathname of a
  location is the part of the URL path before any query or fragment (modelled from the URL
  standard, not code of the repository).
\<close>

record nav_link =
  nl_name :: string
  nl_path :: string

definition navLinks :: "nav_link list" where
  "navLinks = [\<lparr>nl_name = ''Home'', nl_path = ''/''\<rparr>,
               \<lparr>nl_name = ''Browse Items'', nl_path = ''/#items''\<rparr>,
               \<lparr>nl_name = ''Donate'', nl_path = ''/donate''\<rparr>]"

record nav_state =
  isOpen :: bool

definition nav_init :: nav_state where
  "nav_init = \<lparr>isOpen = False\<rparr>"

text \<open>The menu button's \<open>onClick\<close>, and the \<open>onClick\<close> of every link of the open menu.\<close>

definition nav_toggle :: "nav_state \<Rightarrow> nav_state" where
  "nav_toggle s = s\<lparr>isOpen := \<not> isOpen s\<rparr>"

definition nav_close :: "nav_state \<Rightarrow> nav_state" where
  "nav_close s = s\<lparr>isOpen := False\<rparr>"

text \<open>The links rendered in the mobile menu: all of them while it is open, none otherwise.\<close>

definition mobile_links :: "nav_state \<Rightarrow> nav_link list" where
  "mobile_links s = (if isOpen s then navLinks else [])"

definition url_pathname :: "string \<Rightarrow> string" where
  "url_pathname u = takeWhile (\<lambda>c. c \<noteq> CHR ''?'' \<and> c \<noteq> CHR ''#'') u"

definition link_active :: "string \<Rightarrow> nav_link \<Rightarrow> bool" where
  "link_active pathname l \<longleftrightarrow> pathname = nl_path l"

text \<open>
  What the bar renders on a page with the given pathname: the logo link home, the desktop
  links (highlighted when active), the two call-to-action links, the menu button (an icon
  with an \<open>aria-label\<close>, no text), and the mobile menu while it is open. The desktop and
  mobile parts are both in the document; the breakpoint classes only hide one of them.
\<close>

definition nav_link_view :: "string \<Rightarrow> nav_link \<Rightarrow> node" where
  "nav_link_view pathname l = Link (nl_path l) (link_active pathname l) [Text (nl_name l)]"

definition navbar_view :: "string \<Rightarrow> nav_state \<Rightarrow> node" where
  "navbar_view pathname s =
     Group [Link ''/'' False [Text ''HeartShare''],
       Group (map (nav_link_view pathname) navLinks),
       Link ''/donate'' False [Text ''I Want to Donate''],
       Link ''/#items'' False [Text ''I Want to Claim''],
       Button False [],
       Group (if isOpen s then map (nav_link_view pathname) (mobile_links s) @
                [Link ''/donate'' False [Text ''I Want to Donate''], Link ''/#items'' False [Text ''I Want to Claim'']]
              else [])]"

section \<open>Lemmas\<close>

lemma url_pathname_no_hash: "CHR ''#'' \<notin> set (url_pathname u)"
  by (auto simp: url_pathname_def dest: set_takeWhileD)

text \<open>
  Claim C29. Whatever page the browser shows, the "Browse Items" link is never highlighted:
  its target \<open>/#items\<close> carries a fragment, which a pathname never contains; on the home
  page exactly the "Home" link is highlighted.
\<close>

theorem browse_link_never_active:
  "\<not> link_active (url_pathname u) (navLinks ! 1) \<and>
   filter (link_active (url_pathname ''/#items'')) navLinks = [navLinks ! 0]"
  using url_pathname_no_hash [of u]
  by (auto simp: link_active_def navLinks_def url_pathname_def)

end
