(* ===== verification/Form.thy ===== *)
theory Form
  imports Database Storage
begin

text \<open>
  The donation form (\<open>src/src/components/DonateForm.tsx\<close>): its state, the change
  handlers of the inputs, the selects and the photo picker, \<open>validateForm\<close> and
  \<open>submitDonation\<close>. The \<open>errors\<close> object is an association list from field name to
  message (\<open>AList.update\<close> is \<open>{...prev, [name]: msg}\<close>); a field's error is shown when
  its message is a non-empty string. \<open>submitDonation\<close> runs as one step: the values it
  sends are those of the render that created it, so edits made during its \<open>await\<close>s do
  not change what it saves; the reader's and the request's outcomes are parameters.
\<close>

section \<open>State\<close>

record form_data =
  fd_itemName :: string
  fd_description :: string
  fd_category :: string
  fd_condition :: string
  fd_location :: string
  fd_contactEmail :: string

record form_state =
  formData :: form_data
  selectedFile :: "file_info option"
  previewUrl :: string
  isSubmitting :: bool
  errors :: "(string \<times> string) list"

definition form_init :: form_state where
  "form_init = \<lparr>formData = \<lparr>fd_itemName = [], fd_description = [], fd_category = [],
       fd_condition = [], fd_location = [], fd_contactEmail = []\<rparr>,
     selectedFile = None, previewUrl = [], isSubmitting = False, errors = []\<rparr>"

text \<open>\<open>errors[name]\<close> is truthy: present and not the empty string.\<close>

definition error_shown :: "(string \<times> string) list \<Rightarrow> string \<Rightarrow> bool" where
  "error_shown errs name = (case map_of errs name of None \<Rightarrow> False | Some m \<Rightarrow> m \<noteq> [])"

text \<open>\<open>{...prev, [name]: value}\<close> on the form data, for the names the inputs carry.\<close>

definition set_form_field :: "string \<Rightarrow> string \<Rightarrow> form_data \<Rightarrow> form_data" where
  "set_form_field name value d =
     (if name = ''itemName'' then d\<lparr>fd_itemName := value\<rparr>
      else if name = ''description'' then d\<lparr>fd_description := value\<rparr>
      else if name = ''category'' then d\<lparr>fd_category := value\<rparr>
      else if name = ''condition'' then d\<lparr>fd_condition := value\<rparr>
      else if name = ''location'' then d\<lparr>fd_location := value\<rparr>
      else if name = ''contactEmail'' then d\<lparr>fd_contactEmail := value\<rparr>
      else d)"

section \<open>Handlers\<close>

definition handleInputChange :: "string \<Rightarrow> string \<Rightarrow> form_state \<Rightarrow> form_state" where
  "handleInputChange name value s =
     s\<lparr>formData := set_form_field name value (formData s),
       errors := (if error_shown (errors s) name then AList.update name [] (errors s) else errors s)\<rparr>"

definition handleSelectChange :: "string \<Rightarrow> string \<Rightarrow> form_state \<Rightarrow> form_state" where
  "handleSelectChange name value s =
     s\<lparr>formData := set_form_field name value (formData s),
       errors := (if error_shown (errors s) name then AList.update name [] (errors s) else errors s)\<rparr>"

definition MAX_IMAGE_SIZE :: nat where
  "MAX_IMAGE_SIZE = 5 * 1024 * 1024"

text \<open>\<open>handleFileChange\<close> with the first selected file, if any, and the object URL
  \<open>URL.createObjectURL\<close> returns for it.\<close>

definition handleFileChange :: "file_info option \<Rightarrow> string \<Rightarrow> form_state \<Rightarrow> form_state" where
  "handleFileChange file url s =
     (case file of
        None \<Rightarrow> s
      | Some f \<Rightarrow>
          if \<not> starts_with (f_type f) ''image/'' then
            s\<lparr>errors := AList.update ''image'' ''Please select an image file'' (errors s)\<rparr>
          else if f_size f > MAX_IMAGE_SIZE then
            s\<lparr>errors := AList.update ''image'' ''Image must be less than 5MB'' (errors s)\<rparr>
          else s\<lparr>selectedFile := Some f, previewUrl := url, errors := AList.update ''image'' [] (errors s)\<rparr>)"

section \<open>Validation\<close>

text \<open>
  The test \<open>/^[^\s@]+@[^\s@]+\.[^\s@]+$/\<close>, scanned directly: a non-empty local part
  up to the first \<open>@\<close>, then a rest without \<open>@\<close> or white space that has a dot with
  at least one character on each side. \<open>email_regex\<close> below is the language of the
  pattern itself, and \<open>email_valid_regex\<close> shows the two agree.
\<close>

definition email_char :: "char \<Rightarrow> bool" where
  "email_char c \<longleftrightarrow> \<not> js_space c \<and> c \<noteq> CHR ''@''"

definition email_valid :: "string \<Rightarrow> bool" where
  "email_valid s =
     (let local = takeWhile (\<lambda>c. c \<noteq> CHR ''@'') s; r = dropWhile (\<lambda>c. c \<noteq> CHR ''@'') s in
      case r of
        [] \<Rightarrow> False
      | _ # rest \<Rightarrow> local \<noteq> [] \<and> list_all email_char local \<and> list_all email_char rest \<and>
                    CHR ''.'' \<in> set (drop 1 (butlast rest)))"


text \<open>\<open>validateForm\<close>: the new errors in the order the code adds them, stored as the
  form's errors; the form is valid when there are none.\<close>

definition form_errors :: "form_state \<Rightarrow> (string \<times> string) list" where
  "form_errors s =
     (let d = formData s in
      (if js_trim (fd_itemName d) = [] then [(''itemName'', ''Item name is required'')] else []) @
      (if js_trim (fd_description d) = [] then [(''description'', ''Description is required'')] else []) @
      (if fd_category d = [] then [(''category'', ''Please select a category'')] else []) @
      (if fd_condition d = [] then [(''condition'', ''Please select condition'')] else []) @
      (if js_trim (fd_location d) = [] then [(''location'', ''Location is required'')] else []) @
      (if js_trim (fd_contactEmail d) = [] then [(''contactEmail'', ''Email is required'')]
       else if \<not> email_valid (fd_contactEmail d) then [(''contactEmail'', ''Please enter a valid email'')]
       else []) @
      (if selectedFile s = None then [(''image'', ''Please upload an item photo'')] else []))"

definition validateForm :: "form_state \<Rightarrow> form_state \<times> bool" where
  "validateForm s = (let newErrors = form_errors s in (s\<lparr>errors := newErrors\<rparr>, newErrors = []))"

section \<open>Submission\<close>

datatype toast = ToastValidationError | ToastDonationSuccessful | ToastSubmissionFailed

text \<open>The row \<open>submitDonation\<close> inserts: trimmed text fields and the photo's data URL.\<close>

definition donation_insert :: "form_data \<Rightarrow> string \<Rightarrow> row_insert" where
  "donation_insert d imageBase64 =
     \<lparr>ins_name = js_trim (fd_itemName d), ins_description = js_trim (fd_description d),
      ins_category = fd_category d, ins_condition = fd_condition d,
      ins_location = js_trim (fd_location d), ins_contact_email = js_trim (fd_contactEmail d),
      ins_image_url = imageBase64\<rparr>"

text \<open>
  \<open>submitDonation\<close>: the resulting form state, table and published notifications, the
  toast shown, and whether the page navigates home. A rejected \<open>fileToBase64\<close> and a
  save error both land in the \<open>catch\<close>; \<open>finally\<close> clears \<open>isSubmitting\<close>.
\<close>

definition submitDonation ::
  "read_outcome \<Rightarrow> net \<Rightarrow> form_state \<Rightarrow> db_state \<Rightarrow>
   form_state \<times> db_state \<times> change list \<times> toast \<times> bool" where
  "submitDonation r n s db =
     (case validateForm s of
        (s1, False) \<Rightarrow> (s1, db, [], ToastValidationError, False)
      | (s1, True) \<Rightarrow>
          (case selectedFile s of
             None \<Rightarrow> (s1\<lparr>isSubmitting := False\<rparr>, db, [], ToastSubmissionFailed, False)
           | Some file \<Rightarrow>
               (case fileToBase64 r file of
                  Inl err \<Rightarrow> (s1\<lparr>isSubmitting := False\<rparr>, db, [], ToastSubmissionFailed, False)
                | Inr imageBase64 \<Rightarrow>
                    (case saveDonatedItemToDB n (donation_insert (formData s) imageBase64) db of
                       (Inl e, db', cs) \<Rightarrow> (s1\<lparr>isSubmitting := False\<rparr>, db', cs, ToastSubmissionFailed, False)
                     | (Inr row, db', cs) \<Rightarrow>
                         (s1\<lparr>isSubmitting := False\<rparr>, db', cs, ToastDonationSuccessful, True)))))"

section \<open>Examples and the required fields\<close>

text \<open>\<open>required_blank s k\<close>: the field \<open>k\<close> the spec calls required is left empty
  (text fields after trimming, the selects unset, no photo chosen).\<close>

definition required_blank :: "form_state \<Rightarrow> string \<Rightarrow> bool" where
  "required_blank s k \<longleftrightarrow>
     (k = ''itemName'' \<and> js_trim (fd_itemName (formData s)) = []) \<or>
     (k = ''description'' \<and> js_trim (fd_description (formData s)) = []) \<or>
     (k = ''category'' \<and> fd_category (formData s) = []) \<or>
     (k = ''condition'' \<and> fd_condition (formData s) = []) \<or>
     (k = ''location'' \<and> js_trim (fd_location (formData s)) = []) \<or>
     (k = ''contactEmail'' \<and> js_trim (fd_contactEmail (formData s)) = []) \<or>
     (k = ''image'' \<and> selectedFile s = None)"

definition example_file :: file_info where
  "example_file = \<lparr>f_name = ''desk.png'', f_type = ''image/png'', f_bytes = [137, 80, 78, 71]\<rparr>"

definition example_form :: form_state where
  "example_form = form_init\<lparr>formData := \<lparr>fd_itemName = ''Desk'', fd_description = ''Oak desk'',
       fd_category = ''Furniture'', fd_condition = ''Good'', fd_location = ''Downtown'',
       fd_contactEmail = ''a@b.co''\<rparr>, selectedFile := Some example_file\<rparr>"

section \<open>Lemmas\<close>




lemma form_errors_blank: "required_blank s k \<Longrightarrow> error_shown (form_errors s) k"
  unfolding required_blank_def
  by (elim disjE) (simp_all add: form_errors_def error_shown_def Let_def map_add_def split: option.splits)

text \<open>
  Claim C8. Whenever a required field is left empty, \<open>submitDonation\<close> is blocked: the
  table is untouched, nothing is published, the validation toast is shown, the page does not
  navigate, and the field's error message is shown.
\<close>

theorem submit_required_field:
  assumes "required_blank s k" and "submitDonation r n s db = (s', db', cs, t, nav)"
  shows "db' = db \<and> cs = [] \<and> t = ToastValidationError \<and> \<not> nav \<and> error_shown (errors s') k"
proof -
  have "error_shown (form_errors s) k" using assms(1) by (rule form_errors_blank)
  then have "form_errors s \<noteq> []" by (auto simp: error_shown_def)
  with assms(2) \<open>error_shown (form_errors s) k\<close> show ?thesis
    by (auto simp: submitDonation_def validateForm_def Let_def)
qed

theorem submit_required_field_witness:
  "required_blank form_init ''itemName'' \<and>
   (case submitDonation Loaded NetOk form_init db_empty of (s', db', cs, t, nav) \<Rightarrow>
      db' = db_empty \<and> cs = [] \<and> t = ToastValidationError \<and> \<not> nav \<and> error_shown (errors s') ''itemName'')"
proof -
  have b: "required_blank form_init ''itemName''"
    by (simp add: required_blank_def form_init_def js_trim_def)
  obtain s' db' cs t nav where r: "submitDonation Loaded NetOk form_init db_empty = (s', db', cs, t, nav)"
    by (metis prod_cases5)
  show ?thesis using submit_required_field [OF b r] b r by simp
qed

text \<open>
  Claim C12. The photo picker accepts an image of at most 5MB (5242880 bytes), showing it and
  clearing the image error; a non-image type or a larger image is rejected with its specific
  message and the previously selected file is kept.
\<close>

theorem handleFileChange_checks:
  "let s' = handleFileChange (Some f) u s in
   (starts_with (f_type f) ''image/'' \<and> f_size f \<le> 5242880 \<longrightarrow>
      selectedFile s' = Some f \<and> previewUrl s' = u \<and> \<not> error_shown (errors s') ''image'') \<and>
   (\<not> starts_with (f_type f) ''image/'' \<longrightarrow>
      selectedFile s' = selectedFile s \<and> map_of (errors s') ''image'' = Some ''Please select an image file'') \<and>
   (starts_with (f_type f) ''image/'' \<and> f_size f > 5242880 \<longrightarrow>
      selectedFile s' = selectedFile s \<and> map_of (errors s') ''image'' = Some ''Image must be less than 5MB'')"
  by (simp add: handleFileChange_def MAX_IMAGE_SIZE_def error_shown_def update_conv')

theorem handleFileChange_checks_witness:
  "let f = example_file\<lparr>f_bytes := replicate 3 0\<rparr>; s' = handleFileChange (Some f) ''blob:1'' form_init in
   (starts_with (f_type f) ''image/'' \<and> f_size f \<le> 5242880) \<and>
   selectedFile s' = Some f \<and> previewUrl s' = ''blob:1'' \<and> \<not> error_shown (errors s') ''image''"
  using handleFileChange_checks [of "example_file\<lparr>f_bytes := replicate 3 0\<rparr>" "''blob:1''" form_init]
  by (simp add: Let_def example_file_def f_size_def starts_with_def)

lemma submitDonation_valid:
  "form_errors s = [] \<Longrightarrow> selectedFile s = Some f \<Longrightarrow>
   submitDonation Loaded NetOk s db =
     (s\<lparr>errors := [], isSubmitting := False\<rparr>, snd (sb_insert (donation_insert (formData s) (readAsDataURL f)) db),
      [ChInsert (new_row (donation_insert (formData s) (readAsDataURL f)) db)], ToastDonationSuccessful, True)"
  by (simp add: submitDonation_def validateForm_def fileToBase64_def saveDonatedItemToDB_NetOk)

text \<open>
  Claim C7. A valid form whose photo is read and whose save succeeds adds exactly one row, with a
  fresh id, on top of the ordered select and removes none; the row carries the trimmed name
  and email and the photo's data URL; the success toast is shown and the page navigates home.
\<close>

theorem submit_valid_adds_one:
  assumes valid: "form_errors s = []" and f: "selectedFile s = Some f" and wf: "db_wf db"
    and run: "submitDonation Loaded NetOk s db = (s', db', cs, t, nav)"
  shows "\<exists>row. cs = [ChInsert row] \<and> sb_select_desc db' = row # sb_select_desc db \<and> db_wf db' \<and>
           row_id row \<notin> row_id ` set (sb_select_desc db) \<and>
           row_name row = js_trim (fd_itemName (formData s)) \<and>
           row_contact_email row = js_trim (fd_contactEmail (formData s)) \<and>
           row_image_url row = Some (readAsDataURL f) \<and>
           t = ToastDonationSuccessful \<and> nav \<and> \<not> isSubmitting s' \<and> errors s' = []"
proof -
  note eq = submitDonation_valid [OF valid f, of db]
  let ?i = "donation_insert (formData s) (readAsDataURL f)"
  have fresh: "row_id (new_row ?i db) \<notin> row_id ` set (sb_select_desc db)"
    using new_row_fresh [OF wf] by (simp add: sb_select_desc_wf [OF wf] image_comp)
  show ?thesis
    using run eq wf fresh sb_select_desc_insert [OF wf, of ?i] sb_insert_wf [OF wf, of ?i]
    by (auto simp: sb_insert_def new_row_def donation_insert_def)
qed

theorem submit_valid_adds_one_witness:
  "form_errors example_form = [] \<and> selectedFile example_form = Some example_file \<and> db_wf example_db \<and>
   (case submitDonation Loaded NetOk example_form example_db of (s', db', cs, t, nav) \<Rightarrow>
     \<exists>row. cs = [ChInsert row] \<and> sb_select_desc db' = row # sb_select_desc example_db \<and> db_wf db' \<and>
           row_id row \<notin> row_id ` set (sb_select_desc example_db) \<and>
           row_name row = js_trim (fd_itemName (formData example_form)) \<and>
           row_contact_email row = js_trim (fd_contactEmail (formData example_form)) \<and>
           row_image_url row = Some (readAsDataURL example_file) \<and>
           t = ToastDonationSuccessful \<and> nav \<and> \<not> isSubmitting s' \<and> errors s' = [])"
proof -
  have v: "form_errors example_form = []"
    by (simp add: form_errors_def example_form_def form_init_def js_trim_def js_space_def email_valid_def
        email_char_def)
  have f: "selectedFile example_form = Some example_file" by (simp add: example_form_def)
  obtain s' db' cs t nav where r: "submitDonation Loaded NetOk example_form example_db = (s', db', cs, t, nav)"
    by (metis prod_cases5)
  show ?thesis using submit_valid_adds_one [OF v f example_db_wf r] v f example_db_wf r by simp
qed






lemma form_errors_Nil:
  "form_errors s = [] \<longleftrightarrow>
     js_trim (fd_itemName (formData s)) \<noteq> [] \<and> js_trim (fd_description (formData s)) \<noteq> [] \<and>
     fd_category (formData s) \<noteq> [] \<and> fd_condition (formData s) \<noteq> [] \<and>
     js_trim (fd_location (formData s)) \<noteq> [] \<and> js_trim (fd_contactEmail (formData s)) \<noteq> [] \<and>
     email_valid (fd_contactEmail (formData s)) \<and> selectedFile s \<noteq> None"
  by (simp add: form_errors_def Let_def split: if_split)

lemma handleFileChange_rejected:
  assumes "\<not> starts_with (f_type f) ''image/'' \<or> MAX_IMAGE_SIZE < f_size f"
  shows "handleFileChange (Some f) url s =
           s\<lparr>errors := AList.update ''image''
               (if \<not> starts_with (f_type f) ''image/'' then ''Please select an image file'' else ''Image must be less than 5MB'')
               (errors s)\<rparr>"
  using assms by (auto simp: handleFileChange_def)

text \<open>
  Claim C31. A rejected photo (not an image, or larger than 5MB) leaves the previously
  accepted photo selected and its preview shown; the error is shown, but on an otherwise
  valid form the next submission clears it, passes validation and uploads the earlier
  photo.
\<close>

theorem rejected_file_keeps_previous:
  assumes "selectedFile s = Some f0" and "form_errors s = []"
    and "\<not> starts_with (f_type f) ''image/'' \<or> MAX_IMAGE_SIZE < f_size f"
  shows "let s1 = handleFileChange (Some f) url s in
         error_shown (errors s1) ''image'' \<and> selectedFile s1 = Some f0 \<and> previewUrl s1 = previewUrl s \<and>
         submitDonation Loaded NetOk s1 d =
           (s1\<lparr>errors := [], isSubmitting := False\<rparr>, snd (sb_insert (donation_insert (formData s) (readAsDataURL f0)) d),
            [ChInsert (new_row (donation_insert (formData s) (readAsDataURL f0)) d)], ToastDonationSuccessful, True)"
proof -
  define m where "m = (if \<not> starts_with (f_type f) ''image/'' then ''Please select an image file'' else ''Image must be less than 5MB'')"
  define s1 where "s1 = s\<lparr>errors := AList.update ''image'' m (errors s)\<rparr>"
  have eq: "handleFileChange (Some f) url s = s1"
    using handleFileChange_rejected [OF assms(3)] by (simp add: s1_def m_def)
  have fe: "form_errors s1 = []" using assms(2) by (simp add: s1_def form_errors_def)
  have sel: "selectedFile s1 = Some f0" using assms(1) by (simp add: s1_def)
  have shown: "error_shown (errors s1) ''image''" by (simp add: s1_def m_def error_shown_def update_conv')
  have "formData s1 = formData s" "previewUrl s1 = previewUrl s" by (simp_all add: s1_def)
  with submitDonation_valid [OF fe sel, of d] shown sel show ?thesis by (simp add: eq Let_def)
qed

theorem rejected_file_keeps_previous_witness:
  "let bad = \<lparr>f_name = ''notes.pdf'', f_type = ''application/pdf'', f_bytes = [37]\<rparr>;
       s1 = handleFileChange (Some bad) ''blob:2'' example_form in
   selectedFile example_form = Some example_file \<and> form_errors example_form = [] \<and>
   (\<not> starts_with (f_type bad) ''image/'' \<or> MAX_IMAGE_SIZE < f_size bad) \<and>
   error_shown (errors s1) ''image'' \<and> selectedFile s1 = Some example_file \<and> previewUrl s1 = previewUrl example_form \<and>
   submitDonation Loaded NetOk s1 example_db =
     (s1\<lparr>errors := [], isSubmitting := False\<rparr>,
      snd (sb_insert (donation_insert (formData example_form) (readAsDataURL example_file)) example_db),
      [ChInsert (new_row (donation_insert (formData example_form) (readAsDataURL example_file)) example_db)],
      ToastDonationSuccessful, True)"
proof -
  let ?bad = "\<lparr>f_name = ''notes.pdf'', f_type = ''application/pdf'', f_bytes = [37]\<rparr>"
  have h: "selectedFile example_form = Some example_file" "form_errors example_form = []"
    "\<not> starts_with (f_type ?bad) ''image/'' \<or> MAX_IMAGE_SIZE < f_size ?bad"
    by (simp_all add: example_form_def form_errors_def form_init_def js_trim_def js_space_def email_valid_def
        email_char_def starts_with_def)
  show ?thesis using rejected_file_keeps_previous [OF h, of "''blob:2''" example_db, unfolded Let_def] h
    unfolding Let_def by blast
qed

lemma handleSelectChange_category:
  "formData (handleSelectChange ''category'' c s) = (formData s)\<lparr>fd_category := c\<rparr>"
  "selectedFile (handleSelectChange ''category'' c s) = selectedFile s"
  by (simp_all add: handleSelectChange_def set_form_field_def)

text \<open>
  Claim C32. Validation only checks that a category is set, not that it is one of
  \<open>CATEGORIES\<close>: on a valid form, setting the category to any non-empty value keeps the
  form valid, and the submission saves a row with that category.
\<close>

theorem category_outside_enum:
  assumes "c \<noteq> []" and "form_errors s = []" and "selectedFile s = Some f"
    and "submitDonation Loaded NetOk (handleSelectChange ''category'' c s) d = (s', d', cs, t, nav)"
  shows "form_errors (handleSelectChange ''category'' c s) = [] \<and>
         (\<exists>row. cs = [ChInsert row] \<and> row_category row = c) \<and> t = ToastDonationSuccessful \<and> nav"
proof -
  have fe: "form_errors (handleSelectChange ''category'' c s) = []"
    using assms(1,2) by (simp only: form_errors_Nil handleSelectChange_category) simp
  have sel: "selectedFile (handleSelectChange ''category'' c s) = Some f"
    using assms(3) by (simp add: handleSelectChange_category)
  show ?thesis using submitDonation_valid [OF fe sel, of d] assms(4) fe
    by (simp add: handleSelectChange_category new_row_def donation_insert_def)
qed

theorem category_outside_enum_witness:
  "''Weapons'' \<notin> set CATEGORIES \<and> ''Weapons'' \<noteq> [] \<and> form_errors example_form = [] \<and>
   selectedFile example_form = Some example_file \<and>
   (case submitDonation Loaded NetOk (handleSelectChange ''category'' ''Weapons'' example_form) example_db of
      (s', d', cs, t, nav) \<Rightarrow>
        form_errors (handleSelectChange ''category'' ''Weapons'' example_form) = [] \<and>
        (\<exists>row. cs = [ChInsert row] \<and> row_category row = ''Weapons'') \<and> t = ToastDonationSuccessful \<and> nav)"
proof -
  have h: "''Weapons'' \<noteq> []" "form_errors example_form = []" "selectedFile example_form = Some example_file"
    by (simp_all add: example_form_def form_errors_def form_init_def js_trim_def js_space_def email_valid_def
        email_char_def)
  obtain s' d' cs t nav where
    r: "submitDonation Loaded NetOk (handleSelectChange ''category'' ''Weapons'' example_form) example_db = (s', d', cs, t, nav)"
    by (metis prod_cases5)
  have c: "''Weapons'' \<notin> set CATEGORIES" by (simp add: CATEGORIES_def)
  show ?thesis unfolding r prod.case
    by (rule conjI [OF c conjI [OF h(1) conjI [OF h(2) conjI [OF h(3) category_outside_enum [OF h r]]]]])
qed

text \<open>
  Claim C13. Typing into a field hides that field's error and leaves every other field's
  error, the selected photo, its preview and the submitting flag as they were.
\<close>

theorem input_clears_error:
  "let s' = handleInputChange k v s in
   \<not> error_shown (errors s') k \<and>
   (\<forall>k'. k' \<noteq> k \<longrightarrow> map_of (errors s') k' = map_of (errors s) k') \<and>
   selectedFile s' = selectedFile s \<and> previewUrl s' = previewUrl s \<and> isSubmitting s' = isSubmitting s"
  by (auto simp: handleInputChange_def error_shown_def update_conv' split: option.splits)

theorem input_clears_error_witness:
  "let s = form_init\<lparr>errors := [(''itemName'', ''Item name is required''), (''location'', ''Location is required'')]\<rparr>;
       s' = handleInputChange ''itemName'' ''Lamp'' s in
   \<not> error_shown (errors s') ''itemName'' \<and>
   (''location'' \<noteq> ''itemName'' \<longrightarrow> map_of (errors s') ''location'' = map_of (errors s) ''location'') \<and>
   error_shown (errors s') ''location''"
proof -
  let ?s = "form_init\<lparr>errors := [(''itemName'', ''Item name is required''), (''location'', ''Location is required'')]\<rparr>"
  have "\<not> error_shown (errors (handleInputChange ''itemName'' ''Lamp'' ?s)) ''itemName'' \<and>
        (''location'' \<noteq> ''itemName'' \<longrightarrow> map_of (errors (handleInputChange ''itemName'' ''Lamp'' ?s)) ''location'' =
           map_of (errors ?s) ''location'')"
    using input_clears_error [of "''itemName''" "''Lamp''" ?s] by (simp add: Let_def)
  then show ?thesis by (simp add: Let_def error_shown_def)
qed

end
