(* ===== verification/Screens.thy ===== *)
theory Screens
  imports Cards Navbar Form "HOL-Library.Multiset"
begin

text \<open>
  The two pages as rendered trees: the hero section (\<open>src/src/components/HeroSection.tsx\<close>),
  the footer (\<open>src/src/components/Footer.tsx\<close>), the form's JSX
  (\<open>src/src/components/DonateForm.tsx\<close>), the home page (\<open>src/src/pages/Index.tsx\<close>:
  navigation bar, hero, item grid, footer) and the donation page
  (\<open>src/src/pages/Donate.tsx\<close>: navigation bar, introduction, form, footer). The lemmas
  show that the form shows exactly the messages validation produced, one under each field,
  and re-enables its button when a submission ends.
\<close>

section \<open>Static sections\<close>

definition HERO_SUBTITLE :: string where
  "HERO_SUBTITLE = ''HeartShare Platform connects generous donors with those in need. '' @
     ''Give your unused items a second life and make a real difference in someone's day.''"

definition hero_view :: node where
  "hero_view =
     Group [Text ''Join our community of givers'',
       Heading ''Let Unwanted Items Find the Right Home'',
       Text HERO_SUBTITLE,
       Link ''/donate'' False [Text ''I Want to Donate''],
       Link ''/#items'' False [Text ''I Want to Claim''],
       Group [Text ''500+'', Text ''Items Donated'', Text ''300+'', Text ''Happy Recipients'',
              Text ''50+'', Text ''Communities'']]"

definition footer_view :: node where
  "footer_view =
     Group [Link ''/'' False [Text ''HeartShare''],
       Text ''Connecting communities through the spirit of giving. Every item shared is a story of generosity.'',
       Heading ''About Us'',
       Text (''HeartShare Platform is a community-driven initiative that connects people who want to '' @
             ''donate unused items with those who need them. We believe in sustainability and the power of sharing.''),
       Text ''Founded in 2024, we've helped thousands of items find new homes.'',
       Heading ''Quick Links'',
       Link ''/'' False [Text ''Home''],
       Link ''/#items'' False [Text ''Browse Items''],
       Link ''/donate'' False [Text ''Donate an Item''],
       Link ''#'' False [Text ''How It Works''],
       Link ''#'' False [Text ''Privacy Policy''],
       Heading ''Contact Us'',
       Text ''123 Community Lane, Giving City, GC 12345'',
       Link ''tel:+1234567890'' False [Text ''+1 (234) 567-890''],
       Link ''mailto:hello@heartshare.com'' False [Text ''hello@heartshare.com''],
       Text ([CHR 0xC2, CHR 0xA9] @ '' 2024 HeartShare Platform. All rights reserved.''),
       Text ''Made with '', Text '' for the community'']"

section \<open>The donation form\<close>

text \<open>The paragraph under a field: \<open>{errors[name] && <p>{errors[name]}</p>}\<close>.\<close>

definition field_error :: "(string \<times> string) list \<Rightarrow> string \<Rightarrow> node list" where
  "field_error errs name = (case map_of errs name of Some m \<Rightarrow> if m \<noteq> [] then [ErrorText m] else [] | None \<Rightarrow> [])"

definition photo_view :: "form_state \<Rightarrow> node list" where
  "photo_view s =
     (if previewUrl s \<noteq> [] then
        [Img (previewUrl s) ''Preview'',
         Text (case selectedFile s of Some f \<Rightarrow> f_name f | None \<Rightarrow> []),
         Text ''Click to change image'']
      else [Text ''Click to upload an image'', Text ''PNG, JPG up to 5MB''])"

definition submit_button :: "form_state \<Rightarrow> node" where
  "submit_button s =
     Button (isSubmitting s) [Text (if isSubmitting s then ''Submitting...'' else ''Submit Donation'')]"

definition DonateForm_view :: "form_state \<Rightarrow> node" where
  "DonateForm_view s =
     (let d = formData s; errs = errors s in
      Group [
        Group ([Text ''Item Photo *'', FileInput ''itemPhoto'' ''image/*''] @ photo_view s @ field_error errs ''image''),
        Group ([Text ''Item Name *'', Input ''itemName'' (fd_itemName d) ''e.g., Vintage Wooden Chair''] @
               field_error errs ''itemName''),
        Group ([Text ''Description *'',
                Input ''description'' (fd_description d) ''Describe the item, its condition, and any relevant details...''] @
               field_error errs ''description''),
        Group ([Text ''Category *'', Select (fd_category d) ''Select category'' CATEGORIES] @
               field_error errs ''category''),
        Group ([Text ''Condition *'', Select (fd_condition d) ''Select condition'' CONDITIONS] @
               field_error errs ''condition''),
        Group ([Text ''Pickup Location *'', Input ''location'' (fd_location d) ''e.g., Downtown, Seattle''] @
               field_error errs ''location''),
        Group ([Text ''Contact Email *'', Input ''contactEmail'' (fd_contactEmail d) ''your.email@example.com''] @
               field_error errs ''contactEmail''),
        submit_button s])"

text \<open>The fields in the order the form shows them.\<close>

definition FORM_FIELDS :: "string list" where
  "FORM_FIELDS = [''image'', ''itemName'', ''description'', ''category'', ''condition'', ''location'', ''contactEmail'']"

section \<open>The pages\<close>

definition INDEX_TITLE :: string where
  "INDEX_TITLE = ''HeartShare Platform - Donate and Share Items with Your Community''"

definition Index_view :: "(string \<Rightarrow> string) \<Rightarrow> nav_state \<Rightarrow> grid_state \<Rightarrow> node" where
  "Index_view ago nav g = Group [navbar_view ''/'' nav, Group [hero_view, grid_view ago g], footer_view]"

definition DONATE_TITLE :: string where
  "DONATE_TITLE = ''Donate an Item - HeartShare Platform''"

definition Donate_view :: "nav_state \<Rightarrow> form_state \<Rightarrow> node" where
  "Donate_view nav s =
     Group [navbar_view ''/donate'' nav,
       Group [Text ''Make a Difference'', Heading ''Donate Your Item'',
         Text (''Your unused items can bring joy to someone else. Fill out the form '' @
               ''to list your donation and help build a more connected, caring community.''),
         Heading ''Spread Kindness'',
         Text ''Every donation brightens someone's day and strengthens community bonds.'',
         Heading ''Reduce Waste'',
         Text ''Give items a second life instead of sending them to landfills.'',
         Heading ''Connect Locally'',
         Text ''Meet neighbors and build meaningful connections through giving.''],
       Group [Heading ''Item Details'', DonateForm_view s],
       footer_view]"

section \<open>Lemmas\<close>

lemma field_error_texts:
  "concat (map error_texts (field_error errs n)) = (case map_of errs n of Some m \<Rightarrow> if m \<noteq> [] then [m] else [] | None \<Rightarrow> [])"
  by (simp add: field_error_def split: option.split)

lemma map_of_map_fst:
  "distinct (map fst errs) \<Longrightarrow> map (\<lambda>n. the (map_of errs n)) (map fst errs) = map snd errs"
  by (induction errs) (auto intro!: map_cong simp: image_iff)

lemma alist_shown_mset:
  assumes "distinct (map fst errs)" "set (map fst errs) \<subseteq> set order" "distinct order"
    "\<forall>(n, m) \<in> set errs. m \<noteq> []"
  shows "mset (concat (map (\<lambda>n. case map_of errs n of Some m \<Rightarrow> if m \<noteq> [] then [m] else [] | None \<Rightarrow> []) order)) =
         mset (map snd errs)"
proof -
  let ?keys = "set (map fst errs)"
  have step: "(case map_of errs n of Some m \<Rightarrow> if m \<noteq> [] then [m] else [] | None \<Rightarrow> []) =
      (if n \<in> ?keys then [the (map_of errs n)] else [])" for n
  proof (cases "map_of errs n")
    case (Some m)
    then have "(n, m) \<in> set errs" by (rule map_of_SomeD)
    with Some assms(4) show ?thesis by (force simp: image_iff)
  next
    case None
    then have "n \<notin> ?keys" by (simp add: map_of_eq_None_iff)
    with None show ?thesis by simp
  qed
  have "concat (map (\<lambda>n. case map_of errs n of Some m \<Rightarrow> if m \<noteq> [] then [m] else [] | None \<Rightarrow> []) order) =
        map (\<lambda>n. the (map_of errs n)) (filter (\<lambda>n. n \<in> ?keys) order)"
    by (induction order) (simp_all only: step, simp_all)
  moreover have "mset (filter (\<lambda>n. n \<in> ?keys) order) = mset (map fst errs)"
  proof -
    have "set (filter (\<lambda>n. n \<in> ?keys) order) = set (map fst errs)" using assms(2) by auto
    moreover have "distinct (filter (\<lambda>n. n \<in> ?keys) order)" using assms(3) by simp
    ultimately show ?thesis using assms(1) set_eq_iff_mset_eq_distinct by blast
  qed
  ultimately show ?thesis
    using map_of_map_fst [OF assms(1)] by (metis mset_map)
qed

lemma DonateForm_view_errors:
  "error_texts (DonateForm_view s) =
   concat (map (\<lambda>n. case map_of (errors s) n of Some m \<Rightarrow> if m \<noteq> [] then [m] else [] | None \<Rightarrow> []) FORM_FIELDS)"
  by (simp add: DonateForm_view_def FORM_FIELDS_def photo_view_def submit_button_def field_error_texts Let_def)

lemma form_errors_keys:
  "distinct (map fst (form_errors s)) \<and> set (map fst (form_errors s)) \<subseteq> set FORM_FIELDS \<and>
   (\<forall>(n, m) \<in> set (form_errors s). m \<noteq> [])"
  by (cases "js_trim (fd_itemName (formData s)) = []"; cases "js_trim (fd_description (formData s)) = []";
      cases "fd_category (formData s) = []"; cases "fd_condition (formData s) = []";
      cases "js_trim (fd_location (formData s)) = []"; cases "js_trim (fd_contactEmail (formData s)) = []";
      cases "email_valid (fd_contactEmail (formData s))"; cases "selectedFile s")
     (simp_all add: form_errors_def Let_def FORM_FIELDS_def)

lemma submitDonation_errors:
  "submitDonation r n s d = (s', d', cs, t, nav) \<Longrightarrow>
   errors s' = form_errors s \<and> isSubmitting s' = isSubmitting s \<or> errors s' = form_errors s \<and> \<not> isSubmitting s'"
  by (auto simp: submitDonation_def validateForm_def Let_def split: prod.splits sum.splits option.splits if_splits bool.splits)

text \<open>
  Claim C14. When a submission ends, whatever the outcome (validation error, unreadable
  photo, failed or successful save), the form shows, in the error style, exactly the
  messages validation produced (one under each flagged field, the photo's first), and
  its submit button is enabled again and reads Submit Donation.
\<close>

theorem submit_form_view:
  assumes "\<not> isSubmitting s" and "submitDonation r n s d = (s', d', cs, t, nav)"
  shows "mset (concat (map error_texts [DonateForm_view s'])) = mset (map snd (form_errors s)) \<and>
         submit_button s' = Button False [Text ''Submit Donation'']"
proof -
  have e: "errors s' = form_errors s" and b: "\<not> isSubmitting s'" using submitDonation_errors [OF assms(2)] assms(1) by auto
  have "distinct FORM_FIELDS" by (simp add: FORM_FIELDS_def)
  then show ?thesis
    using alist_shown_mset [of "form_errors s" FORM_FIELDS] form_errors_keys [of s] e b
    by (simp add: DonateForm_view_errors submit_button_def)
qed

theorem submit_form_view_witness:
  "\<not> isSubmitting form_init \<and>
   (case submitDonation Loaded NetOk form_init example_db of (s', d', cs, t, nav) \<Rightarrow>
      mset (concat (map error_texts [DonateForm_view s'])) = mset (map snd (form_errors form_init)) \<and>
      submit_button s' = Button False [Text ''Submit Donation''])"
proof -
  have i: "\<not> isSubmitting form_init" by (simp add: form_init_def)
  obtain s' d' cs t nav where r: "submitDonation Loaded NetOk form_init example_db = (s', d', cs, t, nav)"
    by (metis prod_cases5)
  show ?thesis using submit_form_view [OF i r] i r by simp
qed

end
