(* ===== verification/Spec2Isabelle.thy ===== *)
theory Spec2Isabelle
  imports Quiesce Screens
begin

text \<open>
  A verification development of the HeartShare donation marketplace (the React and
  TypeScript sources under \<open>src/src\<close>). Donors list items through a form; browsers see
  the listed items and claim them, which removes the item and reveals the donor's email.

  \<^bold>\<open>Parts of the program, and the theory that models each.\<close>
  \<^item> \<open>types/donation.ts\<close>: the \<open>DonatedItem\<close> view model and the category and condition
    lists; theory \<open>Donation\<close> (record \<open>donated_item\<close>, fields prefixed \<open>di_\<close>).
  \<^item> \<open>lib/database.ts\<close>: select, insert, delete and the change subscription of the
    hosted table \<open>donated_items\<close>; theory \<open>Database\<close>. The table and its change feed
    are not code of the repository and are modelled from the spec: rows in insertion order
    with a timestamp each, ids and timestamps from counters, a \<open>net\<close> argument saying
    whether a request fails, and the notifications each commit publishes.
    \<open>dispatch_change\<close> hands a notification to the callback for its event.
  \<^item> \<open>lib/storage.ts\<close>: the local-storage helpers and \<open>fileToBase64\<close>; theory
    \<open>Storage\<close>, on top of theory \<open>Json\<close> (\<open>JSON.stringify\<close> and \<open>JSON.parse\<close> as a
    printer, a lexer state machine and a shift-reduce parser; integers only) and theory
    \<open>Base64\<close> (files as \<open>8 word\<close> lists, \<open>FileReader.readAsDataURL\<close>). Local storage is
    an association list with a quota; a write beyond it throws \<open>QuotaExceededError\<close>.
  \<^item> \<open>components/ItemGrid.tsx\<close> with \<open>ItemCard.tsx\<close> and \<open>ClaimDialog.tsx\<close>: the
    grid of donated and placeholder items, the claim flow and the claimed-placeholder list;
    theory \<open>Grid\<close> (record \<open>grid_state\<close>, one function per handler; the asynchronous
    \<open>handleConfirmClaim\<close> is split at its \<open>await\<close> into \<open>handleConfirmClaim\<close> and
    \<open>handleConfirmClaim_resume\<close>; \<open>grid_cards\<close> is what the render shows).
  \<^item> \<open>pages/Index.tsx\<close> with the grid, the table, local storage and the realtime
    channel: theory \<open>Page\<close>, a deterministic step function \<open>page_step\<close> over an
    \<open>event\<close> datatype. The environment picks the order of events (mount, unmount, the
    backend serving the select, its delivery, each queued notification, other clients'
    writes, clicks, the resolution of each delete in flight), so every interleaving is a
    list of events and a run is \<open>page_run\<close>, a fold of \<open>page_step\<close>.
  \<^item> Theory \<open>Quiesce\<close> on top of \<open>Page\<close>: \<open>quiesce\<close>, the network catching up
    with a page on its own (the select served and delivered, the oldest delete in flight
    resolved, each queued notification delivered, until nothing is left).
  \<^item> \<open>components/DonateForm.tsx\<close>: theory \<open>Form\<close>: the form state, its input, select
    and file handlers, \<open>validateForm\<close> with the email pattern, and \<open>submitDonation\<close> as
    one step whose reader and request outcomes are parameters.
  \<^item> \<open>components/Navbar.tsx\<close>: theory \<open>Navbar\<close>: the mobile menu flag, the
    highlighting of the current page's link (\<open>browse_link_never_active\<close>: the link to
    \<open>/#items\<close> is never highlighted, a finding), and the rendered bar (\<open>navbar_view\<close>).
  \<^item> What the screens show: theory \<open>View\<close> (a rendered tree, \<open>node\<close>, keeping texts,
    headings, badges, images, links with their targets, buttons, form controls, dialogs and
    element ids, with functions reading them in document order); theory \<open>Cards\<close>
    (\<open>ItemCard.tsx\<close>, \<open>ClaimDialog.tsx\<close> and the JSX of \<open>ItemGrid\<close> as
    \<open>ItemCard_view\<close>, \<open>PlaceholderCard_view\<close>, the two dialog views and
    \<open>grid_view\<close>); theory \<open>Screens\<close> (\<open>HeroSection.tsx\<close>, \<open>Footer.tsx\<close>, the JSX of
    \<open>DonateForm\<close>, and the pages \<open>Index.tsx\<close> and \<open>Donate.tsx\<close> composing them).

  \<^bold>\<open>What is shown.\<close>
  \<^item> Theory \<open>Page\<close>. \<open>sync_inv\<close> (the grid's rows with the queued notifications applied
    are the table's ordered select) holds after every \<open>clean\<close> run, and once the network
    catches up (\<open>settle\<close>) the grid shows exactly the table's rows newest first: the
    grid with its fetch and callbacks refines the ordered select (\<open>grid_refines_table\<close>).
    A clean run serves the select without error, commits no write between subscribing and
    the serving of the select, and hands no notification to the grid while the select's
    response is in flight; the two concrete runs \<open>fetch_race_duplicate\<close> and
    \<open>fetch_race_lost\<close> show that without these conditions the grid duplicates or loses
    a row. \<open>ph_inv\<close> (the placeholders shown are the seed minus the ids stored locally)
    holds after every run. The claim flows: a donated claim removes exactly that row and
    reveals its email; a placeholder claim persists across remounts or, with storage full,
    throws; cancelling changes nothing. The two pools never cross (\<open>pools_separate\<close>):
    only a placeholder claim writes local storage, and the table changes only by other
    clients' writes or a donated item's delete. Findings: a failed delete still shows the
    success dialog; a delete of a row another client already removed still reports success;
    opening another card while a delete is in flight shows that card's email; a stored
    \<open>null\<close> stops the grid from mounting. In every reachable page the two dialogs are never
    open together and an open confirmation always has a target (\<open>reachable_dialogs\<close>, by
    rule induction over \<open>reachable\<close> with the step lemma \<open>dialog_inv_step\<close>).
  \<^item> Theory \<open>Quiesce\<close>: \<open>quiesce\<close> is a clean run of network events that reaches a
    quiet page (\<open>quiesce_steps\<close>); after a clean run the quiet page shows
    the table newest first and none of the items whose claim was in flight
    (\<open>quiesce_refines_table\<close>), which strengthens \<open>grid_refines_table\<close> to runs that
    leave deletes unresolved.
  \<^item> Theories \<open>Cards\<close> and \<open>Screens\<close>: the grid shows one card per row and per
    remaining placeholder, in list order, with only the spinner while loading
    (\<open>grid_view_headings\<close>); no donor email is rendered before the success dialog opens
    (\<open>grid_view_hides_emails\<close>, a non-interference statement; finding: the emails still
    reach every browser in the select); when a submission ends the form shows exactly
    validation's messages, as a multiset, and its button is enabled again
    (\<open>submit_form_view\<close>). Findings visible in the definitions: the New badge holds
    mis-encoded bytes (\<open>NEW_LABEL\<close>), and two footer links lead to \<open>#\<close>.
  \<^item> Theory \<open>Form\<close>: empty required fields block submission with their error; the
    photo checks and their 5MB bound; a valid submission adds exactly one row on top;
    typing clears only its field's error. Findings, each for every form state: an email
    containing white space is rejected although the trimmed address saved would be valid;
    a rejected photo keeps the earlier one, which the next submission uploads; any
    non-empty category passes validation and is saved. The lemma \<open>email_valid_regex\<close>
    records that the direct scan of the email pattern is faithful to the pattern.
  \<^item> Theory \<open>Database\<close>: save and delete behave as stated on each branch, errors included; the notifications of each
    commit turn the old select into the new one (\<open>save_commit\<close>, \<open>delete_commit\<close> in
    \<open>Grid\<close>), the lemma the page refinement rests on.
  \<^item> Theories \<open>Json\<close>, \<open>Base64\<close>, \<open>Storage\<close>: \<open>JSON.parse (JSON.stringify v) = v\<close>;
    Base64 decoding inverts encoding, with the encoded length \<open>4 * ceil(n / 3)\<close>; the data
    URL of \<open>fileToBase64\<close> carries the file's bytes back; save then read of the local
    item list gives the new item in front; delete by id keeps exactly the other items;
    \<open>generateId\<close> never repeats an id across milliseconds.
  \<^item> This theory: a valid donation followed by loading the home page lists the new item on
    top of exactly the previous list (\<open>donate_then_home\<close>), the spec's testable property
    stated across the form, the database layer and the grid.

  \<^bold>\<open>Bounds and termination.\<close> Every function is total: the recursions are
  structural (the JSON lexer and parser consume one character or token per step, the Base64
  codec three bytes or four characters), except \<open>quiesce\<close>, whose termination is proved
  by the lexicographic measure \<open>quiesce_measure\<close> (stage of the select, deletes in flight,
  queued notifications: a resolved delete may queue notifications but removes a request).
  No fuel is needed; a page the environment never lets
  settle is a run, and the refinements are stated for the settled or quiet page.

  \<^bold>\<open>Not modelled.\<close> Styling, layout, icons and animation (class names, breakpoints,
  hover effects): the rendered trees keep what is shown and what can be activated. The
  router and the scrolling to a fragment (a link keeps only its target);
  the toast queue beyond which toast a submission raises; the relative-time formatting of a
  card (\<open>formatDistanceToNow\<close> is a parameter); the document head beyond the title.
\<close>

section \<open>Properties spanning the components\<close>

text \<open>
  Claim C6. Submitting a valid donation whose photo is read and whose save succeeds
  navigates home, and the home page, once loaded, lists the new item first followed by
  exactly the items it listed before: no existing item is removed, one is added on top,
  with the trimmed name and email of the form.
\<close>

theorem donate_then_home:
  assumes valid: "form_errors s = []" and f: "selectedFile s = Some file" and wf: "db_wf d"
    and st: "getClaimedPlaceholderIds st = JArr xs"
    and run: "submitDonation Loaded NetOk s d = (s', d', cs, t, nav)"
  shows "nav \<and> (\<exists>g g'. grid (page_run (init_page d st) [Mount, ServeFetch NetOk, DeliverFetch]) = Some g \<and>
            grid (page_run (init_page d' st) [Mount, ServeFetch NetOk, DeliverFetch]) = Some g' \<and>
            tl (donatedItems g') = donatedItems g \<and> donatedItems g' \<noteq> [] \<and>
            row_name (hd (donatedItems g')) = js_trim (fd_itemName (formData s)) \<and>
            row_contact_email (hd (donatedItems g')) = js_trim (fd_contactEmail (formData s)))"
proof -
  let ?i = "donation_insert (formData s) (readAsDataURL file)"
  have d': "d' = snd (sb_insert ?i d)" and nav using run submitDonation_valid [OF valid f, of d] by simp_all
  have wf': "db_wf d'" using d' sb_insert_wf [OF wf] by simp
  have sel: "sb_select_desc d' = new_row ?i d # sb_select_desc d"
    using d' sb_select_desc_insert [OF wf, of ?i] by (simp add: sb_insert_def)
  obtain g where g: "grid (page_run (init_page d st) [Mount, ServeFetch NetOk, DeliverFetch]) = Some g"
    "donatedItems g = sb_select_desc d" using home_load [OF wf st] by blast
  obtain g' where g': "grid (page_run (init_page d' st) [Mount, ServeFetch NetOk, DeliverFetch]) = Some g'"
    "donatedItems g' = sb_select_desc d'" using home_load [OF wf' st] by blast
  show ?thesis
    using g g' sel \<open>nav\<close> by (simp add: new_row_def donation_insert_def)
qed

theorem donate_then_home_witness:
  "form_errors example_form = [] \<and> selectedFile example_form = Some example_file \<and> db_wf example_db \<and>
   getClaimedPlaceholderIds example_storage = JArr [] \<and>
   (case submitDonation Loaded NetOk example_form example_db of (s', d', cs, t, nav) \<Rightarrow>
     nav \<and> (\<exists>g g'. grid (page_run (init_page example_db example_storage) [Mount, ServeFetch NetOk, DeliverFetch]) = Some g \<and>
            grid (page_run (init_page d' example_storage) [Mount, ServeFetch NetOk, DeliverFetch]) = Some g' \<and>
            tl (donatedItems g') = donatedItems g \<and> donatedItems g' \<noteq> [] \<and>
            row_name (hd (donatedItems g')) = js_trim (fd_itemName (formData example_form)) \<and>
            row_contact_email (hd (donatedItems g')) = js_trim (fd_contactEmail (formData example_form))))"
proof -
  have v: "form_errors example_form = []"
    by (simp add: form_errors_def example_form_def form_init_def js_trim_def js_space_def email_valid_def
        email_char_def)
  have f: "selectedFile example_form = Some example_file" by (simp add: example_form_def)
  obtain s' d' cs t nav where r: "submitDonation Loaded NetOk example_form example_db = (s', d', cs, t, nav)"
    by (metis prod_cases5)
  show ?thesis
    using donate_then_home [OF v f example_db_wf getClaimedPlaceholderIds_example r] v f example_db_wf r
      getClaimedPlaceholderIds_example by simp
qed

end
